(* ===== verification/GoPrelude.thy ===== *)
theory GoPrelude
  imports Main "HOL-Library.Word" "HOL-Library.Multiset" "HOL-Library.AList"
    "HOL-Library.Sublist"
begin

text \<open>
  The prelude of the development: how a Go function of the driver is written in HOL.

  \<^item> An \<open>error\<close> is a value: a gRPC status made by the driver, a \<open>fmt.Errorf\<close> text, an
    operating-system error, a \<open>strconv\<close> error, or an opaque error of a package outside the
    repository.
  \<^item> A Go function that returns \<open>(v, err)\<close> is a state transformer whose \<open>outcome\<close> is
    \<open>Ret v\<close> (no error), \<open>Fail err\<close>, \<open>Panic\<close> (nil dereference or index out of range, which
    ends the process) or \<open>NoFuel\<close> (only for the one loop of the driver that need not end).
  \<^item> \<open>attempt m h k\<close> is Go's \<open>x, err := m; if err != nil { h err }; k x\<close>.
  \<^item> A Go map is an association list read through \<open>map_of\<close>; \<open>range\<close> visits its keys once
    each, in an order the runtime draws (\<open>permute\<close>).

  The second half is the reasoning kit: frame rules for relations that hold between the states
  before and after an operation (locale \<open>state_frame\<close>), rules for the errors and panics an
  operation can end in, and inversion rules for successful runs.
\<close>

section \<open>Errors\<close>

text \<open>The gRPC codes the driver names.\<close>

datatype code = OK | InvalidArgument | NotFound | AlreadyExists | PermissionDenied
  | FailedPrecondition | Aborted | Unimplemented | Internal | Unauthenticated
  | DeadlineExceeded | Unknown

datatype errno = ENOENT | EACCES | EPERM | EEXIST | OtherErrno nat

datatype error =
    StatusErr code string         \<comment> \<open>\<open>status.Error(f)\<close> of the gRPC package\<close>
  | PlainErr string               \<comment> \<open>\<open>fmt.Errorf\<close>\<close>
  | OsErr errno string            \<comment> \<open>an error of package \<open>os\<close>: errno and text\<close>
  | NumErr string string bool     \<comment> \<open>\<open>strconv.NumError\<close>: function, input, syntax (else range)\<close>
  | LibErr string string          \<comment> \<open>an error of a package outside the repository: kind and text\<close>

text \<open>\<open>os.IsNotExist\<close> and \<open>os.IsPermission\<close>.\<close>

fun os_IsNotExist :: "error \<Rightarrow> bool" where
  "os_IsNotExist (OsErr ENOENT _) = True"
| "os_IsNotExist _ = False"

fun os_IsPermission :: "error \<Rightarrow> bool" where
  "os_IsPermission (OsErr EACCES _) = True"
| "os_IsPermission (OsErr EPERM _) = True"
| "os_IsPermission _ = False"

section \<open>Operations\<close>

datatype 'a outcome = Ret 'a | Fail error | Panic | NoFuel

type_synonym ('s, 'a) M = "'s \<Rightarrow> 'a outcome \<times> 's"

definition ret :: "'a \<Rightarrow> ('s, 'a) M" where
  "ret x = (\<lambda>s. (Ret x, s))"

definition throw :: "error \<Rightarrow> ('s, 'a) M" where
  "throw e = (\<lambda>s. (Fail e, s))"

definition panic :: "('s, 'a) M" where
  "panic = (\<lambda>s. (Panic, s))"

definition no_fuel :: "('s, 'a) M" where
  "no_fuel = (\<lambda>s. (NoFuel, s))"

definition attempt :: "('s, 'a) M \<Rightarrow> (error \<Rightarrow> ('s, 'b) M) \<Rightarrow> ('a \<Rightarrow> ('s, 'b) M) \<Rightarrow> ('s, 'b) M" where
  "attempt m h k = (\<lambda>s. case m s of
      (Ret x, t) \<Rightarrow> k x t
    | (Fail e, t) \<Rightarrow> h e t
    | (Panic, t) \<Rightarrow> (Panic, t)
    | (NoFuel, t) \<Rightarrow> (NoFuel, t))"

text \<open>\<open>x, err := m; if err != nil { return err }; k x\<close>\<close>

definition bind :: "('s, 'a) M \<Rightarrow> ('a \<Rightarrow> ('s, 'b) M) \<Rightarrow> ('s, 'b) M" where
  "bind m k = attempt m throw k"

definition gets :: "('s \<Rightarrow> 'a) \<Rightarrow> ('s, 'a) M" where
  "gets f = (\<lambda>s. (Ret (f s), s))"

definition modify :: "('s \<Rightarrow> 's) \<Rightarrow> ('s, unit) M" where
  "modify f = (\<lambda>s. (Ret (), f s))"

text \<open>Dereferencing a pointer or calling a method of an interface value: \<open>nil\<close> panics.\<close>

definition deref :: "'a option \<Rightarrow> ('a \<Rightarrow> ('s, 'b) M) \<Rightarrow> ('s, 'b) M" where
  "deref p k = (case p of None \<Rightarrow> panic | Some x \<Rightarrow> k x)"

text \<open>An error-only result \<open>err\<close>, with \<open>nil\<close> as \<open>None\<close>.\<close>

definition lift_err :: "error option \<Rightarrow> ('s, unit) M" where
  "lift_err e = (case e of None \<Rightarrow> ret () | Some e \<Rightarrow> throw e)"

definition lift_sum :: "error + 'a \<Rightarrow> ('s, 'a) M" where
  "lift_sum r = (case r of Inl e \<Rightarrow> throw e | Inr x \<Rightarrow> ret x)"

text \<open>A \<open>for\<close> loop over a slice that returns at the first error, and one with an accumulator.\<close>

primrec forM :: "'a list \<Rightarrow> ('a \<Rightarrow> ('s, unit) M) \<Rightarrow> ('s, unit) M" where
  "forM [] f = ret ()"
| "forM (x # xs) f = bind (f x) (\<lambda>_. forM xs f)"

primrec foldM :: "('b \<Rightarrow> 'a \<Rightarrow> ('s, 'b) M) \<Rightarrow> 'b \<Rightarrow> 'a list \<Rightarrow> ('s, 'b) M" where
  "foldM f b [] = ret b"
| "foldM f b (x # xs) = bind (f b x) (\<lambda>b'. foldM f b' xs)"

named_theorems run_simps \<open>evaluation of an operation on a state\<close>

lemma run_ret [run_simps]: "ret x s = (Ret x, s)"
  by (simp add: ret_def)

lemma run_throw [run_simps]: "throw e s = (Fail e, s)"
  by (simp add: throw_def)

lemma run_panic [run_simps]: "panic s = (Panic, s)"
  by (simp add: panic_def)

lemma run_no_fuel [run_simps]: "no_fuel s = (NoFuel, s)"
  by (simp add: no_fuel_def)

lemma run_gets [run_simps]: "gets f s = (Ret (f s), s)"
  by (simp add: gets_def)

lemma run_modify [run_simps]: "modify f s = (Ret (), f s)"
  by (simp add: modify_def)

lemma run_attempt [run_simps]: "attempt m h k s = (case m s of
      (Ret x, t) \<Rightarrow> k x t
    | (Fail e, t) \<Rightarrow> h e t
    | (Panic, t) \<Rightarrow> (Panic, t)
    | (NoFuel, t) \<Rightarrow> (NoFuel, t))"
  by (simp add: attempt_def)

lemma run_bind [run_simps]: "bind m k s = (case m s of
      (Ret x, t) \<Rightarrow> k x t
    | (Fail e, t) \<Rightarrow> (Fail e, t)
    | (Panic, t) \<Rightarrow> (Panic, t)
    | (NoFuel, t) \<Rightarrow> (NoFuel, t))"
  by (simp add: bind_def attempt_def throw_def split: prod.splits outcome.splits)

lemma run_deref [run_simps]: "deref p k s = (case p of None \<Rightarrow> (Panic, s) | Some x \<Rightarrow> k x s)"
  by (simp add: deref_def panic_def split: option.splits)

lemma run_lift_err [run_simps]:
  "lift_err e s = (case e of None \<Rightarrow> (Ret (), s) | Some e \<Rightarrow> (Fail e, s))"
  by (simp add: lift_err_def ret_def throw_def split: option.splits)

lemma run_lift_sum [run_simps]:
  "lift_sum r s = (case r of Inl e \<Rightarrow> (Fail e, s) | Inr x \<Rightarrow> (Ret x, s))"
  by (simp add: lift_sum_def ret_def throw_def split: sum.splits)

lemma attempt_assoc_ret: "attempt (ret x) h k = k x"
  by (rule HOL.ext) (simp add: run_simps)

lemma bind_ret [simp]: "bind (ret x) k = k x"
  by (rule HOL.ext) (simp add: run_simps)

lemma bind_assoc: "bind (bind m f) g = bind m (\<lambda>x. bind (f x) g)"
  by (rule HOL.ext) (simp add: run_simps split: prod.splits outcome.splits)

section \<open>Inversion of a run\<close>

named_theorems ran \<open>what a run that ended in a given outcome went through\<close>

lemma attempt_Ret_iff [ran]: "attempt m h k s = (Ret y, t) \<longleftrightarrow>
    (\<exists>x u. m s = (Ret x, u) \<and> k x u = (Ret y, t)) \<or>
    (\<exists>e u. m s = (Fail e, u) \<and> h e u = (Ret y, t))"
  by (auto simp: attempt_def split: prod.splits outcome.splits)

lemma attempt_Fail_iff [ran]: "attempt m h k s = (Fail d, t) \<longleftrightarrow>
    (\<exists>x u. m s = (Ret x, u) \<and> k x u = (Fail d, t)) \<or>
    (\<exists>e u. m s = (Fail e, u) \<and> h e u = (Fail d, t))"
  by (auto simp: attempt_def split: prod.splits outcome.splits)

lemma attempt_Panic_iff [ran]: "attempt m h k s = (Panic, t) \<longleftrightarrow>
    m s = (Panic, t) \<or>
    (\<exists>x u. m s = (Ret x, u) \<and> k x u = (Panic, t)) \<or>
    (\<exists>e u. m s = (Fail e, u) \<and> h e u = (Panic, t))"
  by (auto simp: attempt_def split: prod.splits outcome.splits)

lemma bind_Ret_iff [ran]: "bind m k s = (Ret y, t) \<longleftrightarrow>
    (\<exists>x u. m s = (Ret x, u) \<and> k x u = (Ret y, t))"
  by (auto simp: bind_def attempt_def throw_def split: prod.splits outcome.splits)

lemma bind_Fail_iff [ran]: "bind m k s = (Fail d, t) \<longleftrightarrow>
    m s = (Fail d, t) \<or> (\<exists>x u. m s = (Ret x, u) \<and> k x u = (Fail d, t))"
  by (auto simp: bind_def attempt_def throw_def split: prod.splits outcome.splits)

lemma bind_Panic_iff [ran]: "bind m k s = (Panic, t) \<longleftrightarrow>
    m s = (Panic, t) \<or> (\<exists>x u. m s = (Ret x, u) \<and> k x u = (Panic, t))"
  by (auto simp: bind_def attempt_def throw_def split: prod.splits outcome.splits)

lemma ret_run_iff [ran]: "ret x s = (r, t) \<longleftrightarrow> r = Ret x \<and> t = s"
  by (auto simp: ret_def)

lemma throw_run_iff [ran]: "throw e s = (r, t) \<longleftrightarrow> r = Fail e \<and> t = s"
  by (auto simp: throw_def)

lemma panic_run_iff [ran]: "panic s = (r, t) \<longleftrightarrow> r = Panic \<and> t = s"
  by (auto simp: panic_def)

lemma no_fuel_run_iff [ran]: "no_fuel s = (r, t) \<longleftrightarrow> r = NoFuel \<and> t = s"
  by (auto simp: no_fuel_def)

lemma gets_run_iff [ran]: "gets f s = (r, t) \<longleftrightarrow> r = Ret (f s) \<and> t = s"
  by (auto simp: gets_def)

lemma modify_run_iff [ran]: "modify f s = (r, t) \<longleftrightarrow> r = Ret () \<and> t = f s"
  by (auto simp: modify_def)

lemma deref_run_iff [ran]: "deref p k s = (r, t) \<longleftrightarrow>
    (p = None \<and> r = Panic \<and> t = s) \<or> (\<exists>x. p = Some x \<and> k x s = (r, t))"
  by (auto simp: deref_def panic_def split: option.splits)

lemma lift_err_run_iff [ran]: "lift_err e s = (r, t) \<longleftrightarrow>
    t = s \<and> r = (case e of None \<Rightarrow> Ret () | Some e \<Rightarrow> Fail e)"
  by (auto simp: lift_err_def ret_def throw_def split: option.splits)

lemma lift_sum_run_iff [ran]: "lift_sum r s = (q, t) \<longleftrightarrow>
    t = s \<and> q = (case r of Inl e \<Rightarrow> Fail e | Inr x \<Rightarrow> Ret x)"
  by (auto simp: lift_sum_def ret_def throw_def split: sum.splits)

text \<open>\<open>gives P m\<close>: what a run of \<open>m\<close> that succeeds returns satisfies \<open>P\<close>.\<close>

definition gives :: "('a \<Rightarrow> bool) \<Rightarrow> ('s, 'a) M \<Rightarrow> bool" where
  "gives P m \<longleftrightarrow> (\<forall>s x t. m s = (Ret x, t) \<longrightarrow> P x)"

lemma givesI: "(\<And>s x t. m s = (Ret x, t) \<Longrightarrow> P x) \<Longrightarrow> gives P m"
  by (simp add: gives_def)

lemma givesD: "gives P m \<Longrightarrow> m s = (Ret x, t) \<Longrightarrow> P x"
  unfolding gives_def by blast

section \<open>Frames\<close>

text \<open>
  \<open>keeps R m\<close>: whatever the outcome of \<open>m\<close>, the states before and after it are related by
  \<open>R\<close>. For a reflexive and transitive \<open>R\<close> this is compositional, so that a fact about a whole
  handler (the configuration is untouched, only these calls were made) follows from the same
  fact about the operations it calls.
\<close>

definition keeps :: "('s \<Rightarrow> 's \<Rightarrow> bool) \<Rightarrow> ('s, 'a) M \<Rightarrow> bool" where
  "keeps R m \<longleftrightarrow> (\<forall>s. R s (snd (m s)))"

lemma keepsI: "(\<And>s. R s (snd (m s))) \<Longrightarrow> keeps R m"
  by (simp add: keeps_def)

lemma keepsD: "keeps R m \<Longrightarrow> m s = (r, t) \<Longrightarrow> R s t"
  unfolding keeps_def by (metis snd_conv)

named_theorems keeps_cases \<open>frame rules for case distinctions\<close>

lemma keeps_if [keeps_cases]:
  "(c \<Longrightarrow> keeps R a) \<Longrightarrow> (\<not> c \<Longrightarrow> keeps R b) \<Longrightarrow> keeps R (if c then a else b)"
  by simp

lemma keeps_case_option [keeps_cases]:
  "keeps R a \<Longrightarrow> (\<And>x. p = Some x \<Longrightarrow> keeps R (f x)) \<Longrightarrow>
    keeps R (case p of None \<Rightarrow> a | Some x \<Rightarrow> f x)"
  by (cases p) simp_all

lemma keeps_case_list [keeps_cases]:
  "keeps R a \<Longrightarrow> (\<And>x xs. l = x # xs \<Longrightarrow> keeps R (f x xs)) \<Longrightarrow>
    keeps R (case l of [] \<Rightarrow> a | x # xs \<Rightarrow> f x xs)"
  by (cases l) simp_all

lemma keeps_case_prod [keeps_cases]:
  "(\<And>a b. p = (a, b) \<Longrightarrow> keeps R (f a b)) \<Longrightarrow> keeps R (case p of (a, b) \<Rightarrow> f a b)"
  by (cases p) simp

lemma keeps_case_sum [keeps_cases]:
  "(\<And>x. p = Inl x \<Longrightarrow> keeps R (f x)) \<Longrightarrow> (\<And>x. p = Inr x \<Longrightarrow> keeps R (g x)) \<Longrightarrow>
    keeps R (case p of Inl x \<Rightarrow> f x | Inr x \<Rightarrow> g x)"
  by (cases p) simp_all

lemma keeps_Let [keeps_cases]: "(\<And>y. y = x \<Longrightarrow> keeps R (f y)) \<Longrightarrow> keeps R (Let x f)"
  by simp

locale state_frame =
  fixes R :: "'s \<Rightarrow> 's \<Rightarrow> bool"
  assumes frame_refl: "R s s"
    and frame_trans: "R s t \<Longrightarrow> R t u \<Longrightarrow> R s u"
begin

lemma keeps_ret: "keeps R (ret x)"
  by (simp add: keeps_def ret_def frame_refl)

lemma keeps_throw: "keeps R (throw e)"
  by (simp add: keeps_def throw_def frame_refl)

lemma keeps_panic: "keeps R panic"
  by (simp add: keeps_def panic_def frame_refl)

lemma keeps_no_fuel: "keeps R no_fuel"
  by (simp add: keeps_def no_fuel_def frame_refl)

lemma keeps_gets: "keeps R (gets f)"
  by (simp add: keeps_def gets_def frame_refl)

lemma keeps_modify: "(\<And>s. R s (f s)) \<Longrightarrow> keeps R (modify f)"
  by (simp add: keeps_def modify_def)

lemma keeps_attempt:
  assumes "keeps R m" and "\<And>e. keeps R (h e)" and "\<And>x. keeps R (k x)"
  shows "keeps R (attempt m h k)"
proof (rule keepsI)
  fix s
  obtain r t where m: "m s = (r, t)" by (cases "m s")
  with assms(1) have "R s t" by (rule keepsD)
  then show "R s (snd (attempt m h k s))"
    using assms(2,3) m unfolding keeps_def attempt_def
    by (cases r) (auto intro: frame_trans)
qed

lemma keeps_bind: "keeps R m \<Longrightarrow> (\<And>x. keeps R (k x)) \<Longrightarrow> keeps R (bind m k)"
  unfolding bind_def by (intro keeps_attempt keeps_throw)

text \<open>A continuation may rely on what the operation before it gives.\<close>

lemma keeps_attempt_gives:
  assumes "keeps R m" and "gives P m" and "\<And>e. keeps R (h e)" and "\<And>x. P x \<Longrightarrow> keeps R (k x)"
  shows "keeps R (attempt m h k)"
proof (rule keepsI)
  fix s
  obtain r t where m: "m s = (r, t)" by (cases "m s")
  with assms(1) have "R s t" by (rule keepsD)
  then show "R s (snd (attempt m h k s))"
    using assms(3,4) givesD [OF assms(2)] m unfolding keeps_def attempt_def
    by (cases r) (auto intro: frame_trans)
qed

lemma keeps_bind_gives: "keeps R m \<Longrightarrow> gives P m \<Longrightarrow> (\<And>x. P x \<Longrightarrow> keeps R (k x)) \<Longrightarrow> keeps R (bind m k)"
  unfolding bind_def by (rule keeps_attempt_gives [where P = P]) (simp_all add: keeps_throw)

lemma keeps_deref: "(\<And>x. p = Some x \<Longrightarrow> keeps R (k x)) \<Longrightarrow> keeps R (deref p k)"
  by (cases p) (simp_all add: deref_def keeps_panic)

lemma keeps_lift_err: "keeps R (lift_err e)"
  by (cases e) (simp_all add: lift_err_def keeps_ret keeps_throw)

lemma keeps_lift_sum: "keeps R (lift_sum r)"
  by (cases r) (simp_all add: lift_sum_def keeps_ret keeps_throw)

lemma keeps_forM: "(\<And>x. x \<in> set xs \<Longrightarrow> keeps R (f x)) \<Longrightarrow> keeps R (forM xs f)"
  by (induction xs) (simp_all add: keeps_ret keeps_bind)

lemma keeps_foldM: "(\<And>b x. x \<in> set xs \<Longrightarrow> keeps R (f b x)) \<Longrightarrow> keeps R (foldM f b xs)"
  by (induction xs arbitrary: b) (simp_all add: keeps_ret keeps_bind)

lemmas frame_rules = keeps_ret keeps_throw keeps_panic keeps_no_fuel keeps_gets
  keeps_attempt keeps_bind keeps_deref keeps_lift_err keeps_lift_sum keeps_forM keeps_foldM

end

text \<open>The frame that leaves one component \<open>f\<close> of the state as it was.\<close>

definition same :: "('s \<Rightarrow> 'a) \<Rightarrow> 's \<Rightarrow> 's \<Rightarrow> bool" where
  "same f s t \<longleftrightarrow> f t = f s"

interpretation unchanged: state_frame "same proj" for proj :: "'s \<Rightarrow> 'a"
  by unfold_locales (simp_all add: same_def)

section \<open>Errors and panics of an operation\<close>

text \<open>
  \<open>ends Q m\<close>: every run of \<open>m\<close> that does not succeed ends in an outcome \<open>Q\<close> allows; \<open>Q\<close>
  is given by the errors it allows and whether it allows a panic.
\<close>

definition raises :: "(error \<Rightarrow> bool) \<Rightarrow> ('s, 'a) M \<Rightarrow> bool" where
  "raises Q m \<longleftrightarrow> (\<forall>s e t. m s = (Fail e, t) \<longrightarrow> Q e)"

definition no_panic :: "('s, 'a) M \<Rightarrow> bool" where
  "no_panic m \<longleftrightarrow> (\<forall>s. fst (m s) \<noteq> Panic)"

named_theorems raises_rules \<open>which errors an operation ends in\<close>
named_theorems safe_rules \<open>operations that never panic\<close>

lemma raisesD: "raises Q m \<Longrightarrow> m s = (Fail e, t) \<Longrightarrow> Q e"
  by (auto simp: raises_def)

lemma raises_ret [raises_rules]: "raises Q (ret x)"
  by (simp add: raises_def ret_def)

lemma raises_gets [raises_rules]: "raises Q (gets f)"
  by (simp add: raises_def gets_def)

lemma raises_modify [raises_rules]: "raises Q (modify f)"
  by (simp add: raises_def modify_def)

lemma raises_panic [raises_rules]: "raises Q panic"
  by (simp add: raises_def panic_def)

lemma raises_no_fuel [raises_rules]: "raises Q no_fuel"
  by (simp add: raises_def no_fuel_def)

lemma raises_throw [raises_rules]: "Q e \<Longrightarrow> raises Q (throw e)"
  by (simp add: raises_def throw_def)

lemma raises_attempt [raises_rules]:
  "(\<And>e. raises Q (h e)) \<Longrightarrow> (\<And>x. raises Q (k x)) \<Longrightarrow> raises Q (attempt m h k)"
  unfolding raises_def attempt_Fail_iff by blast

lemma raises_bind [raises_rules]:
  "raises Q m \<Longrightarrow> (\<And>x. raises Q (k x)) \<Longrightarrow> raises Q (bind m k)"
  unfolding raises_def bind_Fail_iff by blast

lemma raises_deref [raises_rules]:
  "(\<And>x. p = Some x \<Longrightarrow> raises Q (k x)) \<Longrightarrow> raises Q (deref p k)"
  by (cases p) (simp_all add: deref_def raises_panic)

lemma raises_if [raises_rules]:
  "(c \<Longrightarrow> raises Q a) \<Longrightarrow> (\<not> c \<Longrightarrow> raises Q b) \<Longrightarrow> raises Q (if c then a else b)"
  by simp

lemma raises_case_option [raises_rules]:
  "raises Q a \<Longrightarrow> (\<And>x. p = Some x \<Longrightarrow> raises Q (f x)) \<Longrightarrow>
    raises Q (case p of None \<Rightarrow> a | Some x \<Rightarrow> f x)"
  by (cases p) simp_all

lemma raises_case_prod [raises_rules]:
  "(\<And>a b. p = (a, b) \<Longrightarrow> raises Q (f a b)) \<Longrightarrow> raises Q (case p of (a, b) \<Rightarrow> f a b)"
  by (cases p) simp

lemma raises_forM: "(\<And>x. x \<in> set xs \<Longrightarrow> raises Q (f x)) \<Longrightarrow> raises Q (forM xs f)"
  by (induction xs) (simp_all add: raises_ret raises_bind)

lemma no_panicD: "no_panic m \<Longrightarrow> m s \<noteq> (Panic, t)"
  unfolding no_panic_def by (metis fst_conv)

lemma no_panic_ret [safe_rules]: "no_panic (ret x)"
  by (simp add: no_panic_def ret_def)

lemma no_panic_throw [safe_rules]: "no_panic (throw e)"
  by (simp add: no_panic_def throw_def)

lemma no_panic_gets [safe_rules]: "no_panic (gets f)"
  by (simp add: no_panic_def gets_def)

lemma no_panic_modify [safe_rules]: "no_panic (modify f)"
  by (simp add: no_panic_def modify_def)

lemma no_panic_lift_err [safe_rules]: "no_panic (lift_err e)"
  by (cases e) (simp_all add: lift_err_def safe_rules)

lemma no_panic_lift_sum [safe_rules]: "no_panic (lift_sum r)"
  by (cases r) (simp_all add: lift_sum_def safe_rules)

lemma no_panic_attempt [safe_rules]:
  "no_panic m \<Longrightarrow> (\<And>e. no_panic (h e)) \<Longrightarrow> (\<And>x. no_panic (k x)) \<Longrightarrow>
    no_panic (attempt m h k)"
  unfolding no_panic_def by (auto simp: attempt_def split: prod.splits outcome.splits)
    (metis fst_conv)+

lemma no_panic_bind [safe_rules]:
  "no_panic m \<Longrightarrow> (\<And>x. no_panic (k x)) \<Longrightarrow> no_panic (bind m k)"
  unfolding bind_def by (intro no_panic_attempt no_panic_throw)

lemma no_panic_if [safe_rules]:
  "(c \<Longrightarrow> no_panic a) \<Longrightarrow> (\<not> c \<Longrightarrow> no_panic b) \<Longrightarrow> no_panic (if c then a else b)"
  by simp

lemma no_panic_case_option [safe_rules]:
  "no_panic a \<Longrightarrow> (\<And>x. p = Some x \<Longrightarrow> no_panic (f x)) \<Longrightarrow>
    no_panic (case p of None \<Rightarrow> a | Some x \<Rightarrow> f x)"
  by (cases p) simp_all

lemma no_panic_case_prod [safe_rules]:
  "(\<And>a b. p = (a, b) \<Longrightarrow> no_panic (f a b)) \<Longrightarrow> no_panic (case p of (a, b) \<Rightarrow> f a b)"
  by (cases p) simp

lemma no_panic_forM: "(\<And>x. x \<in> set xs \<Longrightarrow> no_panic (f x)) \<Longrightarrow> no_panic (forM xs f)"
  by (induction xs) (simp_all add: no_panic_ret no_panic_bind)

section \<open>Go maps\<close>

type_synonym 'v gomap = "(string \<times> 'v) list"

text \<open>\<open>m[k]\<close> on a map of strings: the zero value \<open>""\<close> where the key is missing.\<close>

definition get_str :: "string gomap \<Rightarrow> string \<Rightarrow> string" where
  "get_str m k = (case map_of m k of None \<Rightarrow> [] | Some v \<Rightarrow> v)"

text \<open>
  The order in which \<open>range\<close> visits a map is unspecified. \<open>permute n xs\<close> is the permutation
  of \<open>xs\<close> with number \<open>n\<close>; the runtime draws the number.
\<close>

fun permute :: "nat \<Rightarrow> 'a list \<Rightarrow> 'a list" where
  "permute n [] = []"
| "permute n (x # xs) =
     (let l = Suc (length xs); i = n mod l
      in (x # xs) ! i # permute (n div l) (take i (x # xs) @ drop (Suc i) (x # xs)))"

lemma mset_remove_nth: "i < length xs \<Longrightarrow>
    add_mset (xs ! i) (mset (take i xs @ drop (Suc i) xs)) = mset xs"
  by (metis id_take_nth_drop mset.simps(2) mset_append union_mset_add_mset_right)

lemma mset_permute [simp]: "mset (permute n xs) = mset xs"
proof (induction n xs rule: permute.induct)
  case (1 n)
  then show ?case by simp
next
  case (2 n x xs)
  let ?i = "n mod Suc (length xs)"
  have i: "?i < length (x # xs)" by simp
  have "mset (permute n (x # xs)) =
      add_mset ((x # xs) ! ?i) (mset (take ?i (x # xs) @ drop (Suc ?i) (x # xs)))"
    using 2 by (simp add: Let_def del: take_Suc_Cons drop_Suc_Cons)
  then show ?case using mset_remove_nth [OF i] by simp
qed

lemma set_permute [simp]: "set (permute n xs) = set xs"
  using mset_permute by (metis set_mset_mset)

lemma length_permute [simp]: "length (permute n xs) = length xs"
  using mset_permute by (metis size_mset)

text \<open>Every order is drawn for some number, so a theorem for all numbers is one for all orders.\<close>

lemma permute_all: "mset ys = mset xs \<Longrightarrow> \<exists>n. permute n xs = ys"
proof (induction ys arbitrary: xs)
  case Nil
  then show ?case by (cases xs) auto
next
  case (Cons y ys)
  from Cons.prems have "y \<in> set xs" by (metis list.set_intros(1) mset_eq_setD)
  then obtain i where i: "i < length xs" "xs ! i = y" by (auto simp: in_set_conv_nth)
  let ?zs = "take i xs @ drop (Suc i) xs"
  have "add_mset y (mset ys) = add_mset y (mset ?zs)"
    using mset_remove_nth [OF i(1)] Cons.prems i(2) by simp
  then have "mset ys = mset ?zs" by (simp only: add_mset_add_mset_same_iff)
  with Cons.IH obtain n where n: "permute n ?zs = ys" by blast
  obtain x xs' where xs: "xs = x # xs'" using i(1) by (cases xs) auto
  let ?l = "Suc (length xs')"
  have "(i + ?l * n) mod ?l = i" and "(i + ?l * n) div ?l = n"
    using i(1) by (simp_all only: xs list.size mod_mult_self2 div_mult_self2 mod_less div_less
        add_0_right nat.distinct not_False_eq_True)
  then have "permute (i + ?l * n) xs = y # ys"
    using i(2) n by (simp only: xs permute.simps Let_def)
  then show ?case ..
qed

text \<open>The entries of a map in the order with a given number.\<close>

definition entries :: "nat \<Rightarrow> 'v gomap \<Rightarrow> (string \<times> 'v) list" where
  "entries n m = permute n (AList.clearjunk m)"

lemma set_entries: "(k, v) \<in> set (entries n m) \<longleftrightarrow> map_of m k = Some v"
  unfolding entries_def set_permute
  by (metis distinct_clearjunk map_of_clearjunk map_of_eq_Some_iff)

lemma distinct_entries: "distinct (map fst (entries n m))"
proof -
  have "mset (map fst (entries n m)) = mset (map fst (AList.clearjunk m))"
    unfolding entries_def by (metis mset_map mset_permute)
  then show ?thesis using distinct_clearjunk mset_eq_imp_distinct_iff by blast
qed

lemma map_of_entries [simp]: "map_of (entries n m) k = map_of m k"
proof -
  have "map_of (entries n m) k = Some v \<longleftrightarrow> map_of m k = Some v" for v
    by (simp add: distinct_entries set_entries)
  then show ?thesis by (metis option.exhaust)
qed

lemma keys_entries: "fst ` set (entries n m) = fst ` set m"
proof -
  have "fst ` set (entries n m) = dom (map_of (entries n m))" by (simp add: dom_map_of_conv_image_fst)
  also have "\<dots> = dom (map_of m)" by (simp add: dom_def)
  also have "\<dots> = fst ` set m" by (rule dom_map_of_conv_image_fst)
  finally show ?thesis .
qed

lemma entries_Nil [simp]: "entries n m = [] \<longleftrightarrow> m = []"
  unfolding entries_def by (metis clearjunk.simps(1) length_0_conv length_permute
    AList.clearjunk.elims list.distinct(1))

end
