(* ===== verification/GoStrings.thy ===== *)
theory GoStrings
  imports GoPrelude
begin

text \<open>
  The functions of Go's standard library the driver computes with: packages \<open>strings\<close>,
  \<open>strconv\<close> and \<open>path/filepath\<close>, on byte strings, with the round-trip and inversion lemmas the
  components use.

  \<open>strings.Split\<close> is modelled for a non-empty separator, the only use in the driver.
  \<open>strings.TrimSpace\<close> removes the ASCII white space; the Unicode spaces it removes as well do not
  occur in the command output it is applied to.
\<close>

section \<open>Package strings\<close>

fun strings_Split :: "string \<Rightarrow> string \<Rightarrow> string list" where
  "strings_Split [] sep = [[]]"
| "strings_Split (c # cs) sep =
     (if prefix sep (c # cs) then [] # strings_Split (drop (length sep - 1) cs) sep
      else (case strings_Split cs sep of [] \<Rightarrow> [[c]] | p # ps \<Rightarrow> (c # p) # ps))"

fun strings_Join :: "string list \<Rightarrow> string \<Rightarrow> string" where
  "strings_Join [] sep = []"
| "strings_Join [x] sep = x"
| "strings_Join (x # y # ys) sep = x @ sep @ strings_Join (y # ys) sep"

fun strings_Contains :: "string \<Rightarrow> string \<Rightarrow> bool" where
  "strings_Contains [] sub = (sub = [])"
| "strings_Contains (c # cs) sub = (prefix sub (c # cs) \<or> strings_Contains cs sub)"

definition strings_HasPrefix :: "string \<Rightarrow> string \<Rightarrow> bool" where
  "strings_HasPrefix s p = prefix p s"

definition strings_TrimPrefix :: "string \<Rightarrow> string \<Rightarrow> string" where
  "strings_TrimPrefix s p = (if prefix p s then drop (length p) s else s)"

definition strings_TrimSuffix :: "string \<Rightarrow> string \<Rightarrow> string" where
  "strings_TrimSuffix s p =
     (if prefix (rev p) (rev s) then take (length s - length p) s else s)"

definition is_space :: "char \<Rightarrow> bool" where
  "is_space c \<longleftrightarrow> c \<in> {CHR 0x09, CHR 0x0A, CHR 0x0B, CHR 0x0C, CHR 0x0D, CHR '' ''}"

definition strings_TrimSpace :: "string \<Rightarrow> string" where
  "strings_TrimSpace s = rev (dropWhile is_space (rev (dropWhile is_space s)))"

text \<open>\<open>strings.Replace(s, old, new, -1)\<close>\<close>

definition strings_Replace :: "string \<Rightarrow> string \<Rightarrow> string \<Rightarrow> string" where
  "strings_Replace s old new = strings_Join (strings_Split s old) new"

lemma strings_Split_ne [simp]: "strings_Split s sep \<noteq> []"
  by (cases s) (auto split: list.splits)

lemma strings_Split_Cons_sep [simp]:
  "strings_Split (d # cs) [d] = [] # strings_Split cs [d]"
  by simp

lemma strings_Split_Cons_other:
  "c \<noteq> d \<Longrightarrow> strings_Split (c # cs) [d] =
    (c # hd (strings_Split cs [d])) # tl (strings_Split cs [d])"
  by (auto split: list.splits)

lemma strings_Split_single: "d \<notin> set s \<Longrightarrow> strings_Split s [d] = [s]"
  by (induction s) auto

lemma strings_Split_append: "d \<notin> set a \<Longrightarrow>
    strings_Split (a @ d # b) [d] = a # strings_Split b [d]"
  by (induction a) auto

lemma strings_Split_pieces: "p \<in> set (strings_Split s [d]) \<Longrightarrow> d \<notin> set p"
proof (induction s arbitrary: p)
  case Nil
  then show ?case by simp
next
  case (Cons c cs)
  show ?case
  proof (cases "c = d")
    case True
    with Cons show ?thesis by auto
  next
    case False
    obtain q qs where q: "strings_Split cs [d] = q # qs"
      by (cases "strings_Split cs [d]") auto
    with Cons.IH have "d \<notin> set q" and "\<And>r. r \<in> set qs \<Longrightarrow> d \<notin> set r" by auto
    with Cons.prems False q show ?thesis by auto
  qed
qed

lemma strings_Join_Cons: "xs \<noteq> [] \<Longrightarrow> strings_Join (x # xs) sep = x @ sep @ strings_Join xs sep"
  by (cases xs) simp_all

lemma strings_Join_Split: "strings_Join (strings_Split s [d]) [d] = s"
proof (induction s)
  case Nil
  then show ?case by simp
next
  case (Cons c cs)
  obtain q qs where q: "strings_Split cs [d] = q # qs"
    by (cases "strings_Split cs [d]") auto
  show ?case
  proof (cases "c = d")
    case True
    with Cons show ?thesis by (simp add: strings_Join_Cons)
  next
    case False
    with Cons q show ?thesis by (cases qs) auto
  qed
qed

lemma strings_Split_Join:
  "xs \<noteq> [] \<Longrightarrow> (\<And>x. x \<in> set xs \<Longrightarrow> d \<notin> set x) \<Longrightarrow> strings_Split (strings_Join xs [d]) [d] = xs"
proof (induction xs)
  case Nil
  then show ?case by simp
next
  case (Cons x xs)
  then show ?case
    by (cases xs) (simp_all add: strings_Split_single strings_Split_append)
qed

lemma strings_Split_count: "length (strings_Split s [d]) = Suc (count_list s d)"
proof (induction s)
  case Nil
  then show ?case by simp
next
  case (Cons c cs)
  obtain q qs where "strings_Split cs [d] = q # qs" by (cases "strings_Split cs [d]") auto
  with Cons show ?case by auto
qed

text \<open>A string splits in two at its only separator.\<close>

lemma strings_Split_two: "strings_Split s [d] = [a, b] \<longleftrightarrow> s = a @ d # b \<and> d \<notin> set a \<and> d \<notin> set b"
proof
  assume sp: "strings_Split s [d] = [a, b]"
  have "s = strings_Join [a, b] [d]" using strings_Join_Split [of s d] sp by simp
  moreover have "d \<notin> set a" and "d \<notin> set b"
    using strings_Split_pieces [of _ s d] sp by auto
  ultimately show "s = a @ d # b \<and> d \<notin> set a \<and> d \<notin> set b" by simp
next
  assume "s = a @ d # b \<and> d \<notin> set a \<and> d \<notin> set b"
  then show "strings_Split s [d] = [a, b]"
    by (simp add: strings_Split_append strings_Split_single)
qed

lemma strings_Split_three: "strings_Split s [d] = [a, b, c] \<longleftrightarrow>
    s = a @ d # b @ d # c \<and> d \<notin> set a \<and> d \<notin> set b \<and> d \<notin> set c"
proof
  assume sp: "strings_Split s [d] = [a, b, c]"
  have "s = strings_Join [a, b, c] [d]" using strings_Join_Split [of s d] sp by simp
  moreover have "d \<notin> set a" and "d \<notin> set b" and "d \<notin> set c"
    using strings_Split_pieces [of _ s d] sp by auto
  ultimately show "s = a @ d # b @ d # c \<and> d \<notin> set a \<and> d \<notin> set b \<and> d \<notin> set c" by simp
next
  assume "s = a @ d # b @ d # c \<and> d \<notin> set a \<and> d \<notin> set b \<and> d \<notin> set c"
  then show "strings_Split s [d] = [a, b, c]"
    by (simp add: strings_Split_append strings_Split_single)
qed

lemma strings_Contains_iff: "strings_Contains s sub \<longleftrightarrow> (\<exists>a b. s = a @ sub @ b)"
proof (induction s)
  case Nil
  then show ?case by auto
next
  case (Cons c cs)
  show ?case
  proof
    assume "strings_Contains (c # cs) sub"
    then consider "prefix sub (c # cs)" | "strings_Contains cs sub" by auto
    then show "\<exists>a b. c # cs = a @ sub @ b"
    proof cases
      case 1
      then obtain b where "c # cs = [] @ sub @ b" by (auto elim: prefixE)
      then show ?thesis by blast
    next
      case 2
      with Cons.IH obtain a b where "cs = a @ sub @ b" by blast
      then have "c # cs = (c # a) @ sub @ b" by simp
      then show ?thesis by blast
    qed
  next
    assume "\<exists>a b. c # cs = a @ sub @ b"
    then obtain a b where ab: "c # cs = a @ sub @ b" by blast
    show "strings_Contains (c # cs) sub"
    proof (cases a)
      case Nil
      with ab have "prefix sub (c # cs)" by (simp add: prefix_def)
      then show ?thesis by simp
    next
      case (Cons x a')
      with ab have "cs = a' @ sub @ b" by simp
      with Cons.IH show ?thesis by auto
    qed
  qed
qed

lemma strings_Contains_append1: "strings_Contains a sub \<Longrightarrow> strings_Contains (a @ b) sub"
  unfolding strings_Contains_iff by (metis append.assoc)

section \<open>Package strconv\<close>

definition digit_char :: "nat \<Rightarrow> char" where
  "digit_char d = (if d < 10 then char_of (48 + d) else char_of (87 + d))"

text \<open>The digits of a number in base \<open>b\<close> (lower case, no leading zero).\<close>

fun digits :: "nat \<Rightarrow> nat \<Rightarrow> string" where
  "digits b n = (if n < b \<or> b < 2 then [digit_char n] else digits b (n div b) @ [digit_char (n mod b)])"

declare digits.simps [simp del]

definition strconv_Itoa :: "int \<Rightarrow> string" where
  "strconv_Itoa i = (if i < 0 then CHR ''-'' # digits 10 (nat (- i)) else digits 10 (nat i))"

text \<open>The verbs \<open>%0wd\<close> and \<open>%0wx\<close> of \<open>fmt\<close>, on numbers that are not negative.\<close>

definition pad_zero :: "nat \<Rightarrow> string \<Rightarrow> string" where
  "pad_zero w s = replicate (w - length s) (CHR ''0'') @ s"

text \<open>The value of a character as a digit in base \<open>b\<close>, as \<open>strconv.ParseInt\<close> reads it.\<close>

definition digit_val :: "nat \<Rightarrow> char \<Rightarrow> nat option" where
  "digit_val b c =
     (let n = of_char c :: nat;
          d = (if 48 \<le> n \<and> n \<le> 57 then n - 48
               else if 97 \<le> n \<and> n \<le> 122 then n - 87
               else if 65 \<le> n \<and> n \<le> 90 then n - 55 else 99)
      in if d < b then Some d else None)"

text \<open>The value of a text of digits, without a limit; it is what \<open>parse_uint\<close> below is compared with.\<close>

fun parse_digits :: "nat \<Rightarrow> nat \<Rightarrow> string \<Rightarrow> nat option" where
  "parse_digits b acc [] = Some acc"
| "parse_digits b acc (c # cs) =
     (case digit_val b c of None \<Rightarrow> None | Some d \<Rightarrow> parse_digits b (b * acc + d) cs)"

text \<open>
  The loop of \<open>strconv.ParseUint\<close> over the characters, with the greatest value \<open>maxVal\<close> allowed. It ends at the
  first character that is not a digit of the base, with a syntax error (\<open>Inl True\<close>), or at the first digit that
  takes the value over \<open>maxVal\<close>, with a range error (\<open>Inl False\<close>), whichever comes first.
\<close>

fun parse_uint :: "nat \<Rightarrow> nat \<Rightarrow> nat \<Rightarrow> string \<Rightarrow> bool + nat" where
  "parse_uint b maxVal n [] = Inr n"
| "parse_uint b maxVal n (c # cs) =
     (case digit_val b c of
        None \<Rightarrow> Inl True
      | Some d \<Rightarrow> if b * n + d > maxVal then Inl False else parse_uint b maxVal (b * n + d) cs)"

text \<open>
  \<open>strconv.ParseInt(s, base, bits)\<close> for a base of 8 or 10 and \<open>bits > 1\<close>: an optional sign, then
  at least one digit, and a value within the signed range of \<open>bits\<close> bits. \<open>fn\<close> is the function
  named in the error, and the flag of \<open>NumErr\<close> tells a syntax error from a range error.
\<close>

definition parse_int :: "string \<Rightarrow> string \<Rightarrow> nat \<Rightarrow> nat \<Rightarrow> error + int" where
  "parse_int fn s base bits =
     (let neg = (case s of c # _ \<Rightarrow> c = CHR ''-'' | [] \<Rightarrow> False);
          body = (case s of c # cs \<Rightarrow> if c = CHR ''-'' \<or> c = CHR ''+'' then cs else s | [] \<Rightarrow> [])
      in if body = [] then Inl (NumErr fn s True)
         else case parse_uint base (2 ^ bits - 1) 0 body of
                Inl syn \<Rightarrow> Inl (NumErr fn s syn)
              | Inr n \<Rightarrow>
                  if neg then (if int n \<le> 2 ^ (bits - 1) then Inr (- int n) else Inl (NumErr fn s False))
                  else (if int n < 2 ^ (bits - 1) then Inr (int n) else Inl (NumErr fn s False)))"

definition strconv_ParseInt :: "string \<Rightarrow> nat \<Rightarrow> nat \<Rightarrow> error + int" where
  "strconv_ParseInt s base bits = parse_int ''ParseInt'' s base bits"

text \<open>\<open>int\<close> is 64 bits wide on the platforms the driver is built for.\<close>

definition strconv_Atoi :: "string \<Rightarrow> error + int" where
  "strconv_Atoi s = parse_int ''Atoi'' s 10 64"

definition strconv_ParseBool :: "string \<Rightarrow> error + bool" where
  "strconv_ParseBool s =
     (if s \<in> set [''1'', ''t'', ''T'', ''TRUE'', ''true'', ''True''] then Inr True
      else if s \<in> set [''0'', ''f'', ''F'', ''FALSE'', ''false'', ''False''] then Inr False
      else Inl (NumErr ''ParseBool'' s True))"

lemma digit_val_digit_char: "d < b \<Longrightarrow> b \<le> 36 \<Longrightarrow> digit_val b (digit_char d) = Some d"
  by (simp add: digit_val_def digit_char_def Let_def of_char_of)

lemma parse_digits_append: "parse_digits b acc (s @ t) =
    (case parse_digits b acc s of None \<Rightarrow> None | Some n \<Rightarrow> parse_digits b n t)"
  by (induction b acc s rule: parse_digits.induct) (simp_all split: option.splits)

lemma digits_ne [simp]: "digits b n \<noteq> []"
  by (subst digits.simps) simp

text \<open>Reading back what was printed gives the number.\<close>

lemma parse_digits_digits: "2 \<le> b \<Longrightarrow> b \<le> 36 \<Longrightarrow> parse_digits b 0 (digits b n) = Some n"
proof (induction b n rule: digits.induct)
  case (1 b n)
  show ?case
  proof (cases "n < b")
    case True
    with 1 show ?thesis by (subst digits.simps) (simp add: digit_val_digit_char)
  next
    case False
    with 1 have IH: "parse_digits b 0 (digits b (n div b)) = Some (n div b)" by simp
    have "n mod b < b" using 1 by simp
    with 1 False IH show ?thesis
      by (subst digits.simps) (simp add: parse_digits_append digit_val_digit_char)
  qed
qed

text \<open>A text of digits only is read as its value, unless that is out of range.\<close>

lemma parse_digits_ge: "1 \<le> b \<Longrightarrow> parse_digits b acc s = Some n \<Longrightarrow> acc \<le> n"
proof (induction b acc s rule: parse_digits.induct)
  case (2 b acc c cs)
  then obtain d where d: "digit_val b c = Some d" "b * acc + d \<le> n" by (auto split: option.splits)
  have "acc \<le> b * acc" using 2 by simp
  with d show ?case by linarith
qed simp

lemma parse_uint_digits:
  "1 \<le> b \<Longrightarrow> acc \<le> m \<Longrightarrow> parse_digits b acc s = Some n \<Longrightarrow>
    parse_uint b m acc s = (if n \<le> m then Inr n else Inl False)"
  by (induction b acc s rule: parse_digits.induct)
    (auto split: option.splits dest!: parse_digits_ge [rotated])

lemma digits_inj: "2 \<le> b \<Longrightarrow> b \<le> 36 \<Longrightarrow> digits b m = digits b n \<longleftrightarrow> m = n"
  by (metis option.inject parse_digits_digits)

lemma digits_set: "2 \<le> b \<Longrightarrow> set (digits b n) \<subseteq> digit_char ` {..<b}"
proof (induction b n rule: digits.induct)
  case (1 b n)
  show ?case
  proof (cases "n < b")
    case True
    then show ?thesis by (subst digits.simps) auto
  next
    case False
    with 1 have "set (digits b (n div b)) \<subseteq> digit_char ` {..<b}" by simp
    moreover have "n mod b < b" using 1 by simp
    ultimately show ?thesis using 1 False by (subst digits.simps) auto
  qed
qed

lemma digit_char_no_sign: "d < 10 \<Longrightarrow> digit_char d \<noteq> CHR ''-'' \<and> digit_char d \<noteq> CHR ''+''"
proof -
  assume d: "d < 10"
  have "of_char (digit_char d) = (48 + d :: nat)" using d by (simp add: digit_char_def of_char_of)
  moreover have "of_char CHR ''-'' = (45::nat)" and "of_char CHR ''+'' = (43::nat)" by simp_all
  ultimately show ?thesis by auto
qed

lemma strconv_Atoi_Itoa:
  assumes "- (2 ^ 63) \<le> i" and "i < 2 ^ 63"
  shows "strconv_Atoi (strconv_Itoa i) = Inr i"
proof (cases "i < 0")
  case True
  with assms show ?thesis
    by (simp add: strconv_Atoi_def strconv_Itoa_def parse_int_def
        parse_uint_digits [OF _ _ parse_digits_digits])
next
  case False
  obtain c cs where d: "digits 10 (nat i) = c # cs" by (cases "digits 10 (nat i)") auto
  then have "c \<in> digit_char ` {..<10}" using digits_set [of 10 "nat i"] by auto
  then have "c \<noteq> CHR ''-''" and "c \<noteq> CHR ''+''" using digit_char_no_sign by auto
  moreover have "nat i \<le> 2 ^ 64 - 1" using assms by simp
  ultimately show ?thesis
    using assms False d parse_uint_digits [OF _ _ parse_digits_digits, of 10 "2 ^ 64 - 1" "nat i"]
    by (simp add: strconv_Atoi_def strconv_Itoa_def parse_int_def)
qed

lemma parse_int_range:
  "parse_int fn s base bits = Inr i \<Longrightarrow> - (2 ^ (bits - 1)) \<le> i \<and> i < 2 ^ (bits - 1)"
  by (auto simp: parse_int_def Let_def split: if_splits sum.splits)
    (smt (verit) of_nat_0_le_iff zero_less_power)+

section \<open>Package path/filepath\<close>

text \<open>
  \<open>filepath.Clean\<close>: the elements between the slashes, without the empty ones and \<open>"."\<close>, and with
  each \<open>".."\<close> taken away together with the element before it (\<open>out\<close> holds the elements kept so
  far, the last one first).
\<close>

fun clean_elems :: "bool \<Rightarrow> string list \<Rightarrow> string list \<Rightarrow> string list" where
  "clean_elems rooted out [] = rev out"
| "clean_elems rooted out (e # es) =
     (if e = [] \<or> e = ''.'' then clean_elems rooted out es
      else if e = ''..'' then
        (case out of
           o1 # out' \<Rightarrow> if o1 = ''..'' then clean_elems rooted (''..'' # out) es
                        else clean_elems rooted out' es
         | [] \<Rightarrow> if rooted then clean_elems rooted [] es else clean_elems rooted [''..''] es)
      else clean_elems rooted (e # out) es)"

definition filepath_Clean :: "string \<Rightarrow> string" where
  "filepath_Clean p =
     (if p = [] then ''.''
      else let rooted = (hd p = CHR ''/'');
               es = clean_elems rooted [] (strings_Split p ''/'')
           in if rooted then CHR ''/'' # strings_Join es ''/''
              else if es = [] then ''.'' else strings_Join es ''/'')"

definition filepath_Join :: "string list \<Rightarrow> string" where
  "filepath_Join es =
     (let rest = dropWhile (\<lambda>e. e = []) es
      in if rest = [] then [] else filepath_Clean (strings_Join rest ''/''))"

text \<open>\<open>filepath.Dir\<close>: everything up to the last slash, cleaned.\<close>

definition filepath_Dir :: "string \<Rightarrow> string" where
  "filepath_Dir p = filepath_Clean (rev (dropWhile (\<lambda>c. c \<noteq> CHR ''/'') (rev p)))"

text \<open>\<open>filepath.Ext\<close>: from the last dot of the last element on, or nothing.\<close>

fun ext_rev :: "string \<Rightarrow> string \<Rightarrow> string" where
  "ext_rev acc [] = []"
| "ext_rev acc (c # cs) =
     (if c = CHR ''.'' then CHR ''.'' # acc
      else if c = CHR ''/'' then [] else ext_rev (c # acc) cs)"

definition filepath_Ext :: "string \<Rightarrow> string" where
  "filepath_Ext p = ext_rev [] (rev p)"

text \<open>A path element that \<open>Clean\<close> keeps as it is.\<close>

definition plain_elem :: "string \<Rightarrow> bool" where
  "plain_elem e \<longleftrightarrow> e \<noteq> [] \<and> e \<noteq> ''.'' \<and> e \<noteq> ''..'' \<and> CHR ''/'' \<notin> set e"

lemma clean_elems_plain:
  "(\<And>e. e \<in> set es \<Longrightarrow> plain_elem e) \<Longrightarrow> clean_elems r out es = rev out @ es"
  by (induction es arbitrary: out) (simp_all add: plain_elem_def)

lemma filepath_Clean_plain:
  assumes "es \<noteq> []" and "\<And>e. e \<in> set es \<Longrightarrow> plain_elem e"
  shows "filepath_Clean (strings_Join es ''/'') = strings_Join es ''/''"
proof -
  obtain e es' where es: "es = e # es'" using assms(1) by (cases es) auto
  with assms have e: "plain_elem e" by simp
  then obtain c cs where c: "e = c # cs" "c \<noteq> CHR ''/''"
    by (cases e) (auto simp: plain_elem_def)
  have "strings_Join es ''/'' = c # (cs @ (if es' = [] then [] else CHR ''/'' # strings_Join es' ''/''))"
    by (cases es') (simp_all add: es c)
  moreover have "strings_Split (strings_Join es ''/'') ''/'' = es"
    using assms by (intro strings_Split_Join) (auto simp: plain_elem_def)
  ultimately show ?thesis
    using assms clean_elems_plain [of es False "[]"] c(2) by (simp add: filepath_Clean_def)
qed

text \<open>The path of a volume: a group \<open>pool/group\<close> joined with a name.\<close>

lemma filepath_Join_volume:
  assumes "plain_elem a" and "plain_elem b" and "plain_elem n"
  shows "filepath_Join [a @ ''/'' @ b, n] = a @ ''/'' @ b @ ''/'' @ n"
proof -
  have "a @ ''/'' @ b \<noteq> []" by simp
  moreover have "filepath_Clean (strings_Join [a, b, n] ''/'') = strings_Join [a, b, n] ''/''"
    using assms by (intro filepath_Clean_plain) auto
  ultimately show ?thesis by (simp add: filepath_Join_def)
qed

lemma filepath_Dir_volume:
  assumes "plain_elem a" and "plain_elem b" and "plain_elem n"
  shows "filepath_Dir (a @ ''/'' @ b @ ''/'' @ n) = a @ ''/'' @ b"
proof -
  have n: "CHR ''/'' \<notin> set n" using assms by (simp add: plain_elem_def)
  have drop: "rev (dropWhile (\<lambda>c. c \<noteq> CHR ''/'') (rev (a @ ''/'' @ b @ ''/'' @ n))) = a @ ''/'' @ b @ ''/''"
  proof -
    have "dropWhile (\<lambda>c. c \<noteq> CHR ''/'') (rev n @ CHR ''/'' # rev (a @ ''/'' @ b)) =
        CHR ''/'' # rev (a @ ''/'' @ b)"
      using n by (subst dropWhile_append2) auto
    then show ?thesis by simp
  qed
  obtain c cs where c: "a = c # cs" "c \<noteq> CHR ''/''"
    using assms(1) by (cases a) (auto simp: plain_elem_def)
  have split: "strings_Split (a @ ''/'' @ b @ ''/'') ''/'' = [a, b, []]"
    using assms by (simp add: strings_Split_three plain_elem_def)
  have "clean_elems False [] [a, b, []] = [a, b]"
    using assms by (simp add: plain_elem_def)
  then have "filepath_Clean (a @ ''/'' @ b @ ''/'') = a @ ''/'' @ b"
    using split c by (simp add: filepath_Clean_def)
  with drop show ?thesis by (simp add: filepath_Dir_def)
qed

end
