(* ===== verification/DriverState.thy ===== *)
theory DriverState
  imports GoStrings
begin

text \<open>
  The state of the driver process and its boundary.

  The boundary is the record \<open>lib\<close>: one field per operation of the packages outside the
  repository (\<open>go-nexentastor\<close>, \<open>yaml\<close>, \<open>grpc/status\<close>, \<open>mount-utils\<close>, \<open>uuid\<close>, \<open>backoff\<close>) and of the
  operating system, as a function on an unknown state \<open>'w\<close> of the outside world. Every definition
  that calls outside takes \<open>L :: 'w lib\<close>; what a property needs of these operations is a named
  hypothesis about \<open>L\<close>.

  The state record \<open>st\<close> holds the configuration object (one object, shared by all servers of the
  process), the resolver maps of the controller and of the node server, the outside world, and
  the history \<open>trace\<close> of the calls made to it. The history is never read by the code.
\<close>

section \<open>Data of the configuration package\<close>

text \<open>\<open>pkg/config/config.go\<close>: \<open>NsData\<close> and \<open>Config\<close>; a \<open>*bool\<close> is a \<open>bool option\<close>.\<close>

record NsData =
  Address :: string
  Username :: string
  Password :: string
  Zone :: string
  DefaultVolumeGroup :: string
  DefaultTargetGroup :: string
  DefaultTarget :: string
  DefaultHostGroup :: string
  DefaultISCSIPort :: string
  DefaultDataIP :: string
  ISCSITargetPrefix :: string
  ISCSITimeout :: string
  DynamicTargetLunAllocation :: "bool option"
  NumOfLunsPerTarget :: string
  UseChapAuth :: string
  ChapUser :: string
  ChapSecret :: string
  MountPointPermissions :: string
  InsecureSkipVerify :: "bool option"

definition zeroNsData :: NsData where
  "zeroNsData = \<lparr>Address = [], Username = [], Password = [], Zone = [], DefaultVolumeGroup = [],
     DefaultTargetGroup = [], DefaultTarget = [], DefaultHostGroup = [], DefaultISCSIPort = [],
     DefaultDataIP = [], ISCSITargetPrefix = [], ISCSITimeout = [],
     DynamicTargetLunAllocation = None, NumOfLunsPerTarget = [], UseChapAuth = [], ChapUser = [],
     ChapSecret = [], MountPointPermissions = [], InsecureSkipVerify = None\<rparr>"

record Config =
  NsMap :: "NsData gomap"
  Debug :: bool
  filePath :: string
  lastModTime :: int
  temporary :: bool

text \<open>\<open>c.NsMap[name]\<close>: the zero struct where the name is missing.\<close>

definition ns_data :: "Config \<Rightarrow> string \<Rightarrow> NsData" where
  "ns_data c name = (case map_of (NsMap c) name of None \<Rightarrow> zeroNsData | Some d \<Rightarrow> d)"

section \<open>Data of package ns\<close>

text \<open>
  The fields the driver reads. A provider (an interface value) and a resolver are handles; a
  \<open>nil\<close> one is \<open>None\<close>. An \<open>int64\<close> that is only compared is an \<open>int\<close>.
\<close>

type_synonym provider = nat
type_synonym resolver = nat
type_synonym file_mode = "32 word"
type_synonym duration = "64 word"

record ResolverArgs =
  ra_Address :: string
  ra_Username :: string
  ra_Password :: string
  ra_InsecureSkipVerify :: bool

record ns_Volume =
  vol_Path :: string
  vol_VolumeSize :: int

record ns_Snapshot =
  snap_Path :: string
  snap_Name :: string
  snap_Parent :: string
  snap_CreationTime :: int

record ns_LunMapping =
  lun_Id :: string
  lun_Lun :: int

record ns_TargetGroup =
  tg_Name :: string
  tg_Members :: "string list"

record ns_HostGroup =
  hg_Name :: string
  hg_Members :: "string list"

record GetLunMappingsParams =
  lm_TargetGroup :: string
  lm_Volume :: string
  lm_HostGroup :: string

record License =
  lic_Valid :: bool
  lic_Expires :: string

text \<open>The access modes of the CSI protocol; a protobuf enum may hold other numbers.\<close>

datatype access_mode = UNKNOWN | SINGLE_NODE_WRITER | SINGLE_NODE_READER_ONLY
  | MULTI_NODE_READER_ONLY | MULTI_NODE_SINGLE_WRITER | MULTI_NODE_MULTI_WRITER
  | SINGLE_NODE_SINGLE_WRITER | SINGLE_NODE_MULTI_WRITER | OtherMode int

section \<open>Calls to the outside\<close>

text \<open>Requests to NexentaStor that change it; all of them answer with an error only.\<close>

datatype ns_cmd =
    CreateVolumeCmd string int bool           \<comment> \<open>path, size, sparse\<close>
  | UpdateVolumeCmd string int                \<comment> \<open>path, size\<close>
  | DestroyVolumeCmd string bool bool         \<comment> \<open>path, DestroySnapshots, PromoteMostRecentCloneIfExists\<close>
  | CreateSnapshotCmd string
  | DestroySnapshotCmd string
  | CloneSnapshotCmd string string            \<comment> \<open>snapshot, TargetPath\<close>
  | CreateLunMappingCmd string string string  \<comment> \<open>volume, target group, host group\<close>
  | DestroyLunMappingCmd string
  | CreateUpdateTargetGroupCmd string "string list"
  | CreateISCSITargetCmd string "(string \<times> int) list"  \<comment> \<open>name, portals\<close>
  | UpdateISCSITargetCmd string string        \<comment> \<open>name, Authentication\<close>
  | CreateRemoteInitiatorCmd string string string
  | UpdateRemoteInitiatorCmd string string string
  | CreateHostGroupCmd string "string list"

text \<open>Requests to NexentaStor that only read.\<close>

datatype ns_query =
    QVolume string
  | QVolumeGroup string
  | QVolumes string string int                \<comment> \<open>group, starting token, limit\<close>
  | QSnapshot string
  | QSnapshots string bool
  | QLunMappings GetLunMappingsParams
  | QTargetGroups
  | QISCSITarget string
  | QRemoteInitiator string
  | QHostGroups
  | QAvailable string
  | QLicense

text \<open>System calls that change the node and answer with an error only.\<close>

datatype os_cmd =
    MkdirAll string file_mode
  | Chmod string file_mode
  | RemoveAll string
  | Remove string
  | MountFs string string string "string list"  \<comment> \<open>source, target, type, options\<close>
  | Unmount string
  | ResizeFs string string                      \<comment> \<open>device, path\<close>
  | OpenFile string                             \<comment> \<open>append, write only\<close>
  | WriteFile string string
  | Listen string string

datatype call =
    NsCmd provider ns_cmd
  | NsQuery provider ns_query
  | NewResolverCall ResolverArgs
  | ResolveCall "resolver option" string
  | IsClusterCall resolver
  | OsCmd os_cmd
  | Exec "string list"
  | StatCall string
  | ReadFileCall string
  | EvalSymlinksCall string
  | MountPointCall string
  | WriteStringCall string string
  | UuidCall
  | SleepCall duration
  | BackoffCall
  | WalkCall string
  | ServeCall "string list"                     \<comment> \<open>the gRPC server, with the services registered\<close>

text \<open>A directory tree, as \<open>filepath.Walk\<close> sees it (names in lexical order).\<close>

datatype fsnode = FsFile | FsDir "(string \<times> fsnode) list" | FsNoStat  \<comment> \<open>\<open>lstat\<close> failed\<close>

record 'w lib =
  \<comment> \<open>the Go runtime: the order of the next \<open>range\<close> over a map\<close>
  mapSeed :: "'w \<Rightarrow> nat \<times> 'w"
  \<comment> \<open>\<open>yaml.Unmarshal\<close> into the exported fields of \<open>Config\<close>; an error may come with a partial result\<close>
  yamlUnmarshal :: "string \<Rightarrow> NsData gomap \<times> bool \<Rightarrow> error option \<times> NsData gomap \<times> bool"
  \<comment> \<open>errors\<close>
  IsNotExistNefError :: "error \<Rightarrow> bool"
  IsAlreadyExistNefError :: "error \<Rightarrow> bool"
  IsBusyNefError :: "error \<Rightarrow> bool"
  IsBadArgNefError :: "error \<Rightarrow> bool"
  statusText :: "code \<Rightarrow> string \<Rightarrow> string"
  statusCode :: "error \<Rightarrow> code"
  \<comment> \<open>text: \<open>strconv.Quote\<close>, a format string without operands, the name of an access mode\<close>
  quote :: "string \<Rightarrow> string"
  sprintf0 :: "string \<Rightarrow> string"
  modeString :: "access_mode \<Rightarrow> string"
  \<comment> \<open>resolvers; the outer \<open>None\<close> of a method call is a panic (a nil receiver)\<close>
  NewResolver :: "ResolverArgs \<Rightarrow> 'w \<Rightarrow> (resolver option \<times> error option) \<times> 'w"
  zeroResolver :: resolver
  ResolveFromVg :: "resolver option \<Rightarrow> string \<Rightarrow> 'w \<Rightarrow> (provider option \<times> error option) option \<times> 'w"
  Nodes :: "resolver \<Rightarrow> provider list"
  IsCluster :: "resolver \<Rightarrow> 'w \<Rightarrow> (error + bool) \<times> 'w"
  \<comment> \<open>\<open>ns.ProviderInterface\<close>\<close>
  nsCommand :: "provider \<Rightarrow> ns_cmd \<Rightarrow> 'w \<Rightarrow> error option \<times> 'w"
  GetVolume :: "provider \<Rightarrow> string \<Rightarrow> 'w \<Rightarrow> (error + ns_Volume) \<times> 'w"
  GetVolumeGroup :: "provider \<Rightarrow> string \<Rightarrow> 'w \<Rightarrow> (error + int) \<times> 'w"
  GetVolumesWithStartingToken ::
    "provider \<Rightarrow> string \<Rightarrow> string \<Rightarrow> int \<Rightarrow> 'w \<Rightarrow> (ns_Volume list \<times> string \<times> error option) \<times> 'w"
  GetSnapshot :: "provider \<Rightarrow> string \<Rightarrow> 'w \<Rightarrow> (error + ns_Snapshot) \<times> 'w"
  GetSnapshots :: "provider \<Rightarrow> string \<Rightarrow> bool \<Rightarrow> 'w \<Rightarrow> (error + ns_Snapshot list) \<times> 'w"
  GetLunMappings :: "provider \<Rightarrow> GetLunMappingsParams \<Rightarrow> 'w \<Rightarrow> (error + ns_LunMapping list) \<times> 'w"
  GetTargetGroups :: "provider \<Rightarrow> 'w \<Rightarrow> (error + ns_TargetGroup list) \<times> 'w"
  GetISCSITarget :: "provider \<Rightarrow> string \<Rightarrow> 'w \<Rightarrow> (error + string) \<times> 'w"
  GetRemoteInitiator :: "provider \<Rightarrow> string \<Rightarrow> 'w \<Rightarrow> error option \<times> 'w"
  GetHostGroups :: "provider \<Rightarrow> 'w \<Rightarrow> (error + ns_HostGroup list) \<times> 'w"
  GetFilesystemAvailableCapacity :: "provider \<Rightarrow> string \<Rightarrow> 'w \<Rightarrow> (error + int) \<times> 'w"
  GetLicense :: "provider \<Rightarrow> 'w \<Rightarrow> (error + License) \<times> 'w"
  \<comment> \<open>the operating system and the node\<close>
  osCommand :: "os_cmd \<Rightarrow> 'w \<Rightarrow> error option \<times> 'w"
  osExec :: "string list \<Rightarrow> 'w \<Rightarrow> (string \<times> error option) \<times> 'w"
  osStat :: "string \<Rightarrow> 'w \<Rightarrow> (error + int) \<times> 'w"
  unixMode :: "string \<Rightarrow> 'w \<Rightarrow> (error + 32 word) \<times> 'w"
  osReadFile :: "string \<Rightarrow> 'w \<Rightarrow> (error + string) \<times> 'w"
  osEvalSymlinks :: "string \<Rightarrow> 'w \<Rightarrow> (error + string) \<times> 'w"
  IsLikelyNotMountPoint :: "string \<Rightarrow> 'w \<Rightarrow> (bool \<times> error option) \<times> 'w"
  fileWriteString :: "string \<Rightarrow> string \<Rightarrow> 'w \<Rightarrow> (nat \<times> error option) \<times> 'w"
  fsTree :: "string \<Rightarrow> 'w \<Rightarrow> (error + fsnode) \<times> 'w"
  uuidNew :: "'w \<Rightarrow> string \<times> 'w"
  sleepFor :: "duration \<Rightarrow> 'w \<Rightarrow> unit \<times> 'w"
  \<comment> \<open>how often the backoff policy lets \<open>RetryNotify\<close> repeat a failing operation\<close>
  backoffRetries :: "'w \<Rightarrow> nat \<times> 'w"
  \<comment> \<open>\<open>url.Parse\<close>: scheme, host and path; the gRPC server, which returns when it stops serving\<close>
  urlParse :: "string \<Rightarrow> error + string \<times> string \<times> string"
  grpcServe :: "string list \<Rightarrow> 'w \<Rightarrow> error option \<times> 'w"

section \<open>The state of the process\<close>

record 'w st =
  conf :: Config
  ctrlResolvers :: "resolver gomap"
  nodeResolvers :: "resolver option gomap"
  world :: 'w
  trace :: "call list"

text \<open>The text of an error, \<open>err.Error()\<close>.\<close>

fun errText :: "'w lib \<Rightarrow> error \<Rightarrow> string" where
  "errText L (StatusErr c m) = statusText L c m"
| "errText L (PlainErr m) = m"
| "errText L (OsErr n m) = m"
| "errText L (NumErr f s syn) = ''strconv.'' @ f @ '': parsing '' @ quote L s @ '': '' @
     (if syn then ''invalid syntax'' else ''value out of range'')"
| "errText L (LibErr k m) = m"

text \<open>One call to the outside, recorded in the history.\<close>

definition ext_call :: "call \<Rightarrow> ('w \<Rightarrow> 'a \<times> 'w) \<Rightarrow> ('w st, 'a) M" where
  "ext_call c f = (\<lambda>s. let (a, w) = f (world s)
     in (Ret a, s\<lparr>world := w, trace := trace s @ [c]\<rparr>))"

text \<open>\<open>for k, v := range m\<close>: the entries in the order the runtime picks.\<close>

definition goRange :: "'w lib \<Rightarrow> 'v gomap \<Rightarrow> ('w st, (string \<times> 'v) list) M" where
  "goRange L m = (\<lambda>s. let (n, w) = mapSeed L (world s) in (Ret (entries n m), s\<lparr>world := w\<rparr>))"

text \<open>Methods of a provider; on a \<open>nil\<close> interface value they panic.\<close>

definition ns_do :: "'w lib \<Rightarrow> provider option \<Rightarrow> ns_cmd \<Rightarrow> ('w st, unit) M" where
  "ns_do L p c = deref p (\<lambda>p. bind (ext_call (NsCmd p c) (nsCommand L p c)) lift_err)"

definition ns_ask :: "provider option \<Rightarrow> ns_query \<Rightarrow> (provider \<Rightarrow> 'w \<Rightarrow> (error + 'a) \<times> 'w) \<Rightarrow>
    ('w st, 'a) M" where
  "ns_ask p q f = deref p (\<lambda>p. bind (ext_call (NsQuery p q) (f p)) lift_sum)"

definition ns_GetVolume :: "'w lib \<Rightarrow> provider option \<Rightarrow> string \<Rightarrow> ('w st, ns_Volume) M" where
  "ns_GetVolume L p path = ns_ask p (QVolume path) (\<lambda>p. GetVolume L p path)"

definition ns_GetVolumeGroup :: "'w lib \<Rightarrow> provider option \<Rightarrow> string \<Rightarrow> ('w st, int) M" where
  "ns_GetVolumeGroup L p path = ns_ask p (QVolumeGroup path) (\<lambda>p. GetVolumeGroup L p path)"

text \<open>\<open>GetVolumesWithStartingToken\<close> answers three values; the caller does not check the error.\<close>

definition ns_GetVolumesWithStartingToken :: "'w lib \<Rightarrow> provider option \<Rightarrow> string \<Rightarrow> string \<Rightarrow> int \<Rightarrow>
    ('w st, ns_Volume list \<times> string \<times> error option) M" where
  "ns_GetVolumesWithStartingToken L p vg token limit = deref p (\<lambda>p.
     ext_call (NsQuery p (QVolumes vg token limit)) (GetVolumesWithStartingToken L p vg token limit))"

definition ns_GetSnapshot :: "'w lib \<Rightarrow> provider option \<Rightarrow> string \<Rightarrow> ('w st, ns_Snapshot) M" where
  "ns_GetSnapshot L p path = ns_ask p (QSnapshot path) (\<lambda>p. GetSnapshot L p path)"

definition ns_GetSnapshots ::
    "'w lib \<Rightarrow> provider option \<Rightarrow> string \<Rightarrow> bool \<Rightarrow> ('w st, ns_Snapshot list) M" where
  "ns_GetSnapshots L p path rec = ns_ask p (QSnapshots path rec) (\<lambda>p. GetSnapshots L p path rec)"

definition ns_GetLunMappings ::
    "'w lib \<Rightarrow> provider option \<Rightarrow> GetLunMappingsParams \<Rightarrow> ('w st, ns_LunMapping list) M" where
  "ns_GetLunMappings L p ps = ns_ask p (QLunMappings ps) (\<lambda>p. GetLunMappings L p ps)"

definition ns_GetTargetGroups :: "'w lib \<Rightarrow> provider option \<Rightarrow> ('w st, ns_TargetGroup list) M" where
  "ns_GetTargetGroups L p = ns_ask p QTargetGroups (\<lambda>p. GetTargetGroups L p)"

definition ns_GetISCSITarget :: "'w lib \<Rightarrow> provider option \<Rightarrow> string \<Rightarrow> ('w st, string) M" where
  "ns_GetISCSITarget L p name = ns_ask p (QISCSITarget name) (\<lambda>p. GetISCSITarget L p name)"

definition ns_GetRemoteInitiator :: "'w lib \<Rightarrow> provider option \<Rightarrow> string \<Rightarrow> ('w st, unit) M" where
  "ns_GetRemoteInitiator L p name = deref p (\<lambda>p.
     bind (ext_call (NsQuery p (QRemoteInitiator name)) (GetRemoteInitiator L p name)) lift_err)"

definition ns_GetHostGroups :: "'w lib \<Rightarrow> provider option \<Rightarrow> ('w st, ns_HostGroup list) M" where
  "ns_GetHostGroups L p = ns_ask p QHostGroups (\<lambda>p. GetHostGroups L p)"

definition ns_GetFilesystemAvailableCapacity ::
    "'w lib \<Rightarrow> provider option \<Rightarrow> string \<Rightarrow> ('w st, int) M" where
  "ns_GetFilesystemAvailableCapacity L p path =
     ns_ask p (QAvailable path) (\<lambda>p. GetFilesystemAvailableCapacity L p path)"

definition ns_GetLicense :: "'w lib \<Rightarrow> provider option \<Rightarrow> ('w st, License) M" where
  "ns_GetLicense L p = ns_ask p QLicense (\<lambda>p. GetLicense L p)"

definition ns_NewResolver ::
    "'w lib \<Rightarrow> ResolverArgs \<Rightarrow> ('w st, resolver option \<times> error option) M" where
  "ns_NewResolver L a = ext_call (NewResolverCall a) (NewResolver L a)"

definition ns_ResolveFromVg ::
    "'w lib \<Rightarrow> resolver option \<Rightarrow> string \<Rightarrow> ('w st, provider option \<times> error option) M" where
  "ns_ResolveFromVg L r vg =
     bind (ext_call (ResolveCall r vg) (ResolveFromVg L r vg)) (\<lambda>a. deref a ret)"

definition ns_IsCluster :: "'w lib \<Rightarrow> resolver \<Rightarrow> ('w st, bool) M" where
  "ns_IsCluster L r = bind (ext_call (IsClusterCall r) (IsCluster L r)) lift_sum"

text \<open>The node's operating system.\<close>

definition os_do :: "'w lib \<Rightarrow> os_cmd \<Rightarrow> ('w st, unit) M" where
  "os_do L c = bind (ext_call (OsCmd c) (osCommand L c)) lift_err"

definition os_exec :: "'w lib \<Rightarrow> string list \<Rightarrow> ('w st, string \<times> error option) M" where
  "os_exec L argv = ext_call (Exec argv) (osExec L argv)"

definition os_Stat :: "'w lib \<Rightarrow> string \<Rightarrow> ('w st, int) M" where
  "os_Stat L path = bind (ext_call (StatCall path) (osStat L path)) lift_sum"

definition os_ReadFile :: "'w lib \<Rightarrow> string \<Rightarrow> ('w st, string) M" where
  "os_ReadFile L path = bind (ext_call (ReadFileCall path) (osReadFile L path)) lift_sum"

definition os_EvalSymlinks :: "'w lib \<Rightarrow> string \<Rightarrow> ('w st, string) M" where
  "os_EvalSymlinks L path = bind (ext_call (EvalSymlinksCall path) (osEvalSymlinks L path)) lift_sum"

definition mounter_IsLikelyNotMountPoint :: "'w lib \<Rightarrow> string \<Rightarrow> ('w st, bool \<times> error option) M" where
  "mounter_IsLikelyNotMountPoint L path =
     ext_call (MountPointCall path) (IsLikelyNotMountPoint L path)"

definition file_WriteString :: "'w lib \<Rightarrow> string \<Rightarrow> string \<Rightarrow> ('w st, nat) M" where
  "file_WriteString L f d = bind (ext_call (WriteStringCall f d) (fileWriteString L f d))
     (\<lambda>(n, e). case e of None \<Rightarrow> ret n | Some e \<Rightarrow> throw e)"

definition uuid_New :: "'w lib \<Rightarrow> ('w st, string) M" where
  "uuid_New L = ext_call UuidCall (uuidNew L)"

definition time_Sleep :: "'w lib \<Rightarrow> duration \<Rightarrow> ('w st, unit) M" where
  "time_Sleep L d = ext_call (SleepCall d) (sleepFor L d)"

definition grpc_Serve :: "'w lib \<Rightarrow> string list \<Rightarrow> ('w st, unit) M" where
  "grpc_Serve L services = bind (ext_call (ServeCall services) (grpcServe L services)) lift_err"

definition backoff_retries :: "'w lib \<Rightarrow> ('w st, nat) M" where
  "backoff_retries L = ext_call BackoffCall (backoffRetries L)"

lemmas boundary_defs = ns_do_def ns_ask_def ns_GetVolume_def ns_GetVolumeGroup_def
  ns_GetVolumesWithStartingToken_def ns_GetSnapshot_def ns_GetSnapshots_def ns_GetLunMappings_def
  ns_GetTargetGroups_def ns_GetISCSITarget_def ns_GetRemoteInitiator_def ns_GetHostGroups_def
  ns_GetFilesystemAvailableCapacity_def ns_GetLicense_def ns_NewResolver_def ns_ResolveFromVg_def
  ns_IsCluster_def os_do_def os_exec_def os_Stat_def os_ReadFile_def os_EvalSymlinks_def
  mounter_IsLikelyNotMountPoint_def file_WriteString_def uuid_New_def time_Sleep_def
  backoff_retries_def grpc_Serve_def

lemma run_ext_call [run_simps]: "ext_call c f s =
    (Ret (fst (f (world s))), s\<lparr>world := snd (f (world s)), trace := trace s @ [c]\<rparr>)"
  by (simp add: ext_call_def split: prod.splits)

lemma ext_call_run_iff [ran]: "ext_call c f s = (r, t) \<longleftrightarrow>
    r = Ret (fst (f (world s))) \<and> t = s\<lparr>world := snd (f (world s)), trace := trace s @ [c]\<rparr>"
  by (auto simp: run_ext_call)

lemma run_goRange [run_simps]: "goRange L m s =
    (Ret (entries (fst (mapSeed L (world s))) m), s\<lparr>world := snd (mapSeed L (world s))\<rparr>)"
  by (simp add: goRange_def split: prod.splits)

lemma goRange_run_iff [ran]: "goRange L m s = (r, t) \<longleftrightarrow>
    r = Ret (entries (fst (mapSeed L (world s))) m) \<and> t = s\<lparr>world := snd (mapSeed L (world s))\<rparr>"
  by (auto simp: run_goRange)

section \<open>Frames of the boundary\<close>

text \<open>\<open>emits P s t\<close>: between \<open>s\<close> and \<open>t\<close> only calls that satisfy \<open>P\<close> were made.\<close>

definition emits :: "(call \<Rightarrow> bool) \<Rightarrow> 'w st \<Rightarrow> 'w st \<Rightarrow> bool" where
  "emits P s t \<longleftrightarrow> (\<exists>cs. trace t = trace s @ cs \<and> list_all P cs)"

interpretation emitting: state_frame "emits P" for P
proof unfold_locales
  show "emits P s s" for s :: "'a st" by (simp add: emits_def)
  show "emits P s t \<Longrightarrow> emits P t u \<Longrightarrow> emits P s u" for s t u :: "'a st"
    by (fastforce simp: emits_def)
qed

text \<open>\<open>internal\<close>: the configuration and the resolver maps are as before.\<close>

definition internal_state :: "'w st \<Rightarrow> Config \<times> resolver gomap \<times> resolver option gomap" where
  "internal_state s = (conf s, ctrlResolvers s, nodeResolvers s)"

named_theorems emits_rules \<open>calls an operation may make\<close>
named_theorems internal_rules \<open>operations that leave configuration and resolver maps alone\<close>

lemmas [emits_rules] = emitting.frame_rules
lemmas [internal_rules] = unchanged.frame_rules [where proj = internal_state]

lemma keeps_ext_call_emits [emits_rules]: "P c \<Longrightarrow> keeps (emits P) (ext_call c f)"
  by (simp add: keeps_def emits_def run_ext_call)

lemma keeps_goRange_emits [emits_rules]: "keeps (emits P) (goRange L m)"
  by (simp add: keeps_def emits_def run_goRange)

lemma keeps_ext_call_internal [internal_rules]: "keeps (same internal_state) (ext_call c f)"
  by (simp add: keeps_def same_def internal_state_def run_ext_call)

lemma keeps_goRange_internal [internal_rules]: "keeps (same internal_state) (goRange L m)"
  by (simp add: keeps_def same_def internal_state_def run_goRange)

lemma ns_do_emits [emits_rules]: "(\<And>q. p = Some q \<Longrightarrow> P (NsCmd q c)) \<Longrightarrow> keeps (emits P) (ns_do L p c)"
  unfolding ns_do_def by (intro emits_rules) auto

lemma ns_ask_emits [emits_rules]: "(\<And>r. p = Some r \<Longrightarrow> P (NsQuery r q)) \<Longrightarrow> keeps (emits P) (ns_ask p q f)"
  unfolding ns_ask_def by (intro emits_rules) auto

lemma ns_query_emits [emits_rules]:
  assumes "\<And>r q. P (NsQuery r q)"
  shows "keeps (emits P) (ns_GetVolume L p path)"
    and "keeps (emits P) (ns_GetVolumeGroup L p path)"
    and "keeps (emits P) (ns_GetVolumesWithStartingToken L p path tok n)"
    and "keeps (emits P) (ns_GetSnapshot L p path)"
    and "keeps (emits P) (ns_GetSnapshots L p path rec)"
    and "keeps (emits P) (ns_GetLunMappings L p ps)"
    and "keeps (emits P) (ns_GetTargetGroups L p)"
    and "keeps (emits P) (ns_GetISCSITarget L p path)"
    and "keeps (emits P) (ns_GetRemoteInitiator L p path)"
    and "keeps (emits P) (ns_GetHostGroups L p)"
    and "keeps (emits P) (ns_GetFilesystemAvailableCapacity L p path)"
    and "keeps (emits P) (ns_GetLicense L p)"
  unfolding boundary_defs by (intro emits_rules assms; assumption?)+

lemma resolver_emits [emits_rules]:
  "P (NewResolverCall a) \<Longrightarrow> keeps (emits P) (ns_NewResolver L a)"
  "P (ResolveCall r vg) \<Longrightarrow> keeps (emits P) (ns_ResolveFromVg L r vg)"
  "P (IsClusterCall q) \<Longrightarrow> keeps (emits P) (ns_IsCluster L q)"
  unfolding boundary_defs by (intro emits_rules; assumption)+

lemma os_emits [emits_rules]:
  "P (OsCmd c) \<Longrightarrow> keeps (emits P) (os_do L c)"
  "P (Exec argv) \<Longrightarrow> keeps (emits P) (os_exec L argv)"
  "P (StatCall path) \<Longrightarrow> keeps (emits P) (os_Stat L path)"
  "P (ReadFileCall path) \<Longrightarrow> keeps (emits P) (os_ReadFile L path)"
  "P (EvalSymlinksCall path) \<Longrightarrow> keeps (emits P) (os_EvalSymlinks L path)"
  "P (MountPointCall path) \<Longrightarrow> keeps (emits P) (mounter_IsLikelyNotMountPoint L path)"
  "P (WriteStringCall f d) \<Longrightarrow> keeps (emits P) (file_WriteString L f d)"
  "P UuidCall \<Longrightarrow> keeps (emits P) (uuid_New L)"
  "P (SleepCall n) \<Longrightarrow> keeps (emits P) (time_Sleep L n)"
  "P BackoffCall \<Longrightarrow> keeps (emits P) (backoff_retries L)"
  "P (ServeCall svs) \<Longrightarrow> keeps (emits P) (grpc_Serve L svs)"
  unfolding boundary_defs by (intro emits_rules keeps_cases; assumption)+

lemma boundary_internal [internal_rules]:
  "keeps (same internal_state) (ns_do L p c)"
  "keeps (same internal_state) (ns_ask p q f)"
  "keeps (same internal_state) (ns_GetVolume L p path)"
  "keeps (same internal_state) (ns_GetVolumeGroup L p path)"
  "keeps (same internal_state) (ns_GetVolumesWithStartingToken L p path tok n)"
  "keeps (same internal_state) (ns_GetSnapshot L p path)"
  "keeps (same internal_state) (ns_GetSnapshots L p path rec)"
  "keeps (same internal_state) (ns_GetLunMappings L p ps)"
  "keeps (same internal_state) (ns_GetTargetGroups L p)"
  "keeps (same internal_state) (ns_GetISCSITarget L p path)"
  "keeps (same internal_state) (ns_GetRemoteInitiator L p path)"
  "keeps (same internal_state) (ns_GetHostGroups L p)"
  "keeps (same internal_state) (ns_GetFilesystemAvailableCapacity L p path)"
  "keeps (same internal_state) (ns_GetLicense L p)"
  "keeps (same internal_state) (ns_NewResolver L a)"
  "keeps (same internal_state) (ns_ResolveFromVg L r vg)"
  "keeps (same internal_state) (ns_IsCluster L rr)"
  "keeps (same internal_state) (os_do L oc)"
  "keeps (same internal_state) (os_exec L argv)"
  "keeps (same internal_state) (os_Stat L path)"
  "keeps (same internal_state) (os_ReadFile L path)"
  "keeps (same internal_state) (os_EvalSymlinks L path)"
  "keeps (same internal_state) (mounter_IsLikelyNotMountPoint L path)"
  "keeps (same internal_state) (file_WriteString L g d)"
  "keeps (same internal_state) (uuid_New L)"
  "keeps (same internal_state) (time_Sleep L m)"
  "keeps (same internal_state) (backoff_retries L)"
  "keeps (same internal_state) (grpc_Serve L svs)"
  unfolding boundary_defs by (intro internal_rules keeps_cases)+

text \<open>What a property reads off a frame fact.\<close>

lemma emits_new_calls:
  assumes "keeps (emits P) m" and "m s = (r, t)" and "trace s = h"
  obtains cs where "trace t = h @ cs" and "\<forall>c \<in> set cs. P c"
  using keepsD [OF assms(1,2)] assms(3) by (auto simp: emits_def list_all_iff)

lemma emits_mono: "emits P s t \<Longrightarrow> (\<And>c. P c \<Longrightarrow> Q c) \<Longrightarrow> emits Q s t"
  by (auto simp: emits_def list_all_iff)

lemma keeps_emits_mono: "keeps (emits P) m \<Longrightarrow> (\<And>c. P c \<Longrightarrow> Q c) \<Longrightarrow> keeps (emits Q) m"
  by (auto simp: keeps_def intro: emits_mono)

section \<open>Outcomes of the boundary\<close>

text \<open>A query or a command on a provider fails only with the error it was answered with.\<close>

lemma run_ns_do [run_simps]: "ns_do L p c s = (case p of None \<Rightarrow> (Panic, s)
    | Some q \<Rightarrow> (case nsCommand L q c (world s) of
        (None, w) \<Rightarrow> (Ret (), s\<lparr>world := w, trace := trace s @ [NsCmd q c]\<rparr>)
      | (Some e, w) \<Rightarrow> (Fail e, s\<lparr>world := w, trace := trace s @ [NsCmd q c]\<rparr>)))"
  by (simp add: ns_do_def run_simps split: option.splits prod.splits)

lemma run_ns_ask [run_simps]: "ns_ask p q f s = (case p of None \<Rightarrow> (Panic, s)
    | Some r \<Rightarrow> (case f r (world s) of
        (Inr x, w) \<Rightarrow> (Ret x, s\<lparr>world := w, trace := trace s @ [NsQuery r q]\<rparr>)
      | (Inl e, w) \<Rightarrow> (Fail e, s\<lparr>world := w, trace := trace s @ [NsQuery r q]\<rparr>)))"
  by (simp add: ns_ask_def run_simps split: option.splits prod.splits sum.splits)

lemma ns_do_Ret [ran]: "ns_do L p c s = (Ret u, t) \<longleftrightarrow> (\<exists>q w. p = Some q \<and>
    nsCommand L q c (world s) = (None, w) \<and> t = s\<lparr>world := w, trace := trace s @ [NsCmd q c]\<rparr>)"
  by (auto simp: run_ns_do split: option.splits prod.splits)

lemma ns_do_Fail [ran]: "ns_do L p c s = (Fail e, t) \<longleftrightarrow> (\<exists>q w. p = Some q \<and>
    nsCommand L q c (world s) = (Some e, w) \<and> t = s\<lparr>world := w, trace := trace s @ [NsCmd q c]\<rparr>)"
  by (auto simp: run_ns_do split: option.splits prod.splits)

lemma ns_do_Panic [ran]: "ns_do L p c s = (Panic, t) \<longleftrightarrow> p = None \<and> t = s"
  by (auto simp: run_ns_do split: option.splits prod.splits)

lemma ns_ask_Ret [ran]: "ns_ask p q f s = (Ret x, t) \<longleftrightarrow> (\<exists>r w. p = Some r \<and>
    f r (world s) = (Inr x, w) \<and> t = s\<lparr>world := w, trace := trace s @ [NsQuery r q]\<rparr>)"
  by (auto simp: run_ns_ask split: option.splits prod.splits sum.splits)

lemma ns_ask_Fail [ran]: "ns_ask p q f s = (Fail e, t) \<longleftrightarrow> (\<exists>r w. p = Some r \<and>
    f r (world s) = (Inl e, w) \<and> t = s\<lparr>world := w, trace := trace s @ [NsQuery r q]\<rparr>)"
  by (auto simp: run_ns_ask split: option.splits prod.splits sum.splits)

lemma ns_ask_Panic [ran]: "ns_ask p q f s = (Panic, t) \<longleftrightarrow> p = None \<and> t = s"
  by (auto simp: run_ns_ask split: option.splits prod.splits sum.splits)

end
