(* ===== verification/SimWorld.thy ===== *)
theory SimWorld
  imports DriverState
begin

text \<open>
  A concrete outside world: a small in-memory appliance and node. It is no part of the model of
  the driver; the witnesses run the driver's definitions on it, to show that the hypotheses the
  properties make about the outside can hold together.

  One provider (number 0) holds volumes, snapshots, LUN mappings, targets and groups; commands on
  it behave as the NexentaStor API documents them (creating twice is \<open>EEXIST\<close>, destroying what is
  not there is \<open>ENOENT\<close>, destroying a mapped volume is \<open>EBUSY\<close>). Files, command output and mounts of the node are tables.
\<close>

record sim_lun =
  sl_Id :: string
  sl_Volume :: string
  sl_TargetGroup :: string
  sl_HostGroup :: string

record sim =
  sim_seed :: nat
  sim_groups :: "string list"
  sim_vols :: "int gomap"
  sim_snaps :: "ns_Snapshot list"
  sim_luns :: "sim_lun list"
  sim_next :: nat
  sim_targets :: "string gomap"
  sim_tgs :: "ns_TargetGroup list"
  sim_inits :: "string list"
  sim_hgs :: "ns_HostGroup list"
  sim_files :: "(string \<times> int) gomap"
  sim_out :: "(string list \<times> string) list"
  sim_mounts :: "string list"

definition sim_empty :: sim where
  "sim_empty = \<lparr>sim_seed = 0, sim_groups = [''p/g''], sim_vols = [], sim_snaps = [], sim_luns = [],
     sim_next = 0, sim_targets = [], sim_tgs = [], sim_inits = [], sim_hgs = [], sim_files = [],
     sim_out = [], sim_mounts = []\<rparr>"

definition enoent :: error where
  "enoent = LibErr ''ENOENT'' ''not found''"

definition eexist :: error where
  "eexist = LibErr ''EEXIST'' ''already exists''"

definition nef_kind :: "string \<Rightarrow> error \<Rightarrow> bool" where
  "nef_kind k e = (case e of LibErr k' _ \<Rightarrow> k' = k | _ \<Rightarrow> False)"

definition snapshot_of :: "string \<Rightarrow> ns_Snapshot" where
  "snapshot_of p = \<lparr>snap_Path = p, snap_Name = drop 1 (dropWhile (\<lambda>c. c \<noteq> CHR ''@'') p),
     snap_Parent = takeWhile (\<lambda>c. c \<noteq> CHR ''@'') p, snap_CreationTime = 0\<rparr>"

fun sim_command :: "provider \<Rightarrow> ns_cmd \<Rightarrow> sim \<Rightarrow> error option \<times> sim" where
  "sim_command p (CreateVolumeCmd path sz sparse) w =
     (if map_of (sim_vols w) path \<noteq> None then (Some eexist, w)
      else (None, w\<lparr>sim_vols := (path, sz) # sim_vols w\<rparr>))"
| "sim_command p (UpdateVolumeCmd path sz) w =
     (if map_of (sim_vols w) path = None then (Some enoent, w)
      else (None, w\<lparr>sim_vols := AList.update path sz (sim_vols w)\<rparr>))"
| "sim_command p (DestroyVolumeCmd path snaps promote) w =
     (if map_of (sim_vols w) path = None then (Some enoent, w)
      else if path \<in> sl_Volume ` set (sim_luns w) then (Some (LibErr ''EBUSY'' ''in use''), w)
      else (None, w\<lparr>sim_vols := AList.delete path (sim_vols w),
                   sim_snaps := filter (\<lambda>s. snap_Parent s \<noteq> path) (sim_snaps w)\<rparr>))"
| "sim_command p (CreateSnapshotCmd path) w =
     (if path \<in> snap_Path ` set (sim_snaps w) then (Some eexist, w)
      else if map_of (sim_vols w) (snap_Parent (snapshot_of path)) = None then (Some enoent, w)
      else (None, w\<lparr>sim_snaps := snapshot_of path # sim_snaps w\<rparr>))"
| "sim_command p (DestroySnapshotCmd path) w =
     (if path \<in> snap_Path ` set (sim_snaps w)
      then (None, w\<lparr>sim_snaps := filter (\<lambda>s. snap_Path s \<noteq> path) (sim_snaps w)\<rparr>)
      else (Some enoent, w))"
| "sim_command p (CloneSnapshotCmd snap target) w =
     (if map_of (sim_vols w) target \<noteq> None then (Some eexist, w)
      else if snap \<notin> snap_Path ` set (sim_snaps w) then (Some enoent, w)
      else (None, w\<lparr>sim_vols := (target, the (map_of (sim_vols w) (snap_Parent (snapshot_of snap))))
                     # sim_vols w\<rparr>))"
| "sim_command p (CreateLunMappingCmd v tg hg) w =
     (None, w\<lparr>sim_luns := \<lparr>sl_Id = digits 10 (sim_next w), sl_Volume = v, sl_TargetGroup = tg,
                          sl_HostGroup = hg\<rparr> # sim_luns w, sim_next := Suc (sim_next w)\<rparr>)"
| "sim_command p (DestroyLunMappingCmd i) w =
     (None, w\<lparr>sim_luns := filter (\<lambda>l. sl_Id l \<noteq> i) (sim_luns w)\<rparr>)"
| "sim_command p (CreateUpdateTargetGroupCmd n ms) w =
     (None, w\<lparr>sim_tgs := \<lparr>tg_Name = n, tg_Members = ms\<rparr> # filter (\<lambda>g. tg_Name g \<noteq> n) (sim_tgs w)\<rparr>)"
| "sim_command p (CreateISCSITargetCmd n portals) w =
     (None, w\<lparr>sim_targets := (n, ''none'') # sim_targets w\<rparr>)"
| "sim_command p (UpdateISCSITargetCmd n auth) w =
     (None, w\<lparr>sim_targets := AList.update n auth (sim_targets w)\<rparr>)"
| "sim_command p (CreateRemoteInitiatorCmd n u s) w =
     (None, w\<lparr>sim_inits := n # sim_inits w\<rparr>)"
| "sim_command p (UpdateRemoteInitiatorCmd n u s) w = (None, w)"
| "sim_command p (CreateHostGroupCmd n ms) w =
     (None, w\<lparr>sim_hgs := \<lparr>hg_Name = n, hg_Members = ms\<rparr> # sim_hgs w\<rparr>)"

definition lun_matches :: "GetLunMappingsParams \<Rightarrow> sim_lun \<Rightarrow> bool" where
  "lun_matches ps l \<longleftrightarrow>
     (lm_Volume ps = [] \<or> lm_Volume ps = sl_Volume l) \<and>
     (lm_TargetGroup ps = [] \<or> lm_TargetGroup ps = sl_TargetGroup l) \<and>
     (lm_HostGroup ps = [] \<or> lm_HostGroup ps = sl_HostGroup l)"

fun sim_os :: "os_cmd \<Rightarrow> sim \<Rightarrow> error option \<times> sim" where
  "sim_os (MountFs src tgt fs opts) w = (None, w\<lparr>sim_mounts := tgt # sim_mounts w\<rparr>)"
| "sim_os (Unmount tgt) w = (None, w\<lparr>sim_mounts := filter (\<lambda>m. m \<noteq> tgt) (sim_mounts w)\<rparr>)"
| "sim_os _ w = (None, w)"

definition opt_sum :: "'a option \<Rightarrow> error + 'a" where
  "opt_sum x = (case x of None \<Rightarrow> Inl enoent | Some a \<Rightarrow> Inr a)"

definition file_sum :: "string \<Rightarrow> 'a option \<Rightarrow> error + 'a" where
  "file_sum p x = (case x of None \<Rightarrow> Inl (OsErr ENOENT (p @ '': no such file or directory'')) | Some a \<Rightarrow> Inr a)"

text \<open>The text \<open>good\<close> is a configuration with one appliance \<open>a\<close>; any other text has an appliance
  without credentials.\<close>

definition sim_data :: NsData where
  "sim_data = zeroNsData\<lparr>Address := ''https://h:1'', Username := ''u'', Password := ''s'',
     DefaultVolumeGroup := ''p/g'', DefaultDataIP := ''10.0.0.1'', DefaultHostGroup := ''all'',
     DynamicTargetLunAllocation := Some True, InsecureSkipVerify := Some True\<rparr>"

definition sim_bad_data :: NsData where
  "sim_bad_data = sim_data\<lparr>Username := [], InsecureSkipVerify := None\<rparr>"

definition sim_lib :: "sim lib" where
  "sim_lib = \<lparr>
     mapSeed = (\<lambda>w. (sim_seed w, w)),
     yamlUnmarshal = (\<lambda>c m. if c = ''good'' then (None, [(''a'', sim_data)], False)
                            else (None, [(''a'', sim_bad_data)], False)),
     IsNotExistNefError = nef_kind ''ENOENT'',
     IsAlreadyExistNefError = nef_kind ''EEXIST'',
     IsBusyNefError = nef_kind ''EBUSY'',
     IsBadArgNefError = nef_kind ''EINVAL'',
     statusText = (\<lambda>c m. ''rpc error: '' @ m),
     statusCode = (\<lambda>e. case e of StatusErr c m \<Rightarrow> c | _ \<Rightarrow> Unknown),
     quote = (\<lambda>s. [CHR 0x22] @ s @ [CHR 0x22]),
     sprintf0 = (\<lambda>s. s),
     modeString = (\<lambda>m. ''mode''),
     NewResolver = (\<lambda>a w. ((Some 0, None), w)),
     zeroResolver = 9,
     ResolveFromVg = (\<lambda>r vg w.
        (case r of None \<Rightarrow> None
         | Some n \<Rightarrow> if n = 0 \<and> vg \<in> set (sim_groups w) then Some (Some 0, None)
                     else Some (None, Some enoent), w)),
     Nodes = (\<lambda>r. [0]),
     IsCluster = (\<lambda>r w. (Inr True, w)),
     nsCommand = sim_command,
     GetVolume = (\<lambda>p path w. (opt_sum (map_option (\<lambda>n. \<lparr>vol_Path = path, vol_VolumeSize = n\<rparr>)
                                (map_of (sim_vols w) path)), w)),
     GetVolumeGroup = (\<lambda>p path w. (if path \<in> set (sim_groups w) then Inr 1000 else Inl enoent, w)),
     GetVolumesWithStartingToken = (\<lambda>p vg tok n w.
        ((map (\<lambda>(path, n). \<lparr>vol_Path = path, vol_VolumeSize = n\<rparr>) (sim_vols w), [], None), w)),
     GetSnapshot = (\<lambda>p path w. (opt_sum (find (\<lambda>s. snap_Path s = path) (sim_snaps w)), w)),
     GetSnapshots = (\<lambda>p path rec w. (Inr (filter (\<lambda>s. prefix path (snap_Parent s)) (sim_snaps w)), w)),
     GetLunMappings = (\<lambda>p ps w. (Inr (map (\<lambda>l. \<lparr>lun_Id = sl_Id l, lun_Lun = 0\<rparr>)
                                    (filter (lun_matches ps) (sim_luns w))), w)),
     GetTargetGroups = (\<lambda>p w. (Inr (sim_tgs w), w)),
     GetISCSITarget = (\<lambda>p n w. (opt_sum (map_of (sim_targets w) n), w)),
     GetRemoteInitiator = (\<lambda>p n w. (if n \<in> set (sim_inits w) then None else Some enoent, w)),
     GetHostGroups = (\<lambda>p w. (Inr (sim_hgs w), w)),
     GetFilesystemAvailableCapacity = (\<lambda>p path w. (Inr 1000, w)),
     GetLicense = (\<lambda>p w. (Inr \<lparr>lic_Valid = True, lic_Expires = []\<rparr>, w)),
     osCommand = sim_os,
     osExec = (\<lambda>argv w. (case map_of (sim_out w) argv of
                           None \<Rightarrow> ([], Some (LibErr ''exit'' ''exit status 1''))
                         | Some out \<Rightarrow> (out, None), w)),
     osStat = (\<lambda>p w. (file_sum p (map_option snd (map_of (sim_files w) p)), w)),
     unixMode = (\<lambda>p w. (Inr 0, w)),
     osReadFile = (\<lambda>p w. (file_sum p (map_option fst (map_of (sim_files w) p)), w)),
     osEvalSymlinks = (\<lambda>p w. (Inr p, w)),
     IsLikelyNotMountPoint = (\<lambda>p w. ((p \<notin> set (sim_mounts w), None), w)),
     fileWriteString = (\<lambda>f d w. ((length d, None), w)),
     fsTree = (\<lambda>p w. (Inr (FsDir [(''c.yaml'', FsFile)]), w)),
     uuidNew = (\<lambda>w. (''uuid-'' @ digits 10 (sim_next w), w\<lparr>sim_next := Suc (sim_next w)\<rparr>)),
     sleepFor = (\<lambda>d w. ((), w)),
     backoffRetries = (\<lambda>w. (2, w)),
     urlParse = (\<lambda>u. Inr (''unix'', [], ''/csi.sock'')),
     grpcServe = (\<lambda>s w. (None, w))\<rparr>"

text \<open>A process on this world, with the configuration \<open>m\<close> in memory and the file \<open>/c.yaml\<close>
  holding \<open>text\<close>, last changed at time 7; the configuration was last read at time \<open>t\<close>.\<close>

definition sim_process :: "NsData gomap \<Rightarrow> string \<Rightarrow> int \<Rightarrow> sim st" where
  "sim_process m text t = \<lparr>
     conf = \<lparr>NsMap = m, Debug = False, filePath = ''/c.yaml'', lastModTime = t, temporary = False\<rparr>,
     ctrlResolvers = map (\<lambda>(n, d). (n, 0)) m,
     nodeResolvers = map (\<lambda>(n, d). (n, Some 0)) m,
     world = sim_empty\<lparr>sim_files := [(''/c.yaml'', (text, 7))]\<rparr>,
     trace = []\<rparr>"

lemmas sim_defs = sim_lib_def sim_process_def sim_empty_def sim_data_def sim_bad_data_def
  zeroNsData_def file_sum_def opt_sum_def enoent_def eexist_def nef_kind_def snapshot_of_def
  lun_matches_def

end
