(* ===== verification/ConfigPkg.thy ===== *)
theory ConfigPkg
  imports SimWorld
begin

text \<open>
  \<open>pkg/config/config.go\<close>: the configuration object, its validation and its refresh.

  The first part is the code: the address format, \<open>Validate\<close>, \<open>Refresh\<close>, \<open>findConfigFile\<close> and
  \<open>New\<close>. The second part is what they do: \<open>Validate\<close> accepts exactly the maps all of whose
  entries satisfy \<open>ns_valid\<close>, in whatever order the map is visited; \<open>Refresh\<close> is a small state
  machine over the remembered modification time and the \<open>temporary\<close> flag.
\<close>

section \<open>The address format\<close>

text \<open>The pattern \<open>^https?://[^:]+:[0-9]{1,5}$\<close>.\<close>

definition is_digit :: "char \<Rightarrow> bool" where
  "is_digit c \<longleftrightarrow> 48 \<le> (of_char c :: nat) \<and> (of_char c :: nat) \<le> 57"

text \<open>\<open>[^:]+:[0-9]{1,5}$\<close>: the host runs up to the first colon.\<close>

definition match_host_port :: "string \<Rightarrow> bool" where
  "match_host_port r \<longleftrightarrow>
     takeWhile (\<lambda>c. c \<noteq> CHR '':'') r \<noteq> [] \<and>
     (case dropWhile (\<lambda>c. c \<noteq> CHR '':'') r of
        [] \<Rightarrow> False
      | _ # port \<Rightarrow> 1 \<le> length port \<and> length port \<le> 5 \<and> list_all is_digit port)"

definition regexpAddress_match :: "string \<Rightarrow> bool" where
  "regexpAddress_match s \<longleftrightarrow>
     prefix ''https://'' s \<and> match_host_port (drop 8 s) \<or>
     prefix ''http://'' s \<and> match_host_port (drop 7 s)"

section \<open>Validate\<close>

text \<open>\<open>'%s'\<close> in a message.\<close>

definition sq :: "string \<Rightarrow> string" where
  "sq s = [CHR 0x27] @ s @ [CHR 0x27]"

definition not_passed :: "string \<Rightarrow> string" where
  "not_passed p = ''parameter '' @ sq p @ '' is required but not passed''"

definition address_errors :: "string \<Rightarrow> NsData \<Rightarrow> string list" where
  "address_errors name d =
     (if Address d = [] then [not_passed ''restIp'']
      else map (\<lambda>a. ''[NS: '' @ name @ ''] parameter '' @ sq ''restIp'' @
                    '' has invalid address: '' @ sq a @ '', should be '' @ sq ''schema://host:port'')
             (filter (\<lambda>a. \<not> regexpAddress_match a) (strings_Split (Address d) '','')))"

text \<open>
  The errors of one entry. The code appends an error when \<open>DynamicTargetLunAllocation\<close> is nil
  and then dereferences it all the same.
\<close>

definition validate_entry :: "string \<Rightarrow> NsData \<Rightarrow> ('s, string list) M" where
  "validate_entry name d =
     (let errors = address_errors name d
        @ (if Username d = [] then [not_passed ''username''] else [])
        @ (if Password d = [] then [not_passed ''password''] else [])
        @ (if DynamicTargetLunAllocation d = None then [not_passed ''dynamicTargetLunAllocation''] else [])
      in deref (DynamicTargetLunAllocation d) (\<lambda>dynamic.
           ret (errors @ (if dynamic then [] else
             (if DefaultTarget d = [] then
                [''parameter '' @ sq ''defaultTarget'' @
                 '' is required when dynamicTargetLunAllocation=false but not passed''] else [])
             @ (if DefaultTargetGroup d = [] then
                [''parameter '' @ sq ''DefaultTargetGroup'' @
                 '' is required when dynamicTargetLunAllocation=false but not passed''] else [])))))"

definition set_NsMap :: "NsData gomap \<Rightarrow> 'w st \<Rightarrow> 'w st" where
  "set_NsMap m s = s\<lparr>conf := (conf s)\<lparr>NsMap := m\<rparr>\<rparr>"

text \<open>The body of the loop: validate, fill in \<open>InsecureSkipVerify\<close>, report.\<close>

definition validate_step :: "string \<times> NsData \<Rightarrow> ('w st, unit) M" where
  "validate_step = (\<lambda>(name, data).
     bind (validate_entry name data) (\<lambda>errors.
     bind (if InsecureSkipVerify data = None
           then modify (\<lambda>s. set_NsMap
                  (AList.update name (data\<lparr>InsecureSkipVerify := Some True\<rparr>) (NsMap (conf s))) s)
           else ret ()) (\<lambda>_.
     if errors \<noteq> [] then
       throw (PlainErr (''[NS: '' @ name @ ''] Bad format, fix following issues: '' @
                        strings_Join errors ''; ''))
     else ret ())))"

definition Validate :: "'w lib \<Rightarrow> ('w st, unit) M" where
  "Validate L =
     bind (gets (\<lambda>s. NsMap (conf s))) (\<lambda>m.
     bind (goRange L m) (\<lambda>es.
     forM es validate_step))"

section \<open>Refresh\<close>

definition set_conf :: "(Config \<Rightarrow> Config) \<Rightarrow> 'w st \<Rightarrow> 'w st" where
  "set_conf f s = s\<lparr>conf := f (conf s)\<rparr>"

text \<open>Where the new text comes from: the secret, or the file.\<close>

definition refresh_content :: "'w lib \<Rightarrow> string \<Rightarrow> int \<Rightarrow> ('w st, string) M" where
  "refresh_content L secret mtime =
     (if secret \<noteq> [] then
        bind (modify (set_conf (\<lambda>c. c\<lparr>temporary := True\<rparr>))) (\<lambda>_. ret secret)
      else
        bind (modify (set_conf (\<lambda>c. c\<lparr>lastModTime := mtime, temporary := False\<rparr>))) (\<lambda>_.
        bind (gets (\<lambda>s. filePath (conf s))) (\<lambda>fp.
        attempt (os_ReadFile L fp)
          (\<lambda>e. throw (PlainErr (''Cannot read '' @ sq fp @ '' config file: '' @ errText L e)))
          ret)))"

definition refresh_load :: "'w lib \<Rightarrow> string \<Rightarrow> ('w st, unit) M" where
  "refresh_load L content =
     bind (gets conf) (\<lambda>c.
     case yamlUnmarshal L content (NsMap c, Debug c) of (e, m, d) \<Rightarrow>
       bind (modify (set_conf (\<lambda>c. c\<lparr>NsMap := m, Debug := d\<rparr>))) (\<lambda>_.
       case e of
         Some e \<Rightarrow> throw (PlainErr (''Cannot parse yaml in '' @ sq (filePath c) @
                                   '' config file: '' @ errText L e))
       | None \<Rightarrow> Validate L))"

definition Refresh :: "'w lib \<Rightarrow> string \<Rightarrow> ('w st, bool) M" where
  "Refresh L secret =
     bind (gets conf) (\<lambda>c.
     if filePath c = [] then
       throw (PlainErr ''Cannot read config file, filePath not specified'')
     else attempt (os_Stat L (filePath c))
       (\<lambda>e. throw (PlainErr (''Cannot get stats for '' @ sq (filePath c) @
                             '' config file: '' @ errText L e)))
       (\<lambda>mtime.
         let changed = (lastModTime c \<noteq> mtime \<or> length secret > 0 \<or> temporary c)
         in if changed then
              bind (refresh_content L secret mtime) (\<lambda>content.
              bind (refresh_load L content) (\<lambda>_. ret changed))
            else ret changed))"

section \<open>Finding the configuration file\<close>

text \<open>
  \<open>filepath.Walk\<close> with the callback of \<open>findConfigFile\<close>: a file with extension \<open>.yaml\<close> or
  \<open>.yml\<close> is remembered and answered with \<open>SkipDir\<close>, which ends the walk of the directory the
  file is in, and only of that one. \<open>None\<close> is a panic: the callback calls a method of the
  missing \<open>FileInfo\<close>. The pair is the remembered path and whether the call returned \<open>SkipDir\<close>.
\<close>

fun is_dir :: "fsnode \<Rightarrow> bool" where
  "is_dir (FsDir _) = True"
| "is_dir _ = False"

definition is_yaml :: "string \<Rightarrow> bool" where
  "is_yaml path \<longleftrightarrow> filepath_Ext path = ''.yaml'' \<or> filepath_Ext path = ''.yml''"

fun walk :: "string \<Rightarrow> fsnode \<Rightarrow> string \<Rightarrow> (string \<times> bool) option"
  and walk_list :: "string \<Rightarrow> (string \<times> fsnode) list \<Rightarrow> string \<Rightarrow> (string \<times> bool) option" where
  "walk path FsNoStat found = None"
| "walk path FsFile found = (if is_yaml path then Some (path, True) else Some (found, False))"
| "walk path (FsDir es) found = walk_list path es found"
| "walk_list path [] found = Some (found, False)"
| "walk_list path ((n, c) # es) found =
     (case walk (filepath_Join [path, n]) c found of
        None \<Rightarrow> None
      | Some (found', skip) \<Rightarrow>
          if skip \<and> \<not> is_dir c then Some (found', True) else walk_list path es found')"

definition findConfigFile :: "'w lib \<Rightarrow> string \<Rightarrow> ('w st, string) M" where
  "findConfigFile L lookUpDir =
     bind (ext_call (WalkCall lookUpDir) (fsTree L lookUpDir)) (\<lambda>t.
     case t of
       Inl e \<Rightarrow> panic
     | Inr node \<Rightarrow> (case walk lookUpDir node [] of None \<Rightarrow> panic | Some (p, _) \<Rightarrow> ret p))"

definition config_New :: "'w lib \<Rightarrow> string \<Rightarrow> ('w st, unit) M" where
  "config_New L lookUpDir =
     attempt (findConfigFile L lookUpDir)
       (\<lambda>e. throw (PlainErr (''Cannot read config directory '' @ sq lookUpDir @ '': '' @ errText L e)))
       (\<lambda>path.
         if path = [] then
           throw (PlainErr (''Cannot find .yaml config file in '' @ sq lookUpDir @ '' directory''))
         else
           bind (modify (set_conf (\<lambda>_. \<lparr>NsMap = [], Debug = False, filePath = path,
                                        lastModTime = 0, temporary = False\<rparr>))) (\<lambda>_.
           attempt (Refresh L [])
             (\<lambda>e. throw (PlainErr (''Cannot refresh config from file '' @ sq path @ '': '' @ errText L e)))
             (\<lambda>_. ret ())))"

section \<open>The address format, as a language\<close>

lemma match_host_port_iff: "match_host_port r \<longleftrightarrow>
    (\<exists>host port. r = host @ '':'' @ port \<and> host \<noteq> [] \<and> CHR '':'' \<notin> set host \<and>
       1 \<le> length port \<and> length port \<le> 5 \<and> list_all is_digit port)"
    (is "_ \<longleftrightarrow> (\<exists>host port. ?Q host port)")
proof
  let ?P = "\<lambda>c. c \<noteq> CHR '':''"
  assume m: "match_host_port r"
  then obtain c p where cp: "dropWhile ?P r = c # p"
      and port: "1 \<le> length p" "length p \<le> 5" "list_all is_digit p"
      and host: "takeWhile ?P r \<noteq> []"
    by (auto simp: match_host_port_def split: list.splits)
  from cp have "c = CHR '':''" by (metis (mono_tags, lifting) dropWhile_eq_Cons_conv)
  then have "r = takeWhile ?P r @ '':'' @ p"
    using cp by (metis append_Cons append_Nil takeWhile_dropWhile_id)
  moreover have "CHR '':'' \<notin> set (takeWhile ?P r)" by (auto dest: set_takeWhileD)
  ultimately show "\<exists>host port. ?Q host port" using host port by blast
next
  let ?P = "\<lambda>c. c \<noteq> CHR '':''"
  assume "\<exists>host port. ?Q host port"
  then obtain host p where r: "r = host @ CHR '':'' # p" and q: "?Q host p" by auto
  then have "\<forall>x \<in> set host. ?P x" by auto
  then have "takeWhile ?P r = host" and "dropWhile ?P r = CHR '':'' # p"
    by (simp_all add: r takeWhile_append2 dropWhile_append2)
  with q show "match_host_port r" by (simp add: match_host_port_def)
qed

text \<open>C32: The address check accepts exactly the strings of the form
  \<open>http[s]://host:port\<close> with a non-empty host without a colon and one to five digits of port.\<close>

theorem regexpAddress_match_iff:
  "regexpAddress_match s \<longleftrightarrow>
    (\<exists>sch host port. s = sch @ ''://'' @ host @ '':'' @ port \<and> sch \<in> {''http'', ''https''} \<and>
       host \<noteq> [] \<and> CHR '':'' \<notin> set host \<and>
       1 \<le> length port \<and> length port \<le> 5 \<and> list_all is_digit port)"
  (is "_ \<longleftrightarrow> (\<exists>sch host port. ?S sch host port)")
proof
  assume "regexpAddress_match s"
  then consider r where "s = ''https'' @ ''://'' @ r" "match_host_port r"
    | r where "s = ''http'' @ ''://'' @ r" "match_host_port r"
    by (auto simp: regexpAddress_match_def prefix_def)
  then show "\<exists>sch host port. ?S sch host port"
    by cases (unfold match_host_port_iff, blast+)
next
  assume "\<exists>sch host port. ?S sch host port"
  then obtain sch host port where s: "?S sch host port" by blast
  then have "match_host_port (host @ '':'' @ port)" unfolding match_host_port_iff by blast
  with s show "regexpAddress_match s" by (auto simp: regexpAddress_match_def)
qed

section \<open>What Validate accepts\<close>

definition ns_valid :: "NsData \<Rightarrow> bool" where
  "ns_valid d \<longleftrightarrow>
     Address d \<noteq> [] \<and> list_all regexpAddress_match (strings_Split (Address d) '','') \<and>
     Username d \<noteq> [] \<and> Password d \<noteq> [] \<and>
     (case DynamicTargetLunAllocation d of
        None \<Rightarrow> False
      | Some dynamic \<Rightarrow> dynamic \<or> DefaultTarget d \<noteq> [] \<and> DefaultTargetGroup d \<noteq> [])"

text \<open>An entry after \<open>Validate\<close>: \<open>InsecureSkipVerify\<close> defaults to true.\<close>

definition with_default :: "NsData \<Rightarrow> NsData" where
  "with_default d = (if InsecureSkipVerify d = None then d\<lparr>InsecureSkipVerify := Some True\<rparr> else d)"

fun fill_defaults :: "(string \<times> NsData) list \<Rightarrow> NsData gomap \<Rightarrow> NsData gomap" where
  "fill_defaults [] m = m"
| "fill_defaults ((k, d) # es) m =
     fill_defaults es (if InsecureSkipVerify d = None
                       then AList.update k (d\<lparr>InsecureSkipVerify := Some True\<rparr>) m else m)"

lemma validate_entry_valid:
  "(\<exists>es. validate_entry k d s = (Ret es, s) \<and> es = []) \<longleftrightarrow> ns_valid d"
  by (auto simp: validate_entry_def ns_valid_def address_errors_def run_simps Let_def
      list_all_iff filter_empty_conv split: option.splits)

lemma validate_entry_state: "snd (validate_entry k d s) = s"
  by (simp add: validate_entry_def run_simps Let_def split: option.splits)

lemma validate_entry_Panic:
  "fst (validate_entry k d s) = Panic \<longleftrightarrow> DynamicTargetLunAllocation d = None"
  by (simp add: validate_entry_def run_simps Let_def split: option.splits)

lemma validate_entry_not_Fail: "fst (validate_entry k d s) \<noteq> Fail e \<and> fst (validate_entry k d s) \<noteq> NoFuel"
  by (simp add: validate_entry_def run_simps Let_def split: option.splits)

lemma validate_step_Ret: "validate_step (k, d) s = (Ret u, t) \<longleftrightarrow>
    ns_valid d \<and> t = set_NsMap (fill_defaults [(k, d)] (NsMap (conf s))) s"
proof -
  obtain r where r: "validate_entry k d s = (r, s)"
    by (metis prod.collapse validate_entry_state)
  show ?thesis
  proof (cases r)
    case (Ret es)
    have "ns_valid d \<longleftrightarrow> es = []" using validate_entry_valid [of k d s] r Ret by auto
    then show ?thesis using r Ret
      by (auto simp: validate_step_def run_simps set_NsMap_def)
  next
    case (Fail e)
    then show ?thesis using validate_entry_not_Fail [of k d s e] r by simp
  next
    case Panic
    then show ?thesis using validate_entry_valid [of k d s] r
      by (auto simp: validate_step_def run_simps)
  next
    case NoFuel
    then show ?thesis using validate_entry_not_Fail [of k d s] r by simp
  qed
qed

lemma validate_loop_Ret: "forM es validate_step s = (Ret u, t) \<longleftrightarrow>
    (\<forall>(k, d) \<in> set es. ns_valid d) \<and> t = set_NsMap (fill_defaults es (NsMap (conf s))) s"
proof (induction es arbitrary: s)
  case Nil
  then show ?case by (auto simp: ran set_NsMap_def)
next
  case (Cons e es)
  obtain k d where e: "e = (k, d)" by (cases e)
  have "forM (e # es) validate_step s = (Ret u, t) \<longleftrightarrow>
      (\<exists>v. validate_step (k, d) s = (Ret (), v) \<and> forM es validate_step v = (Ret u, t))"
    by (auto simp: e bind_Ret_iff)
  then show ?case unfolding validate_step_Ret Cons.IH
    by (auto simp: e set_NsMap_def)
qed

lemma map_of_fill_defaults:
  "distinct (map fst es) \<Longrightarrow> map_of (fill_defaults es m) k =
    (case map_of es k of
       Some d \<Rightarrow> if InsecureSkipVerify d = None then Some (with_default d) else map_of m k
     | None \<Rightarrow> map_of m k)"
proof (induction es m rule: fill_defaults.induct)
  case (1 m)
  then show ?case by simp
next
  case (2 k' d es m)
  then have "map_of es k' = None" by (simp add: map_of_eq_None_iff)
  with 2 show ?case
    by (auto simp: with_default_def update_conv' split: option.splits)
qed

lemma map_of_fill_entries:
  "map_of (fill_defaults (entries n m) m) k = map_option with_default (map_of m k)"
proof -
  show ?thesis using distinct_entries [of n m]
    by (auto simp: map_of_fill_defaults with_default_def split: option.splits)
qed

lemma Validate_Ret: "Validate L s = (Ret u, t) \<longleftrightarrow>
    (\<forall>k d. map_of (NsMap (conf s)) k = Some d \<longrightarrow> ns_valid d) \<and>
    t = set_NsMap (fill_defaults (entries (fst (mapSeed L (world s))) (NsMap (conf s))) (NsMap (conf s)))
          (s\<lparr>world := snd (mapSeed L (world s))\<rparr>)"
proof -
  let ?es = "entries (fst (mapSeed L (world s))) (NsMap (conf s))"
  have "(\<forall>(k, d) \<in> set ?es. ns_valid d) \<longleftrightarrow>
      (\<forall>k d. map_of (NsMap (conf s)) k = Some d \<longrightarrow> ns_valid d)"
    using set_entries [of _ _ "fst (mapSeed L (world s))" "NsMap (conf s)"] by fast
  then show ?thesis
    by (auto simp: Validate_def ran validate_loop_Ret)
qed

text \<open>\<open>Validate\<close> succeeds exactly when every entry of the map is valid, whatever order the
  runtime visits the map in.\<close>

theorem Validate_accepts:
  "(\<exists>t. Validate L s = (Ret (), t)) \<longleftrightarrow>
    (\<forall>name d. map_of (NsMap (conf s)) name = Some d \<longrightarrow> ns_valid d)"
  by (simp add: Validate_Ret)

text \<open>After a successful \<open>Validate\<close> every entry is the one that was loaded with
  \<open>InsecureSkipVerify\<close> set (to true where it was not given), so that later dereferences of that
  pointer are safe; nothing else of the configuration changes.\<close>

theorem Validate_fills:
  assumes "Validate L s = (Ret (), t)"
  shows "map_of (NsMap (conf t)) name = map_option with_default (map_of (NsMap (conf s)) name) \<and>
    (conf t)\<lparr>NsMap := NsMap (conf s)\<rparr> = conf s"
  using assms by (auto simp: Validate_Ret set_NsMap_def map_of_fill_entries)

lemma with_default_given: "InsecureSkipVerify (with_default d) \<noteq> None"
  by (auto simp: with_default_def)

lemma with_default_valid: "ns_valid (with_default d) = ns_valid d"
  by (simp add: with_default_def ns_valid_def split: option.splits)

text \<open>What \<open>Validate\<close> leaves alone, whatever its outcome.\<close>

definition conf_rest :: "'w st \<Rightarrow> string \<times> int \<times> bool \<times> bool" where
  "conf_rest s = (filePath (conf s), lastModTime (conf s), temporary (conf s), Debug (conf s))"

lemma keeps_Validate_rest: "keeps (same conf_rest) (Validate L)"
  unfolding Validate_def validate_step_def
  by (intro unchanged.frame_rules keeps_cases unchanged.keeps_modify)
    (auto simp: keeps_def goRange_def validate_entry_state same_def conf_rest_def set_NsMap_def
      split: prod.splits)

lemmas config_eval = Refresh_def refresh_content_def refresh_load_def Validate_def
  validate_step_def validate_entry_def address_errors_def not_passed_def sq_def
  regexpAddress_match_def match_host_port_def is_digit_def entries_def os_Stat_def os_ReadFile_def
  set_NsMap_def set_conf_def run_simps

section \<open>Refresh as a state machine\<close>

lemma Refresh_no_path:
  "filePath (conf s) = [] \<Longrightarrow> fst (Refresh L secret s) =
     Fail (PlainErr ''Cannot read config file, filePath not specified'')"
  by (simp add: Refresh_def run_simps)

lemma os_Stat_run: "os_Stat L p s = (case osStat L p (world s) of
    (Inl e, w) \<Rightarrow> (Fail e, s\<lparr>world := w, trace := trace s @ [StatCall p]\<rparr>)
  | (Inr t, w) \<Rightarrow> (Ret t, s\<lparr>world := w, trace := trace s @ [StatCall p]\<rparr>))"
  by (simp add: os_Stat_def run_simps split: prod.splits sum.splits)

text \<open>An unchanged file, no secret, no temporary configuration: nothing is read.\<close>

lemma Refresh_unchanged:
  assumes "filePath (conf s) \<noteq> []" and "osStat L (filePath (conf s)) (world s) = (Inr m, w)"
    and "lastModTime (conf s) = m" and "\<not> temporary (conf s)"
  shows "Refresh L [] s = (Ret False, s\<lparr>world := w, trace := trace s @ [StatCall (filePath (conf s))]\<rparr>)"
  using assms by (simp add: Refresh_def run_simps os_Stat_run)

lemma refresh_load_rest: "keeps (same (\<lambda>s. (filePath (conf s), lastModTime (conf s), temporary (conf s)))) (refresh_load L c)"
proof -
  have "keeps (same (\<lambda>s. (filePath (conf s), lastModTime (conf s), temporary (conf s)))) (Validate L)"
    using keeps_Validate_rest [of L] by (simp add: keeps_def same_def conf_rest_def)
  then show ?thesis unfolding refresh_load_def
    by (intro unchanged.frame_rules keeps_cases unchanged.keeps_modify)
      (simp_all add: same_def set_conf_def)
qed

abbreviation refresh_view :: "'w st \<Rightarrow> string \<times> int \<times> bool" where
  "refresh_view s \<equiv> (filePath (conf s), lastModTime (conf s), temporary (conf s))"

lemma refresh_content_file:
  "refresh_view (snd (refresh_content L [] m s)) = (filePath (conf s), m, False)"
  by (simp add: refresh_content_def run_simps os_ReadFile_def set_conf_def
      split: prod.splits sum.splits)

lemma refresh_content_secret:
  "secret \<noteq> [] \<Longrightarrow> refresh_content L secret m s = (Ret secret, set_conf (\<lambda>c. c\<lparr>temporary := True\<rparr>) s)"
  by (simp add: refresh_content_def run_simps)

text \<open>The state after a refresh from the file that got as far as the new modification time.\<close>

lemma Refresh_file_rest:
  assumes "filePath (conf s) \<noteq> []" and "osStat L (filePath (conf s)) (world s) = (Inr m, w)"
    and "Refresh L [] s = (r, t)"
  shows "refresh_view t = (filePath (conf s), m, False)"
proof (cases "lastModTime (conf s) = m \<and> \<not> temporary (conf s)")
  case True
  then show ?thesis using assms by (auto simp: Refresh_unchanged)
next
  case False
  let ?s1 = "s\<lparr>world := w, trace := trace s @ [StatCall (filePath (conf s))]\<rparr>"
  obtain r1 u where c: "refresh_content L [] m ?s1 = (r1, u)" by fastforce
  then have u: "refresh_view u = (filePath (conf s), m, False)"
    using refresh_content_file [of L m ?s1] by simp
  have run: "bind (refresh_content L [] m) (\<lambda>c. bind (refresh_load L c) (\<lambda>_. ret True)) ?s1 = (r, t)"
    using assms False by (auto simp: Refresh_def run_simps os_Stat_run)
  show ?thesis
  proof (cases r1)
    case (Ret content)
    have "refresh_view (snd (refresh_load L content u)) = refresh_view u"
      using refresh_load_rest [of L content] by (simp add: keeps_def same_def)
    moreover have "t = snd (refresh_load L content u)"
      using run c Ret by (auto simp: run_simps split: prod.splits outcome.splits)
    ultimately show ?thesis using u by simp
  qed (use run c u in \<open>auto simp: run_simps\<close>)
qed

text \<open>C34: A refresh that fails is not repeated. Once the file has been looked at, its modification
  time is remembered even when its text cannot be read, parsed or validated; the next refresh
  without a secret finds the same time and answers "unchanged" without an error, with whatever
  the failed refresh left in memory.\<close>

theorem Refresh_forgets_failure:
  assumes "filePath (conf s) \<noteq> []"
    and "osStat L (filePath (conf s)) (world s) = (Inr m, w)"
    and "Refresh L [] s = (Fail e, t)"
    and "osStat L (filePath (conf s)) (world t) = (Inr m, w')"
  shows "fst (Refresh L [] t) = Ret False"
  using Refresh_file_rest [OF assms(1,2,3)] assms(1,4) by (simp add: Refresh_unchanged)

lemma Refresh_loaded:
  assumes "Refresh L secret s = (Ret True, t)" and d: "map_of (NsMap (conf t)) name = Some d"
  shows "ns_valid d \<and> InsecureSkipVerify d \<noteq> None"
proof -
  from assms(1) obtain c u v where "refresh_load L c u = (Ret v, t)"
    by (auto simp: Refresh_def ran Let_def split: if_splits)
  then obtain u' where V: "Validate L u' = (Ret v, t)"
    by (auto simp: refresh_load_def ran split: prod.splits option.splits)
  from V d obtain d' where "map_of (NsMap (conf u')) name = Some d'" "d = with_default d'"
    by (auto simp: Validate_Ret set_NsMap_def map_of_fill_entries)
  moreover from V this(1) have "ns_valid d'" by (auto simp: Validate_Ret)
  ultimately show ?thesis by (simp add: with_default_valid with_default_given)
qed

text \<open>C33: When a refresh answers "changed", every entry of the configuration is valid and
  its \<open>InsecureSkipVerify\<close> pointer is set.\<close>

theorem Refresh_valid:
  assumes "Refresh L secret s = (Ret True, t)" and "map_of (NsMap (conf t)) name = Some d"
  shows "ns_valid d \<and> InsecureSkipVerify d \<noteq> None"
  by (rule Refresh_loaded [OF assms])

theorem Refresh_forgets_failure_witness:
  "\<exists>e t. Refresh sim_lib [] (sim_process [] ''bad'' 0) = (Fail e, t) \<and> fst (Refresh sim_lib [] t) = Ret False"
proof -
  let ?s = "sim_process [] ''bad'' 0"
  obtain e t where run: "Refresh sim_lib [] ?s = (Fail e, t)" 
     and w: "world t = world ?s"
    by (simp add: config_eval sim_defs)
  moreover have "fst (Refresh sim_lib [] t) = Ret False"
    by (rule Refresh_forgets_failure [OF _ _ run]) (simp_all add: w sim_defs)
  ultimately show ?thesis by blast
qed

theorem Refresh_valid_witness:
  "\<exists>t d. Refresh sim_lib [] (sim_process [] ''good'' 0) = (Ret True, t) \<and>
    map_of (NsMap (conf t)) ''a'' = Some d \<and> ns_valid d \<and> InsecureSkipVerify d \<noteq> None"
proof -
  obtain t d where "Refresh sim_lib [] (sim_process [] ''good'' 0) = (Ret True, t)"
    and "map_of (NsMap (conf t)) ''a'' = Some d"
    by (simp add: config_eval sim_defs)
  then show ?thesis using Refresh_valid by blast
qed

theorem Validate_fills_witness:
  "\<exists>t. Validate sim_lib (sim_process [(''a'', sim_data\<lparr>InsecureSkipVerify := None\<rparr>)] ''good'' 0) = (Ret (), t) \<and>
    map_of (NsMap (conf t)) ''a'' = Some sim_data"
proof -
  obtain t where run:
    "Validate sim_lib (sim_process [(''a'', sim_data\<lparr>InsecureSkipVerify := None\<rparr>)] ''good'' 0) = (Ret (), t)"
    by (simp add: config_eval sim_defs)
  from Validate_fills [OF run, of "''a''"] run show ?thesis
    by (simp add: with_default_def sim_process_def sim_data_def zeroNsData_def)
qed

section \<open>Panics of Validate\<close>

lemma validate_loop_Panic:
  assumes "\<And>k d. (k, d) \<in> set es \<Longrightarrow> ns_valid d \<or> DynamicTargetLunAllocation d = None"
    and "\<exists>(k, d) \<in> set es. DynamicTargetLunAllocation d = None"
  shows "fst (forM es validate_step s) = Panic"
  using assms
proof (induction es arbitrary: s)
  case Nil
  then show ?case by simp
next
  case (Cons e es)
  obtain k d where e: "e = (k, d)" by (cases e)
  show ?case
  proof (cases "DynamicTargetLunAllocation d = None")
    case True
    then show ?thesis
      by (simp add: e validate_step_def validate_entry_def run_simps)
  next
    case False
    with Cons.prems(1) [of k d] have "ns_valid d" by (simp add: e)
    then obtain t where t: "validate_step (k, d) s = (Ret (), t)"
      by (simp add: validate_step_Ret)
    have "fst (forM es validate_step t) = Panic"
    proof (rule Cons.IH)
      show "ns_valid d' \<or> DynamicTargetLunAllocation d' = None" if "(k', d') \<in> set es" for k' d'
        using Cons.prems(1) [of k' d'] that by simp
      show "\<exists>(k, d) \<in> set es. DynamicTargetLunAllocation d = None"
        using Cons.prems(2) False by (auto simp: e)
    qed
    with t show ?thesis by (simp add: e run_simps)
  qed
qed

text \<open>C37: A missing \<open>dynamicTargetLunAllocation\<close> is not reported: when it is the only fault of a
  configuration, in one entry or in several, \<open>Validate\<close> ends in a nil dereference whatever the
  order of the entries.\<close>

theorem Validate_missing_dynamic_panics:
  assumes "\<And>name d. map_of (NsMap (conf s)) name = Some d \<Longrightarrow>
      ns_valid d \<or> DynamicTargetLunAllocation d = None"
    and "map_of (NsMap (conf s)) bad = Some d'" and "DynamicTargetLunAllocation d' = None"
  shows "fst (Validate L s) = Panic"
proof -
  let ?es = "entries (fst (mapSeed L (world s))) (NsMap (conf s))"
  have "fst (forM ?es validate_step (s\<lparr>world := snd (mapSeed L (world s))\<rparr>)) = Panic"
    using assms by (intro validate_loop_Panic) (force simp: set_entries)+
  then show ?thesis by (simp add: Validate_def run_simps)
qed

theorem Validate_missing_dynamic_panics_witness:
  "fst (Validate sim_lib (sim_process [(''a'', sim_data\<lparr>DynamicTargetLunAllocation := None\<rparr>)] ''good'' 0)) = Panic"
  by (rule Validate_missing_dynamic_panics [where bad = "''a''"])
    (auto simp: sim_process_def sim_data_def split: if_splits)

section \<open>Secrets\<close>

text \<open>A refresh with a secret loads that text and marks the configuration temporary, so the
  next refresh without a secret never answers "unchanged": it goes back to the file. The
  modification time that was remembered is not touched.\<close>

theorem Refresh_secret_is_temporary:
  assumes "secret \<noteq> []" and "Refresh L secret s = (Ret b, t)"
  shows "b \<and> temporary (conf t) \<and> lastModTime (conf t) = lastModTime (conf s) \<and>
    fst (Refresh L [] t) \<noteq> Ret False"
proof -
  from assms(2) have fp: "filePath (conf s) \<noteq> []" by (auto simp: Refresh_def ran split: if_splits)
  with assms obtain m w where st: "osStat L (filePath (conf s)) (world s) = (Inr m, w)"
    by (auto simp: Refresh_def run_simps os_Stat_run split: prod.splits sum.splits)
  let ?u = "set_conf (\<lambda>c. c\<lparr>temporary := True\<rparr>)
    (s\<lparr>world := w, trace := trace s @ [StatCall (filePath (conf s))]\<rparr>)"
  have run: "bind (refresh_load L secret) (\<lambda>_. ret True) ?u = (Ret b, t)"
    using assms fp st by (simp add: Refresh_def run_simps os_Stat_run refresh_content_secret)
  then have b: "b" and l: "refresh_load L secret ?u = (Ret (), t)" by (auto simp: ran)
  have "refresh_view t = refresh_view ?u"
    using keepsD [OF refresh_load_rest l] by (simp add: same_def)
  then have view: "temporary (conf t)" "lastModTime (conf t) = lastModTime (conf s)"
    by (simp_all add: set_conf_def)
  moreover have "fst (Refresh L [] t) \<noteq> Ret False"
  proof
    assume "fst (Refresh L [] t) = Ret False"
    then obtain v where "Refresh L [] t = (Ret False, v)" by (metis prod.collapse)
    then show False using view(1) by (auto simp: Refresh_def ran split: if_splits)
  qed
  ultimately show ?thesis using b by simp
qed

theorem Refresh_secret_is_temporary_witness:
  "\<exists>t. Refresh sim_lib ''good'' (sim_process [] ''bad'' 7) = (Ret True, t) \<and>
    temporary (conf t) \<and> fst (Refresh sim_lib [] t) \<noteq> Ret False"
proof -
  obtain t where run: "Refresh sim_lib ''good'' (sim_process [] ''bad'' 7) = (Ret True, t)"
    by (simp add: config_eval sim_defs)
  moreover have "''good'' \<noteq> ''''" by simp
  ultimately show ?thesis using Refresh_secret_is_temporary [OF _ run] by blast
qed

section \<open>Startup\<close>

lemma walk_yaml:
  "walk path node found = Some (p, b) \<Longrightarrow> p = found \<or> is_yaml p"
  "walk_list path es found = Some (p, b) \<Longrightarrow> p = found \<or> is_yaml p"
proof (induction path node found and path es found arbitrary: p b and p b rule: walk_walk_list.induct)
  case (5 path n c es found)
  then obtain q skip where w: "walk (filepath_Join [path, n]) c found = Some (q, skip)"
    by (auto split: option.splits)
  then have q: "q = found \<or> is_yaml q" by (rule "5.IH"(1))
  show ?case
  proof (cases "skip \<and> \<not> is_dir c")
    case True
    with "5.prems" w q show ?thesis by auto
  next
    case False
    with "5.prems" w have "walk_list path es q = Some (p, b)" by simp
    then have "p = q \<or> is_yaml p" using "5.IH"(2) [OF w refl False] by blast
    with q show ?thesis by auto
  qed
qed (auto split: if_splits)

text \<open>A driver that has started has a valid configuration, loaded from a file with the
  extension \<open>.yaml\<close> or \<open>.yml\<close>, and it remembers that file for later refreshes.\<close>

theorem config_New_valid:
  assumes "config_New L dir s = (Ret (), t)"
  shows "is_yaml (filePath (conf t)) \<and>
    (\<forall>name d. map_of (NsMap (conf t)) name = Some d \<longrightarrow>
       ns_valid d \<and> InsecureSkipVerify d \<noteq> None)"
proof -
  let ?c = "\<lambda>path. \<lparr>NsMap = [], Debug = False, filePath = path, lastModTime = 0, temporary = False\<rparr>"
  from assms obtain path u b where p: "findConfigFile L dir s = (Ret path, u)" "path \<noteq> []"
    and r: "Refresh L [] (set_conf (\<lambda>_. ?c path) u) = (Ret b, t)"
    by (auto simp: config_New_def ran split: if_splits)
  from p have "is_yaml path"
    by (auto simp: findConfigFile_def ran split: sum.splits option.splits prod.splits dest: walk_yaml(1))
  moreover from r obtain m w where st: "osStat L path (world (set_conf (\<lambda>_. ?c path) u)) = (Inr m, w)"
    using p(2) by (auto simp: Refresh_def run_simps os_Stat_run set_conf_def split: prod.splits sum.splits)
  ultimately have "is_yaml (filePath (conf t))"
    using Refresh_file_rest [OF _ _ r, of m w] p(2) by (simp add: set_conf_def)
  moreover have "b \<or> NsMap (conf t) = []"
    using r p(2) st by (auto simp: Refresh_def run_simps os_Stat_run set_conf_def Let_def
        split: if_splits prod.splits outcome.splits)
  ultimately show ?thesis using Refresh_loaded [of L "[]" _ t] r by (cases b) auto
qed

theorem config_New_valid_witness:
  "\<exists>t. config_New (sim_lib\<lparr>osStat := (\<lambda>p w. (Inr 7, w)), osReadFile := (\<lambda>p w. (Inr ''good'', w))\<rparr>)
      ''/config'' (sim_process [] [] 0) = (Ret (), t) \<and> is_yaml (filePath (conf t))"
proof -
  obtain t where "config_New (sim_lib\<lparr>osStat := (\<lambda>p w. (Inr 7, w)), osReadFile := (\<lambda>p w. (Inr ''good'', w))\<rparr>)
      ''/config'' (sim_process [] [] 0) = (Ret (), t)"
    by (simp add: config_New_def findConfigFile_def config_eval sim_defs filepath_Join_def
        filepath_Clean_def is_yaml_def filepath_Ext_def)
  with config_New_valid show ?thesis by blast
qed

end
