(* ===== verification/Identity.thy ===== *)
theory Identity
  imports ConfigPkg
begin

text \<open>
  \<open>pkg/driver/identityServer.go\<close>. The identity server holds a pointer to the configuration object
  of the driver, the same object the controller and node servers hold; \<open>Probe\<close> refreshes it.
\<close>

definition DriverName :: string where
  "DriverName = ''nexentastor-block-csi-driver.nexenta.com''"

record GetPluginInfoResponse =
  pi_Name :: string
  pi_VendorVersion :: string

text \<open>\<open>version\<close> is the package variable \<open>Version\<close>, set by the linker.\<close>

definition GetPluginInfo :: "string \<Rightarrow> ('w st, GetPluginInfoResponse) M" where
  "GetPluginInfo version = ret \<lparr>pi_Name = DriverName, pi_VendorVersion = version\<rparr>"

definition cannot_use_config :: "'w lib \<Rightarrow> error \<Rightarrow> string" where
  "cannot_use_config L e = ''Cannot use config file: '' @ errText L e"

definition Probe :: "'w lib \<Rightarrow> ('w st, unit) M" where
  "Probe L = attempt (Refresh L [])
     (\<lambda>e. throw (StatusErr FailedPrecondition (cannot_use_config L e)))
     (\<lambda>_. ret ())"

datatype PluginCapability = Service_CONTROLLER_SERVICE
  | Service_VOLUME_ACCESSIBILITY_CONSTRAINTS | VolumeExpansion_ONLINE

definition GetPluginCapabilities :: "('w st, PluginCapability list) M" where
  "GetPluginCapabilities = ret [Service_CONTROLLER_SERVICE,
     Service_VOLUME_ACCESSIBILITY_CONSTRAINTS, VolumeExpansion_ONLINE]"

end
