(* ===== verification/ControllerResolve.thy ===== *)
theory ControllerResolve
  imports Identity
begin

text \<open>
  The part of \<open>pkg/driver/controllerServer.go\<close> every handler starts with: reading the secret,
  refreshing the configuration and its resolvers (\<open>refreshConfig\<close>, \<open>NewControllerServer\<close>), and
  finding the appliance for a request (\<open>resolveNS\<close>, \<open>resolveNSNoZone\<close>, \<open>resolveNSWithZone\<close>).

  The locale \<open>config_client\<close> is the contract of a server's \<open>refreshConfig\<close>, shared by the
  controller server (interpreted here) and the node server.
\<close>

section \<open>Refreshing the configuration\<close>

text \<open>\<open>for _, v := range secrets { secret = v }\<close>\<close>

definition last_secret :: "(string \<times> string) list \<Rightarrow> string" where
  "last_secret es = foldl (\<lambda>_ (k, v). v) [] es"

definition pick_secret :: "'w lib \<Rightarrow> string gomap \<Rightarrow> ('w st, string) M" where
  "pick_secret L secrets = bind (goRange L secrets) (\<lambda>es. ret (last_secret es))"

definition resolver_args :: "NsData \<Rightarrow> bool \<Rightarrow> ResolverArgs" where
  "resolver_args cfg skip = \<lparr>ra_Address = Address cfg, ra_Username = Username cfg,
     ra_Password = Password cfg, ra_InsecureSkipVerify = skip\<rparr>"

definition resolver_error :: "'w lib \<Rightarrow> error \<Rightarrow> error" where
  "resolver_error L e = PlainErr (''Cannot create NexentaStor resolver: '' @ errText L e)"

text \<open>The body of the loop. The pointer returned by \<open>ns.NewResolver\<close> is dereferenced before the
  error is looked at.\<close>

definition ctrl_refresh_step :: "'w lib \<Rightarrow> string \<times> NsData \<Rightarrow> ('w st, unit) M" where
  "ctrl_refresh_step L = (\<lambda>(name, cfg).
     deref (InsecureSkipVerify cfg) (\<lambda>skip.
     bind (ns_NewResolver L (resolver_args cfg skip)) (\<lambda>(r, err).
     deref r (\<lambda>r.
     bind (modify (\<lambda>s. s\<lparr>ctrlResolvers := AList.update name r (ctrlResolvers s)\<rparr>)) (\<lambda>_.
     case err of None \<Rightarrow> ret () | Some e \<Rightarrow> throw (resolver_error L e))))))"

definition ctrl_refreshConfig :: "'w lib \<Rightarrow> string \<Rightarrow> ('w st, unit) M" where
  "ctrl_refreshConfig L secret =
     bind (Refresh L secret) (\<lambda>changed.
     if changed then
       bind (gets (\<lambda>s. NsMap (conf s))) (\<lambda>m.
       bind (goRange L m) (\<lambda>es.
       forM es (ctrl_refresh_step L)))
     else ret ())"

text \<open>\<open>NewControllerServer\<close> builds the resolver map afresh and checks the error first.\<close>

definition new_ctrl_step ::
    "'w lib \<Rightarrow> resolver gomap \<Rightarrow> string \<times> NsData \<Rightarrow> ('w st, resolver gomap) M" where
  "new_ctrl_step L m = (\<lambda>(name, cfg).
     deref (InsecureSkipVerify cfg) (\<lambda>skip.
     bind (ns_NewResolver L (resolver_args cfg skip)) (\<lambda>(r, err).
     case err of
       Some e \<Rightarrow> throw (resolver_error L e)
     | None \<Rightarrow> deref r (\<lambda>r. ret (AList.update name r m)))))"

definition NewControllerServer :: "'w lib \<Rightarrow> ('w st, unit) M" where
  "NewControllerServer L =
     bind (gets (\<lambda>s. NsMap (conf s))) (\<lambda>m.
     bind (goRange L m) (\<lambda>es.
     bind (foldM (new_ctrl_step L) [] es) (\<lambda>rm.
     modify (\<lambda>s. s\<lparr>ctrlResolvers := rm\<rparr>))))"

section \<open>Finding the appliance\<close>

record ResolveNSParams =
  rp_volumeGroup :: string
  rp_zone :: string
  rp_configName :: string

record ResolveNSResponse =
  rr_volumeGroup :: string
  rr_nsProvider :: "provider option"
  rr_configName :: string

text \<open>\<open>%+v\<close> of the parameters.\<close>

definition show_params :: "ResolveNSParams \<Rightarrow> string" where
  "show_params ps = ''{volumeGroup:'' @ rp_volumeGroup ps @ '' zone:'' @ rp_zone ps @
     '' configName:'' @ rp_configName ps @ ''}''"

text \<open>What both functions do after their loops: \<open>err\<close> is the error of the last iteration, and its
  text is read without a nil check.\<close>

definition resolve_give_up :: "'w lib \<Rightarrow> ResolveNSParams \<Rightarrow> error option \<Rightarrow> ('w st, 'a) M" where
  "resolve_give_up L ps err = deref err (\<lambda>e.
     if strings_Contains (errText L e) ''unknown authority'' then
       throw (StatusErr Unauthenticated (sprintf0 L (''TLS certificate check error: '' @ errText L e)))
     else
       throw (StatusErr NotFound (sprintf0 L (''No nsProvider found for params: '' @ show_params ps))))"

text \<open>\<open>s.nsResolverMap[name]\<close>: the zero resolver where the name is missing.\<close>

definition ctrl_resolver :: "'w lib \<Rightarrow> 'w st \<Rightarrow> string \<Rightarrow> resolver" where
  "ctrl_resolver L s name =
     (case map_of (ctrlResolvers s) name of None \<Rightarrow> zeroResolver L | Some r \<Rightarrow> r)"

text \<open>The branch with a configuration name, the same in both functions.\<close>

definition resolve_named :: "'w lib \<Rightarrow> Config \<Rightarrow> ResolveNSParams \<Rightarrow> ('w st, ResolveNSResponse) M" where
  "resolve_named L c ps =
     (let vg = (if rp_volumeGroup ps = [] then DefaultVolumeGroup (ns_data c (rp_configName ps))
                else rp_volumeGroup ps)
      in bind (gets (\<lambda>s. ctrl_resolver L s (rp_configName ps))) (\<lambda>r.
         bind (ns_ResolveFromVg L (Some r) vg) (\<lambda>(p, err).
         case err of
           Some e \<Rightarrow> throw e
         | None \<Rightarrow> ret \<lparr>rr_volumeGroup = vg, rr_nsProvider = p, rr_configName = rp_configName ps\<rparr>)))"

fun nozone_loop :: "'w lib \<Rightarrow> Config \<Rightarrow> ResolveNSParams \<Rightarrow> error option \<Rightarrow> (string \<times> resolver) list \<Rightarrow>
    ('w st, ResolveNSResponse) M" where
  "nozone_loop L c ps err [] = resolve_give_up L ps err"
| "nozone_loop L c ps err ((name, r) # es) =
     (let vg = (if rp_volumeGroup ps = [] then DefaultVolumeGroup (ns_data c name)
                else rp_volumeGroup ps)
      in bind (ns_ResolveFromVg L (Some r) vg) (\<lambda>(p, err').
         case p of
           Some _ \<Rightarrow> (case err' of
               None \<Rightarrow> ret \<lparr>rr_volumeGroup = vg, rr_nsProvider = p, rr_configName = name\<rparr>
             | Some e \<Rightarrow> throw e)
         | None \<Rightarrow> nozone_loop L c ps err' es))"

definition resolveNSNoZone :: "'w lib \<Rightarrow> ResolveNSParams \<Rightarrow> ('w st, ResolveNSResponse) M" where
  "resolveNSNoZone L ps =
     bind (gets conf) (\<lambda>c.
     if length (rp_configName ps) > 0 then resolve_named L c ps
     else bind (gets ctrlResolvers) (\<lambda>m. bind (goRange L m) (nozone_loop L c ps None)))"

text \<open>In the zoned loop the variable \<open>volumeGroup\<close> keeps the default it was first given.\<close>

fun zone_loop :: "'w lib \<Rightarrow> Config \<Rightarrow> ResolveNSParams \<Rightarrow> string \<Rightarrow> error option \<Rightarrow>
    (string \<times> resolver) list \<Rightarrow> ('w st, ResolveNSResponse) M" where
  "zone_loop L c ps vg err [] = resolve_give_up L ps err"
| "zone_loop L c ps vg err ((name, r) # es) =
     (if rp_zone ps = Zone (ns_data c name) then
        (let vg' = (if vg = [] then DefaultVolumeGroup (ns_data c name) else vg)
         in bind (ns_ResolveFromVg L (Some r) vg') (\<lambda>(p, err').
            case p of
              Some _ \<Rightarrow> ret \<lparr>rr_volumeGroup = vg', rr_nsProvider = p, rr_configName = name\<rparr>
            | None \<Rightarrow> zone_loop L c ps vg' err' es))
      else zone_loop L c ps vg err es)"

definition resolveNSWithZone :: "'w lib \<Rightarrow> ResolveNSParams \<Rightarrow> ('w st, ResolveNSResponse) M" where
  "resolveNSWithZone L ps =
     bind (gets conf) (\<lambda>c.
     if length (rp_configName ps) > 0 then
       if Zone (ns_data c (rp_configName ps)) \<noteq> rp_zone ps then
         throw (StatusErr FailedPrecondition (sprintf0 L (''requested zone ['' @ rp_zone ps @
           ''] does not match requested NexentaStor name ['' @ rp_configName ps @ '']'')))
       else resolve_named L c ps
     else bind (gets ctrlResolvers) (\<lambda>m.
       bind (goRange L m) (zone_loop L c ps (rp_volumeGroup ps) None)))"

definition resolve_failed :: "'w lib \<Rightarrow> string \<Rightarrow> error \<Rightarrow> error" where
  "resolve_failed L vg e =
     StatusErr (if IsNotExistNefError L e then NotFound else Internal)
       (''Cannot resolve '' @ sq vg @ '' on any NexentaStor(s): '' @ errText L e)"

definition resolveNS :: "'w lib \<Rightarrow> ResolveNSParams \<Rightarrow> ('w st, ResolveNSResponse) M" where
  "resolveNS L ps =
     attempt (if length (rp_zone ps) = 0 then resolveNSNoZone L ps else resolveNSWithZone L ps)
       (\<lambda>e. throw (resolve_failed L (rp_volumeGroup ps) e))
       ret"

section \<open>The contract of a server's refreshConfig\<close>

locale config_client =
  fixes refreshConfig :: "'w lib \<Rightarrow> string \<Rightarrow> ('w st, unit) M"
  assumes on_error: "Refresh L secret s = (Fail e, u) \<Longrightarrow> refreshConfig L secret s = (Fail e, u)"
    and on_unchanged: "Refresh L secret s = (Ret False, u) \<Longrightarrow> refreshConfig L secret s = (Ret (), u)"
    and on_changed: "Refresh L secret s = (Ret True, u) \<Longrightarrow> conf (snd (refreshConfig L secret s)) = conf u"
    and only_if_refreshed: "refreshConfig L secret s = (Ret (), t) \<Longrightarrow> \<exists>b u. Refresh L secret s = (Ret b, u)"
begin

text \<open>After a change was found, a refresh that succeeds leaves a valid configuration.\<close>

lemma valid_after_change:
  assumes "Refresh L secret s = (Ret True, u)" and "refreshConfig L secret s = (Ret (), t)"
    and "map_of (NsMap (conf t)) name = Some d"
  shows "ns_valid d \<and> InsecureSkipVerify d \<noteq> None"
  using on_changed [OF assms(1)] assms Refresh_loaded [OF assms(1)] by simp

text \<open>
  A change that another server of the process has already picked up is invisible: the resolver maps
  stay as they were before the other server's refresh.
\<close>

lemma stale_after_foreign_refresh:
  assumes fp: "filePath (conf s) \<noteq> []" and st: "osStat L (filePath (conf s)) (world s) = (Inr m, w)"
    and other: "Refresh L [] s = (r, t)"
    and st': "osStat L (filePath (conf s)) (world t) = (Inr m, w')"
  shows "\<exists>u. refreshConfig L [] t = (Ret (), u) \<and> conf u = conf t \<and>
    ctrlResolvers u = ctrlResolvers t \<and> nodeResolvers u = nodeResolvers t"
proof -
  have "refresh_view t = (filePath (conf s), m, False)"
    by (rule Refresh_file_rest [OF fp st other])
  then have "Refresh L [] t =
      (Ret False, t\<lparr>world := w', trace := trace t @ [StatCall (filePath (conf t))]\<rparr>)"
    using fp st' by (simp add: Refresh_unchanged)
  from on_unchanged [OF this] show ?thesis by simp
qed

end

text \<open>\<open>Refresh\<close> itself touches no resolver map.\<close>

definition resolver_maps :: "'w st \<Rightarrow> resolver gomap \<times> resolver option gomap" where
  "resolver_maps s = (ctrlResolvers s, nodeResolvers s)"

lemma internal_resolver_maps:
  "keeps (same internal_state) m \<Longrightarrow> keeps (same resolver_maps) m"
  by (simp add: keeps_def same_def internal_state_def resolver_maps_def)

lemma internal_conf: "keeps (same internal_state) m \<Longrightarrow> keeps (same conf) m"
  by (simp add: keeps_def same_def internal_state_def)

lemma keeps_Refresh_maps: "keeps (same resolver_maps) (Refresh L secret)"
proof -
  have V: "keeps (same resolver_maps) (Validate L)"
    unfolding Validate_def validate_step_def
    by (intro unchanged.frame_rules keeps_cases unchanged.keeps_modify)
      (auto simp: keeps_def goRange_def validate_entry_state same_def resolver_maps_def set_NsMap_def
        split: prod.splits)
  have R: "keeps (same resolver_maps) (os_ReadFile L p)" for p
    by (intro internal_resolver_maps internal_rules)
  have S: "keeps (same resolver_maps) (os_Stat L p)" for p
    by (intro internal_resolver_maps internal_rules)
  show ?thesis
    unfolding Refresh_def refresh_content_def refresh_load_def
    by (intro unchanged.frame_rules keeps_cases unchanged.keeps_modify V R S)
      (simp_all add: same_def resolver_maps_def set_conf_def)
qed

lemma Probe_run:
  "Probe L s = (Ret (), t) \<Longrightarrow> \<exists>b. Refresh L [] s = (Ret b, t)"
  by (auto simp: Probe_def ran)

lemma keeps_ctrl_step_conf: "keeps (same conf) (ctrl_refresh_step L e)"
proof -
  have "keeps (same conf) (ns_NewResolver L a)" for a
    by (intro internal_conf internal_rules)
  then show ?thesis unfolding ctrl_refresh_step_def
    by (intro unchanged.frame_rules keeps_cases unchanged.keeps_modify) (simp_all add: same_def)
qed

lemma ctrl_refresh_after:
  assumes "Refresh L secret s = (Ret True, u)"
  shows "conf (snd (ctrl_refreshConfig L secret s)) = conf u"
proof -
  have g: "keeps (same conf) (goRange L m)" for m :: "NsData gomap"
    by (intro internal_conf internal_rules)
  have "keeps (same conf) (bind (gets (\<lambda>s. NsMap (conf s))) (\<lambda>m.
       bind (goRange L m) (\<lambda>es. forM es (ctrl_refresh_step L))))"
    by (intro unchanged.frame_rules g keeps_ctrl_step_conf)
  then show ?thesis using assms
    by (simp add: ctrl_refreshConfig_def run_bind [of "Refresh L secret"] keeps_def same_def)
qed

interpretation ctrl: config_client ctrl_refreshConfig
proof
  fix L :: "'w lib" and secret s e u t
  show "Refresh L secret s = (Fail e, u) \<Longrightarrow> ctrl_refreshConfig L secret s = (Fail e, u)"
    by (simp add: ctrl_refreshConfig_def run_simps)
  show "Refresh L secret s = (Ret False, u) \<Longrightarrow> ctrl_refreshConfig L secret s = (Ret (), u)"
    by (simp add: ctrl_refreshConfig_def run_simps)
  show "Refresh L secret s = (Ret True, u) \<Longrightarrow> conf (snd (ctrl_refreshConfig L secret s)) = conf u"
    by (rule ctrl_refresh_after)
  show "ctrl_refreshConfig L secret s = (Ret (), t) \<Longrightarrow> \<exists>b u. Refresh L secret s = (Ret b, u)"
    by (auto simp: ctrl_refreshConfig_def bind_Ret_iff)
qed

text \<open>C35: A liveness probe between a change of the configuration file and the next request hides
  the change from the controller: its refresh succeeds, finds nothing to do, and keeps resolving
  with the resolvers (addresses and credentials) made from the old configuration, while the
  configuration in memory is already the new one.\<close>

theorem Probe_hides_change:
  assumes "filePath (conf s) \<noteq> []"
    and "osStat L (filePath (conf s)) (world s) = (Inr m, w)"
    and "Probe L s = (Ret (), t)"
    and "osStat L (filePath (conf s)) (world t) = (Inr m, w')"
  shows "\<exists>u. ctrl_refreshConfig L [] t = (Ret (), u) \<and> conf u = conf t \<and>
    ctrlResolvers u = ctrlResolvers s"
proof -
  obtain b where R: "Refresh L [] s = (Ret b, t)" using Probe_run [OF assms(3)] by blast
  have "ctrlResolvers t = ctrlResolvers s"
    using keepsD [OF keeps_Refresh_maps R] by (simp add: same_def resolver_maps_def)
  then show ?thesis
    using ctrl.stale_after_foreign_refresh [OF assms(1,2) R assms(4)] by auto
qed

theorem Probe_hides_change_witness:
  "\<exists>t u. Probe sim_lib (sim_process [] ''good'' 0) = (Ret (), t) \<and> NsMap (conf t) \<noteq> [] \<and>
     ctrl_refreshConfig sim_lib [] t = (Ret (), u) \<and> ctrlResolvers u = []"
proof -
  let ?s = "sim_process [] ''good'' 0"
  obtain t where p: "Probe sim_lib ?s = (Ret (), t)" and n: "NsMap (conf t) \<noteq> []"
    and w: "world t = world ?s"
    by (simp add: Probe_def config_eval sim_defs)
  have "filePath (conf ?s) \<noteq> []" by (simp add: sim_process_def)
  moreover have "osStat sim_lib (filePath (conf ?s)) (world ?s) = (Inr 7, world ?s)"
    by (simp add: sim_defs)
  ultimately show ?thesis
    using Probe_hides_change [OF _ _ p, of 7 "world ?s" "world ?s"] p n w by (auto simp: sim_process_def)
qed

lemma ctrl_step_resolvers:
  "ctrl_refresh_step L (name, cfg) s = (Ret u, t) \<Longrightarrow>
    fst ` set (ctrlResolvers t) = insert name (fst ` set (ctrlResolvers s))"
  by (clarsimp simp: ctrl_refresh_step_def ns_NewResolver_def run_simps dom_update
      split: option.splits prod.splits)

lemma ctrl_loop_resolvers:
  "forM es (ctrl_refresh_step L) s = (Ret u, t) \<Longrightarrow>
    fst ` set (ctrlResolvers t) = fst ` set es \<union> fst ` set (ctrlResolvers s)"
proof (induction es arbitrary: s)
  case Nil
  then show ?case by (simp add: ran)
next
  case (Cons e es)
  obtain name cfg where e: "e = (name, cfg)" by (cases e)
  from Cons.prems obtain v where v: "ctrl_refresh_step L (name, cfg) s = (Ret (), v)"
      and l: "forM es (ctrl_refresh_step L) v = (Ret u, t)"
    by (auto simp: e bind_Ret_iff)
  from Cons.IH [OF l] ctrl_step_resolvers [OF v] show ?case by (simp add: e)
qed

text \<open>A refresh of the controller that finds a change and succeeds has a resolver for every
  appliance of the new configuration (resolvers of appliances that are gone are kept).\<close>

theorem ctrl_refresh_covers:
  assumes "Refresh L secret s = (Ret True, u)" and "ctrl_refreshConfig L secret s = (Ret (), t)"
  shows "fst ` set (ctrlResolvers t) = fst ` set (NsMap (conf t)) \<union> fst ` set (ctrlResolvers s)"
proof -
  let ?u = "u\<lparr>world := snd (mapSeed L (world u))\<rparr>"
  from assms have "forM (entries (fst (mapSeed L (world u))) (NsMap (conf u))) (ctrl_refresh_step L) ?u = (Ret (), t)"
    by (simp add: ctrl_refreshConfig_def run_simps)
  from ctrl_loop_resolvers [OF this]
  have "fst ` set (ctrlResolvers t) = fst ` set (NsMap (conf u)) \<union> fst ` set (ctrlResolvers u)"
    by (simp add: keys_entries)
  moreover have "conf t = conf u" using ctrl_refresh_after [OF assms(1)] assms(2) by simp
  moreover have "ctrlResolvers u = ctrlResolvers s"
    using keepsD [OF keeps_Refresh_maps assms(1)] by (simp add: same_def resolver_maps_def)
  ultimately show ?thesis by simp
qed

theorem ctrl_refresh_covers_witness:
  "\<exists>t. ctrl_refreshConfig sim_lib [] (sim_process [] ''good'' 0) = (Ret (), t) \<and>
    fst ` set (ctrlResolvers t) = {''a''}"
proof -
  let ?s = "sim_process [] ''good'' 0"
  obtain u where r: "Refresh sim_lib [] ?s = (Ret True, u)"
    by (simp add: config_eval sim_defs)
  obtain t where c: "ctrl_refreshConfig sim_lib [] ?s = (Ret (), t)" and n: "fst ` set (NsMap (conf t)) = {''a''}"
    by (simp add: ctrl_refreshConfig_def ctrl_refresh_step_def ns_NewResolver_def config_eval sim_defs)
  show ?thesis using ctrl_refresh_covers [OF r c] c n by (simp add: sim_process_def)
qed

section \<open>Properties of the resolution\<close>

text \<open>Resolution only asks resolvers, and changes nothing.\<close>

definition is_resolve :: "call \<Rightarrow> bool" where
  "is_resolve c = (case c of ResolveCall _ _ \<Rightarrow> True | _ \<Rightarrow> False)"

lemma resolve_give_up_frame:
  "keeps (emits P) (resolve_give_up L ps err)"
  "keeps (same internal_state) (resolve_give_up L ps err)"
  unfolding resolve_give_up_def by (intro emits_rules internal_rules keeps_cases)+

lemma nozone_loop_frame:
  "keeps (emits is_resolve) (nozone_loop L c ps err es)"
  "keeps (same internal_state) (nozone_loop L c ps err es)"
  by (induction L c ps err es rule: nozone_loop.induct)
    (auto intro!: emits_rules internal_rules keeps_cases resolve_give_up_frame
      simp: is_resolve_def Let_def)

lemma zone_loop_frame:
  "keeps (emits is_resolve) (zone_loop L c ps vg err es)"
  "keeps (same internal_state) (zone_loop L c ps vg err es)"
  by (induction L c ps vg err es rule: zone_loop.induct)
    (auto intro!: emits_rules internal_rules keeps_cases resolve_give_up_frame
      simp: is_resolve_def Let_def)

lemma resolve_named_frame:
  "keeps (emits is_resolve) (resolve_named L c ps)"
  "keeps (same internal_state) (resolve_named L c ps)"
  unfolding resolve_named_def
  by (auto intro!: emits_rules internal_rules keeps_cases simp: is_resolve_def Let_def)

lemma resolveNS_frame:
  "keeps (emits is_resolve) (resolveNS L ps)"
  "keeps (same internal_state) (resolveNS L ps)"
  unfolding resolveNS_def resolveNSNoZone_def resolveNSWithZone_def
  by (auto intro!: emits_rules internal_rules keeps_cases nozone_loop_frame zone_loop_frame
      resolve_named_frame)

lemma resolveNS_emits [emits_rules]:
  "(\<And>r vg. P (ResolveCall r vg)) \<Longrightarrow> keeps (emits P) (resolveNS L ps)"
  by (rule keeps_emits_mono [OF resolveNS_frame(1)]) (auto simp: is_resolve_def split: call.splits)

lemmas [internal_rules] = resolveNS_frame(2)

text \<open>The resolver, asked for the group of the answer, gave its provider.\<close>

definition provided :: "'w lib \<Rightarrow> resolver \<Rightarrow> ResolveNSResponse \<Rightarrow> bool" where
  "provided L r resp \<longleftrightarrow> (\<exists>w w' e. ResolveFromVg L (Some r) (rr_volumeGroup resp) w =
     (Some (rr_nsProvider resp, e), w'))"

lemma ns_ResolveFromVg_Ret:
  "ns_ResolveFromVg L r vg s = (Ret (p, err), t) \<Longrightarrow>
    \<exists>w'. ResolveFromVg L r vg (world s) = (Some (p, err), w')"
  by (auto simp: ns_ResolveFromVg_def ran) (metis prod.collapse)

lemma providedI:
  "ns_ResolveFromVg L (Some r) vg s = (Ret (p, err), t) \<Longrightarrow> rr_volumeGroup resp = vg \<Longrightarrow>
    rr_nsProvider resp = p \<Longrightarrow> provided L r resp"
  unfolding provided_def using ns_ResolveFromVg_Ret by blast

lemma resolve_named_Ret:
  assumes "resolve_named L c ps s = (Ret resp, t)"
  shows "rr_configName resp = rp_configName ps \<and>
    rr_volumeGroup resp = (if rp_volumeGroup ps = [] then DefaultVolumeGroup (ns_data c (rp_configName ps))
                           else rp_volumeGroup ps) \<and>
    provided L (ctrl_resolver L s (rp_configName ps)) resp"
proof -
  let ?vg = "if rp_volumeGroup ps = [] then DefaultVolumeGroup (ns_data c (rp_configName ps))
    else rp_volumeGroup ps"
  from assms obtain p err u where
    q: "ns_ResolveFromVg L (Some (ctrl_resolver L s (rp_configName ps))) ?vg s = (Ret (p, err), u)"
    and k: "(case err of Some e \<Rightarrow> throw e
         | None \<Rightarrow> ret \<lparr>rr_volumeGroup = ?vg, rr_nsProvider = p, rr_configName = rp_configName ps\<rparr>) u
        = (Ret resp, t)"
    unfolding resolve_named_def Let_def bind_Ret_iff gets_run_iff by auto
  from k have "err = None"
    and resp: "resp = \<lparr>rr_volumeGroup = ?vg, rr_nsProvider = p, rr_configName = rp_configName ps\<rparr>"
    by (auto simp: ran split: option.splits)
  with providedI [OF q, of resp] show ?thesis by simp
qed

lemma nozone_loop_Ret:
  assumes "nozone_loop L c ps err es s = (Ret resp, t)"
  shows "\<exists>r. (rr_configName resp, r) \<in> set es \<and>
    rr_volumeGroup resp = (if rp_volumeGroup ps = [] then DefaultVolumeGroup (ns_data c (rr_configName resp))
                           else rp_volumeGroup ps) \<and>
    rr_nsProvider resp \<noteq> None \<and> provided L r resp"
  using assms
proof (induction L c ps err es arbitrary: s rule: nozone_loop.induct)
  case (1 L c ps err)
  then show ?case by (auto simp: resolve_give_up_def ran split: if_splits)
next
  case (2 L c ps err name r es)
  let ?vg = "if rp_volumeGroup ps = [] then DefaultVolumeGroup (ns_data c name) else rp_volumeGroup ps"
  from "2.prems" obtain p err' u where q: "ns_ResolveFromVg L (Some r) ?vg s = (Ret (p, err'), u)"
    and k: "(case p of Some _ \<Rightarrow> (case err' of
               None \<Rightarrow> ret \<lparr>rr_volumeGroup = ?vg, rr_nsProvider = p, rr_configName = name\<rparr>
             | Some e \<Rightarrow> throw e)
         | None \<Rightarrow> nozone_loop L c ps err' es) u = (Ret resp, t)"
    unfolding nozone_loop.simps Let_def bind_Ret_iff by auto
  show ?case
  proof (cases p)
    case None
    with k have "nozone_loop L c ps err' es u = (Ret resp, t)" by simp
    from "2.IH" [OF refl None this] show ?thesis by auto
  next
    case (Some a)
    with k have "err' = None" "resp = \<lparr>rr_volumeGroup = ?vg, rr_nsProvider = p, rr_configName = name\<rparr>"
      by (auto simp: ran split: option.splits)
    with providedI [OF q, of resp] Some show ?thesis by auto
  qed
qed

lemma zone_loop_Ret:
  assumes "zone_loop L c ps vg err es s = (Ret resp, t)"
  shows "\<exists>r. (rr_configName resp, r) \<in> set es \<and> rp_zone ps = Zone (ns_data c (rr_configName resp)) \<and>
    (vg \<noteq> [] \<longrightarrow> rr_volumeGroup resp = vg) \<and>
    rr_nsProvider resp \<noteq> None \<and>
    provided L r resp"
  using assms
proof (induction L c ps vg err es arbitrary: s rule: zone_loop.induct)
  case (1 L c ps vg err)
  then show ?case by (auto simp: resolve_give_up_def ran split: if_splits)
next
  case (2 L c ps vg err name r es)
  show ?case
  proof (cases "rp_zone ps = Zone (ns_data c name)")
    case False
    with "2.prems" have "zone_loop L c ps vg err es s = (Ret resp, t)" by simp
    from "2.IH"(2) [OF False this] show ?thesis by auto
  next
    case True
    let ?vg = "if vg = [] then DefaultVolumeGroup (ns_data c name) else vg"
    from "2.prems" obtain p err' u where q: "ns_ResolveFromVg L (Some r) ?vg s = (Ret (p, err'), u)"
      and k: "(case p of
              Some _ \<Rightarrow> ret \<lparr>rr_volumeGroup = ?vg, rr_nsProvider = p, rr_configName = name\<rparr>
            | None \<Rightarrow> zone_loop L c ps ?vg err' es) u = (Ret resp, t)"
      unfolding zone_loop.simps if_P [OF True] Let_def bind_Ret_iff by auto
    show ?thesis
    proof (cases p)
      case None
      with k have "zone_loop L c ps ?vg err' es u = (Ret resp, t)" by simp
      from "2.IH"(1) [OF True refl None this] show ?thesis by auto
    next
      case (Some a)
      with k have "resp = \<lparr>rr_volumeGroup = ?vg, rr_nsProvider = p, rr_configName = name\<rparr>"
        by (auto simp: ran)
      with providedI [OF q, of resp] Some True show ?thesis by auto
    qed
  qed
qed

lemma map_of_keyI: "map_of m k = Some v \<Longrightarrow> k \<in> fst ` set m"
  by (force dest: map_of_SomeD)

lemma resolveNS_answers:
  assumes "resolveNS L ps s = (Ret resp, t)"
  shows "(if rp_configName ps \<noteq> [] then rr_configName resp = rp_configName ps
          else rr_configName resp \<in> fst ` set (ctrlResolvers s) \<and> rr_nsProvider resp \<noteq> None) \<and>
    (rp_zone ps \<noteq> [] \<longrightarrow> Zone (ns_data (conf s) (rr_configName resp)) = rp_zone ps) \<and>
    (rp_volumeGroup ps \<noteq> [] \<longrightarrow> rr_volumeGroup resp = rp_volumeGroup ps) \<and>
    (rp_volumeGroup ps = [] \<and> rp_zone ps = [] \<longrightarrow>
       rr_volumeGroup resp = DefaultVolumeGroup (ns_data (conf s) (rr_configName resp))) \<and>
    provided L (ctrl_resolver L s (rr_configName resp)) resp"
proof -
  show ?thesis
  proof (cases "rp_zone ps = []")
    case nz: True
    with assms have run: "resolveNSNoZone L ps s = (Ret resp, t)"
      by (auto simp: resolveNS_def ran)
    show ?thesis
    proof (cases "rp_configName ps = []")
      case False
      with run have "resolve_named L (conf s) ps s = (Ret resp, t)"
        by (auto simp: resolveNSNoZone_def ran)
      from resolve_named_Ret [OF this] False nz show ?thesis by auto
    next
      case True
      with run obtain n u where "nozone_loop L (conf s) ps None (entries n (ctrlResolvers s)) u = (Ret resp, t)"
        by (auto simp: resolveNSNoZone_def ran)
      from nozone_loop_Ret [OF this] obtain r where "map_of (ctrlResolvers s) (rr_configName resp) = Some r"
        and "rr_volumeGroup resp = (if rp_volumeGroup ps = [] then DefaultVolumeGroup (ns_data (conf s) (rr_configName resp))
          else rp_volumeGroup ps)" and "rr_nsProvider resp \<noteq> None" and "provided L r resp"
        by (auto simp: set_entries)
      with True nz show ?thesis by (auto simp: ctrl_resolver_def dest: map_of_keyI)
    qed
  next
    case z: False
    with assms have run: "resolveNSWithZone L ps s = (Ret resp, t)"
      by (auto simp: resolveNS_def ran)
    show ?thesis
    proof (cases "rp_configName ps = []")
      case False
      with run have n: "resolve_named L (conf s) ps s = (Ret resp, t)"
        and zn: "Zone (ns_data (conf s) (rp_configName ps)) = rp_zone ps"
        by (auto simp: resolveNSWithZone_def ran split: if_splits)
      from resolve_named_Ret [OF n] False z zn show ?thesis by auto
    next
      case True
      with run obtain n u where
        "zone_loop L (conf s) ps (rp_volumeGroup ps) None (entries n (ctrlResolvers s)) u = (Ret resp, t)"
        by (auto simp: resolveNSWithZone_def ran)
      from zone_loop_Ret [OF this] obtain r where "map_of (ctrlResolvers s) (rr_configName resp) = Some r"
        and "rp_zone ps = Zone (ns_data (conf s) (rr_configName resp))"
        and "rp_volumeGroup ps \<noteq> [] \<longrightarrow> rr_volumeGroup resp = rp_volumeGroup ps"
        and "rr_nsProvider resp \<noteq> None" and "provided L r resp"
        by (auto simp: set_entries)
      with True z show ?thesis by (auto simp: ctrl_resolver_def dest: map_of_keyI)
    qed
  qed
qed

text \<open>C25: An appliance that \<open>resolveNS\<close> returns is the right one: it is the one named in the
  request when a name is given, and a configured one otherwise; its zone is the requested zone; the
  group is the requested group when one is given, and without a zone it is otherwise the default
  group of exactly that appliance; and the provider is what the resolver of that appliance provided for
  that group.\<close>

theorem resolveNS_sound:
  assumes "resolveNS L ps s = (Ret resp, t)"
  shows "(if rp_configName ps \<noteq> [] then rr_configName resp = rp_configName ps
          else rr_configName resp \<in> fst ` set (ctrlResolvers s) \<and> rr_nsProvider resp \<noteq> None) \<and>
    (rp_zone ps \<noteq> [] \<longrightarrow> Zone (ns_data (conf s) (rr_configName resp)) = rp_zone ps) \<and>
    (rp_volumeGroup ps \<noteq> [] \<longrightarrow> rr_volumeGroup resp = rp_volumeGroup ps) \<and>
    (rp_volumeGroup ps = [] \<and> rp_zone ps = [] \<longrightarrow>
       rr_volumeGroup resp = DefaultVolumeGroup (ns_data (conf s) (rr_configName resp))) \<and>
    provided L (ctrl_resolver L s (rr_configName resp)) resp"
  by (rule resolveNS_answers [OF assms])

theorem resolveNS_sound_witness:
  "\<exists>resp t. resolveNS sim_lib \<lparr>rp_volumeGroup = [], rp_zone = [], rp_configName = []\<rparr>
      (sim_process [(''a'', sim_data)] ''good'' 7) = (Ret resp, t) \<and>
    rr_volumeGroup resp = ''p/g'' \<and> rr_configName resp = ''a''"
proof -
  let ?s = "sim_process [(''a'', sim_data)] ''good'' 7"
  let ?ps = "\<lparr>rp_volumeGroup = [], rp_zone = [], rp_configName = []\<rparr>"
  obtain resp t where run: "resolveNS sim_lib ?ps ?s = (Ret resp, t)"
    by (simp add: resolveNS_def resolveNSNoZone_def ns_data_def ns_ResolveFromVg_def run_simps
        entries_def sim_defs Let_def)
  have "ctrlResolvers ?s = [(''a'', 0)]" and "ns_data (conf ?s) ''a'' = sim_data"
    by (simp_all add: sim_process_def ns_data_def)
  with resolveNS_sound [OF run] run show ?thesis
    by (auto simp: sim_data_def)
qed

section \<open>Finding an appliance in any order\<close>

text \<open>What is relied on from \<open>ResolveFromVg\<close>: it answers (no panic) a provider without an error, or
  an error without a provider.\<close>

definition resolver_answers :: "'w lib \<Rightarrow> bool" where
  "resolver_answers L \<longleftrightarrow> (\<forall>r vg w. \<exists>p e w'. ResolveFromVg L (Some r) vg w = (Some (p, e), w') \<and>
     (p = None \<longleftrightarrow> e \<noteq> None))"

text \<open>Resolver \<open>r\<close> serves group \<open>vg\<close>, whatever the state of the world.\<close>

definition serves :: "'w lib \<Rightarrow> resolver \<Rightarrow> string \<Rightarrow> bool" where
  "serves L r vg \<longleftrightarrow> (\<forall>w. \<exists>p w'. ResolveFromVg L (Some r) vg w = (Some (Some p, None), w'))"

lemma run_ResolveFromVg:
  assumes "resolver_answers L"
  obtains p e t where "ns_ResolveFromVg L (Some r) vg s = (Ret (p, e), t)" and "p = None \<longleftrightarrow> e \<noteq> None"
proof -
  from assms obtain p e w' where "ResolveFromVg L (Some r) vg (world s) = (Some (p, e), w')"
    and "p = None \<longleftrightarrow> e \<noteq> None" unfolding resolver_answers_def by metis
  then show ?thesis using that by (simp add: ns_ResolveFromVg_def run_simps)
qed

lemma run_ResolveFromVg_serves:
  assumes "serves L r vg"
  obtains p t where "ns_ResolveFromVg L (Some r) vg s = (Ret (Some p, None), t)"
proof -
  from assms obtain p w' where "ResolveFromVg L (Some r) vg (world s) = (Some (Some p, None), w')"
    unfolding serves_def by metis
  then show ?thesis using that by (simp add: ns_ResolveFromVg_def run_simps)
qed

lemma nozone_loop_finds:
  assumes "resolver_answers L" and "(name, r) \<in> set es"
    and "serves L r (if rp_volumeGroup ps = [] then DefaultVolumeGroup (ns_data c name) else rp_volumeGroup ps)"
  shows "\<exists>resp t. nozone_loop L c ps err es s = (Ret resp, t)"
  using assms(2)
proof (induction es arbitrary: err s)
  case Nil
  then show ?case by simp
next
  case (Cons e es)
  obtain name' r' where e: "e = (name', r')" by (cases e)
  let ?vg = "\<lambda>n. if rp_volumeGroup ps = [] then DefaultVolumeGroup (ns_data c n) else rp_volumeGroup ps"
  show ?case
  proof (cases "e = (name, r)")
    case True
    obtain p t where "ns_ResolveFromVg L (Some r) (?vg name) s = (Ret (Some p, None), t)"
      using run_ResolveFromVg_serves [OF assms(3)] .
    then show ?thesis by (simp add: True run_simps Let_def)
  next
    case False
    with Cons have IH: "\<exists>resp t. nozone_loop L c ps err es s = (Ret resp, t)" for err s by simp
    obtain p err' u where q: "ns_ResolveFromVg L (Some r') (?vg name') s = (Ret (p, err'), u)"
      and "p = None \<longleftrightarrow> err' \<noteq> None" using run_ResolveFromVg [OF assms(1)] .
    then show ?thesis using IH [of err' u]
      by (cases p) (simp_all add: e run_simps Let_def)
  qed
qed

text \<open>C26: Whatever the order in which the appliances are tried, a request without zone and name
  finds an appliance when one of the configured ones serves the requested group (or its own
  default group when none is requested).\<close>

theorem resolveNS_finds:
  assumes "resolver_answers L" and "rp_zone ps = []" and "rp_configName ps = []"
    and "map_of (ctrlResolvers s) name = Some r"
    and "serves L r (if rp_volumeGroup ps = [] then DefaultVolumeGroup (ns_data (conf s) name)
                     else rp_volumeGroup ps)"
  shows "\<exists>resp t. resolveNS L ps s = (Ret resp, t)"
proof -
  let ?n = "fst (mapSeed L (world s))" and ?u = "s\<lparr>world := snd (mapSeed L (world s))\<rparr>"
  have "(name, r) \<in> set (entries ?n (ctrlResolvers s))" using assms(4) by (simp add: set_entries)
  from nozone_loop_finds [OF assms(1) this assms(5)]
  obtain resp t where "nozone_loop L (conf s) ps None (entries ?n (ctrlResolvers s)) ?u = (Ret resp, t)"
    by blast
  then have "resolveNSNoZone L ps s = (Ret resp, t)"
    using assms(3) by (simp add: resolveNSNoZone_def run_simps)
  with assms(2) show ?thesis by (simp add: resolveNS_def run_simps)
qed

theorem resolveNS_finds_witness:
  "\<exists>resp t. resolveNS (sim_lib\<lparr>ResolveFromVg := \<lambda>r vg w.
      (Some (if vg = ''p/h'' then (Some 3, None) else (None, Some enoent)), w)\<rparr>)
    \<lparr>rp_volumeGroup = ''p/h'', rp_zone = [], rp_configName = []\<rparr>
    (sim_process [(''a'', sim_data), (''b'', sim_data)] ''good'' 7) = (Ret resp, t)"
  by (rule resolveNS_finds [where name = "''b''" and r = 0])
    (auto simp: resolver_answers_def serves_def sim_process_def)

section \<open>What goes wrong in a resolution\<close>

lemma zone_loop_skips:
  "(\<And>name r. (name, r) \<in> set es \<Longrightarrow> Zone (ns_data c name) \<noteq> rp_zone ps) \<Longrightarrow>
    zone_loop L c ps vg err es = resolve_give_up L ps err"
proof (induction es)
  case Nil
  show ?case by simp
next
  case (Cons e es)
  obtain name r where e: "e = (name, r)" by (cases e)
  have "rp_zone ps \<noteq> Zone (ns_data c name)" using Cons.prems [of name r] e by simp
  moreover have "zone_loop L c ps vg err es = resolve_give_up L ps err"
    by (rule Cons.IH) (rule Cons.prems, rule list.set_intros(2))
  ultimately show ?case by (simp add: e)
qed

text \<open>C38: A request for a zone no configured appliance is in (or any request when no appliance is
  configured for it) does not end in an error: the text of a nil error is read, and the
  process panics.\<close>

theorem resolveNS_unknown_zone_panics:
  assumes "rp_zone ps \<noteq> []" and "rp_configName ps = []"
    and "\<And>name. name \<in> fst ` set (ctrlResolvers s) \<Longrightarrow> Zone (ns_data (conf s) name) \<noteq> rp_zone ps"
  shows "fst (resolveNS L ps s) = Panic"
proof -
  let ?es = "entries (fst (mapSeed L (world s))) (ctrlResolvers s)"
  have "Zone (ns_data (conf s) name) \<noteq> rp_zone ps" if "(name, r) \<in> set ?es" for name r
  proof (rule assms(3))
    from that have "name \<in> fst ` set ?es" by (metis fst_conv image_eqI)
    then show "name \<in> fst ` set (ctrlResolvers s)" by (simp add: keys_entries)
  qed
  then have "zone_loop L (conf s) ps (rp_volumeGroup ps) None ?es = resolve_give_up L ps None"
    by (rule zone_loop_skips)
  then show ?thesis using assms(1,2)
    by (simp add: resolveNS_def resolveNSWithZone_def resolve_give_up_def run_simps)
qed

theorem resolveNS_unknown_zone_panics_witness:
  "fst (resolveNS sim_lib \<lparr>rp_volumeGroup = ''p/g'', rp_zone = ''z'', rp_configName = []\<rparr>
     (sim_process [(''a'', sim_data)] ''good'' 7)) = Panic"
proof (rule resolveNS_unknown_zone_panics)
  let ?s = "sim_process [(''a'', sim_data)] ''good'' 7"
  fix name assume "name \<in> fst ` set (ctrlResolvers ?s)"
  then have "name = ''a''" by (simp add: sim_process_def)
  moreover have "Zone (ns_data (conf ?s) ''a'') = []"
    by (simp add: sim_process_def ns_data_def sim_data_def zeroNsData_def)
  ultimately show "Zone (ns_data (conf ?s) name) \<noteq>
      rp_zone \<lparr>rp_volumeGroup = ''p/g'', rp_zone = ''z'', rp_configName = []\<rparr>" by simp
qed simp_all

text \<open>Every error of a resolution is a status, with one of two codes.\<close>

lemma resolveNS_raises:
  "raises (\<lambda>e. \<exists>m. e = StatusErr Internal m \<or> e = StatusErr NotFound m) (resolveNS L ps)"
  unfolding resolveNS_def by (intro raises_rules) (auto simp: resolve_failed_def)

definition no_provider :: "'w lib \<Rightarrow> bool" where
  "no_provider L \<longleftrightarrow> (\<forall>r vg w. \<exists>e w'. ResolveFromVg L r vg w = (Some (None, Some e), w'))"

lemma give_up_Fail: "resolve_give_up L ps err s = (Fail e, t) \<Longrightarrow> \<exists>c m. e = StatusErr c m"
  by (auto simp: resolve_give_up_def ran split: if_splits)

lemma nozone_loop_gives_up:
  assumes "no_provider L" and "nozone_loop L c ps err es s = (Fail e, t)"
  shows "\<exists>c m. e = StatusErr c m"
  using assms(2)
proof (induction es arbitrary: err s)
  case Nil
  then show ?case by (auto dest: give_up_Fail)
next
  case (Cons x es)
  obtain name r where x: "x = (name, r)" by (cases x)
  let ?vg = "if rp_volumeGroup ps = [] then DefaultVolumeGroup (ns_data c name) else rp_volumeGroup ps"
  obtain e' w' where "ResolveFromVg L (Some r) ?vg (world s) = (Some (None, Some e'), w')"
    using assms(1) unfolding no_provider_def by metis
  with Cons.prems have "\<exists>u. nozone_loop L c ps (Some e') es u = (Fail e, t)"
    by (auto simp: x Let_def ns_ResolveFromVg_def run_simps)
  with Cons.IH show ?case by blast
qed

text \<open>When no appliance serves the group of a request, the code the client sees is
  \<open>Internal\<close>: the \<open>NotFound\<close> (or \<open>Unauthenticated\<close>) the search ended in is replaced, because a
  status error is no error of the NexentaStor API.\<close>

theorem resolveNS_masks_codes:
  assumes "\<And>c m. \<not> IsNotExistNefError L (StatusErr c m)" and "no_provider L"
    and "rp_zone ps = []" and "rp_configName ps = []"
    and "resolveNS L ps s = (Fail e, t)"
  shows "\<exists>m. e = StatusErr Internal m"
proof -
  from assms(3,5) obtain d where "resolveNSNoZone L ps s = (Fail d, t)"
    and e: "e = resolve_failed L (rp_volumeGroup ps) d"
    by (auto simp: resolveNS_def ran)
  with assms(4) obtain es u where "nozone_loop L (conf s) ps None es u = (Fail d, t)"
    by (auto simp: resolveNSNoZone_def ran)
  from nozone_loop_gives_up [OF assms(2) this] obtain c m where "d = StatusErr c m" by blast
  with e assms(1) show ?thesis by (simp add: resolve_failed_def)
qed

theorem resolveNS_masks_codes_witness:
  "\<exists>e t m. resolveNS (sim_lib\<lparr>ResolveFromVg := \<lambda>r vg w. (Some (None, Some enoent), w)\<rparr>)
      \<lparr>rp_volumeGroup = ''p/x'', rp_zone = [], rp_configName = []\<rparr>
      (sim_process [(''a'', sim_data)] ''good'' 7) = (Fail e, t) \<and> e = StatusErr Internal m"
proof -
  let ?L = "sim_lib\<lparr>ResolveFromVg := \<lambda>r vg w. (Some (None, Some enoent), w)\<rparr>"
  let ?ps = "\<lparr>rp_volumeGroup = ''p/x'', rp_zone = [], rp_configName = []\<rparr>"
  obtain e t where run: "resolveNS ?L ?ps (sim_process [(''a'', sim_data)] ''good'' 7) = (Fail e, t)"
    by (simp add: resolveNS_def resolveNSNoZone_def resolve_give_up_def ns_ResolveFromVg_def run_simps
        entries_def sim_defs Let_def)
  moreover have "\<not> IsNotExistNefError ?L (StatusErr c m)" for c m by (simp add: sim_lib_def nef_kind_def)
  moreover have "no_provider ?L" by (simp add: no_provider_def)
  ultimately have "\<exists>m. e = StatusErr Internal m" using resolveNS_masks_codes [OF _ _ _ _ run] by simp
  with run show ?thesis by blast
qed

lemma zone_loop_one_group:
  assumes "vg \<noteq> []"
  shows "keeps (emits (\<lambda>c. \<exists>r. c = ResolveCall (Some r) vg)) (zone_loop L c ps vg err es)"
proof (induction es arbitrary: err)
  case Nil
  show ?case by (simp add: resolve_give_up_frame)
next
  case (Cons x es)
  obtain name r where x: "x = (name, r)" by (cases x)
  show ?case using assms Cons unfolding x zone_loop.simps Let_def
    by (auto intro!: emits_rules keeps_cases)
qed

definition asks_for :: "string \<Rightarrow> call \<Rightarrow> bool" where
  "asks_for vg c \<longleftrightarrow> (\<exists>r. c = ResolveCall (Some r) vg \<or> c = ResolveCall (Some r) [])"

lemma zone_loop_asks_given: "vg \<noteq> [] \<Longrightarrow> keeps (emits (asks_for vg)) (zone_loop L c ps vg err es)"
  by (rule keeps_emits_mono [OF zone_loop_one_group]) (auto simp: asks_for_def)

lemma zone_loop_asks: "\<exists>vg. \<forall>err. keeps (emits (asks_for vg)) (zone_loop L c ps v err es)"
proof (cases "v = []")
  case False
  then show ?thesis using zone_loop_asks_given by blast
next
  case True
  show ?thesis unfolding True
  proof (induction es)
    case Nil
    show ?case by (simp add: resolve_give_up_frame)
  next
    case (Cons x es)
    obtain name r where x: "x = (name, r)" by (cases x)
    let ?d = "DefaultVolumeGroup (ns_data c name)"
    from Cons obtain vg where vg: "keeps (emits (asks_for vg)) (zone_loop L c ps [] err es)" for err
      by blast
    show ?case
    proof (cases "rp_zone ps = Zone (ns_data c name) \<and> ?d \<noteq> []")
      case True
      then have "keeps (emits (asks_for ?d)) (zone_loop L c ps [] err (x # es))" for err
        unfolding x zone_loop.simps Let_def
        by (auto intro!: emits_rules keeps_cases zone_loop_asks_given simp: asks_for_def)
      then show ?thesis by blast
    next
      case False
      then have "keeps (emits (asks_for vg)) (zone_loop L c ps [] err (x # es))" for err
        unfolding x zone_loop.simps Let_def
        by (auto intro!: emits_rules keeps_cases vg simp: asks_for_def)
      then show ?thesis by blast
    qed
  qed
qed

text \<open>In a zone, and without a name, the appliances are all asked for one group: the default
  group of the first one that has any. (Without a zone each one is asked for its own default
  group.) A second appliance of the zone with another default group is never found by it.\<close>

theorem resolveNS_zone_one_group:
  assumes "rp_zone ps \<noteq> []" and "rp_configName ps = []"
    and "resolveNS L ps s = (res, t)"
  shows "\<exists>vg cs. trace t = trace s @ cs \<and> (\<forall>call \<in> set cs. asks_for vg call)"
proof -
  obtain vg where vg: "keeps (emits (asks_for vg)) (zone_loop L (conf s) ps (rp_volumeGroup ps) None
      (entries (fst (mapSeed L (world s))) (ctrlResolvers s)))"
    using zone_loop_asks by blast
  let ?m = "attempt (bind (goRange L (ctrlResolvers s)) (\<lambda>_.
      zone_loop L (conf s) ps (rp_volumeGroup ps) None
        (entries (fst (mapSeed L (world s))) (ctrlResolvers s))))
      (\<lambda>e. throw (resolve_failed L (rp_volumeGroup ps) e)) ret"
  have "keeps (emits (asks_for vg)) ?m" by (intro emits_rules vg)
  moreover have "?m s = (res, t)"
    using assms by (simp add: resolveNS_def resolveNSWithZone_def run_simps)
  ultimately show ?thesis using emits_new_calls by metis
qed

theorem resolveNS_zone_one_group_witness:
  "\<exists>vg cs. trace (snd (resolveNS sim_lib \<lparr>rp_volumeGroup = [], rp_zone = ''z'', rp_configName = []\<rparr>
      (sim_process [(''a'', sim_data\<lparr>Zone := ''z''\<rparr>)] ''good'' 7))) =
      [ResolveCall (Some 0) ''p/g''] @ cs \<and> asks_for vg (ResolveCall (Some 0) ''p/g'')"
proof -
  let ?ps = "\<lparr>rp_volumeGroup = [], rp_zone = ''z'', rp_configName = []\<rparr>"
  let ?s = "sim_process [(''a'', sim_data\<lparr>Zone := ''z''\<rparr>)] ''good'' 7"
  obtain res t where run: "resolveNS sim_lib ?ps ?s = (res, t)"
    and tr: "trace t = [ResolveCall (Some 0) ''p/g'']"
    by (simp add: resolveNS_def resolveNSWithZone_def ns_ResolveFromVg_def run_simps ns_data_def
        entries_def sim_defs Let_def)
  have "trace ?s = []" by (simp add: sim_process_def)
  with resolveNS_zone_one_group [OF _ _ run] tr run show ?thesis by auto
qed

end
