(* ===== verification/ControllerVolumes.thy ===== *)
theory ControllerVolumes
  imports ControllerResolve
begin

text \<open>
  Volumes in \<open>pkg/driver/controllerServer.go\<close>: capabilities, capacity, \<open>CreateVolume\<close> with its
  three ways to make a volume, \<open>ControllerExpandVolume\<close> and \<open>DeleteVolume\<close>, and
  \<open>CreateSnapshotOnNS\<close>, which cloning a volume uses as well as \<open>CreateSnapshot\<close>.

  A request is a record with the fields the handler reads. A message field that is missing is
  \<open>None\<close>; a repeated field and a map that are missing on the wire are nil, written as the empty
  list. A response holds the fields the handler sets.
\<close>

section \<open>Requests and responses\<close>

record MountVolume =
  mv_FsType :: string
  mv_MountFlags :: "string list"

text \<open>The \<open>oneof\<close> of a capability.\<close>

datatype access_type = AccessUnset | AccessBlock | AccessMount MountVolume

record VolumeCapability =
  vc_AccessMode :: "access_mode option"
  vc_AccessType :: access_type

text \<open>\<open>c.GetAccessMode().GetMode()\<close>\<close>

definition GetMode :: "VolumeCapability \<Rightarrow> access_mode" where
  "GetMode c = (case vc_AccessMode c of None \<Rightarrow> UNKNOWN | Some m \<Rightarrow> m)"

datatype content_source = SourceSnapshot string | SourceVolume string | SourceUnset

type_synonym topology = "string gomap"

record TopologyRequirement =
  tr_Requisite :: "topology list"
  tr_Preferred :: "topology list"

record CreateVolumeRequest =
  cv_Name :: string
  cv_CapacityRange :: "int option"           \<comment> \<open>\<open>RequiredBytes\<close>\<close>
  cv_VolumeCapabilities :: "VolumeCapability list"
  cv_Parameters :: "string gomap"
  cv_Secrets :: "string gomap"
  cv_VolumeContentSource :: "content_source option"
  cv_AccessibilityRequirements :: "TopologyRequirement option"

record CreateVolumeResponse =
  cr_ContentSource :: "content_source option"
  cr_VolumeId :: string
  cr_CapacityBytes :: int
  cr_VolumeContext :: "string gomap"
  cr_AccessibleTopology :: "topology list"

record ValidateVolumeCapabilitiesRequest =
  vr_VolumeId :: string
  vr_VolumeCapabilities :: "VolumeCapability list"
  vr_VolumeContext :: "string gomap"
  vr_Secrets :: "string gomap"

datatype ValidateVolumeCapabilitiesResponse =
    NotConfirmed string
  | Confirmed "access_mode list" "string gomap"

record ControllerExpandVolumeRequest =
  ex_VolumeId :: string
  ex_CapacityRange :: "int option"
  ex_Secrets :: "string gomap"

record ControllerExpandVolumeResponse =
  er_CapacityBytes :: int
  er_NodeExpansionRequired :: bool

record DeleteVolumeRequest =
  dv_VolumeId :: string
  dv_Secrets :: "string gomap"

section \<open>Constants and shared code\<close>

definition TopologyKeyZone :: string where
  "TopologyKeyZone = ''topology.kubernetes.io/zone''"

definition DefaultSparseVolume :: bool where
  "DefaultSparseVolume = True"

definition supportedVolumeCapabilities :: "access_mode list" where
  "supportedVolumeCapabilities = [SINGLE_NODE_READER_ONLY, SINGLE_NODE_WRITER,
     MULTI_NODE_READER_ONLY, MULTI_NODE_SINGLE_WRITER, MULTI_NODE_MULTI_WRITER]"

text \<open>The lines most handlers start with: pick the secret, refresh, map the error.\<close>

definition ctrl_use_config :: "'w lib \<Rightarrow> string gomap \<Rightarrow> ('w st, unit) M" where
  "ctrl_use_config L secrets =
     bind (pick_secret L secrets) (\<lambda>secret.
     attempt (ctrl_refreshConfig L secret)
       (\<lambda>e. throw (StatusErr FailedPrecondition (cannot_use_config L e)))
       ret)"

text \<open>\<open>len(xs) == 2\<close> with \<open>xs[0], xs[1]\<close>, and the same with three.\<close>

fun two :: "'a list \<Rightarrow> ('a \<times> 'a) option" where
  "two [a, b] = Some (a, b)"
| "two _ = None"

fun three :: "'a list \<Rightarrow> ('a \<times> 'a \<times> 'a) option" where
  "three [a, b, c] = Some (a, b, c)"
| "three _ = None"

definition no_params :: ResolveNSParams where
  "no_params = \<lparr>rp_volumeGroup = [], rp_zone = [], rp_configName = []\<rparr>"

text \<open>\<open>status.Code(err) == codes.NotFound\<close> after \<open>resolveNS\<close>: the answer is \<open>x\<close>, else the error.\<close>

definition not_found_ok :: "'w lib \<Rightarrow> 'a \<Rightarrow> error \<Rightarrow> ('w st, 'a) M" where
  "not_found_ok L x e = (if statusCode L e = NotFound then ret x else throw e)"

section \<open>Capabilities and capacity\<close>

fun validate_mode_loop :: "access_mode list \<Rightarrow> access_mode \<Rightarrow> bool" where
  "validate_mode_loop [] m = False"
| "validate_mode_loop (c # cs) m = (if c = m then True else validate_mode_loop cs m)"

definition validateVolumeCapability :: "VolumeCapability \<Rightarrow> bool" where
  "validateVolumeCapability c = validate_mode_loop supportedVolumeCapabilities (GetMode c)"

definition unsupported_mode :: "'w lib \<Rightarrow> VolumeCapability \<Rightarrow> string" where
  "unsupported_mode L c = ''Driver does not support volume capability mode: '' @ modeString L (GetMode c)"

text \<open>The first capability that is not supported.\<close>

fun first_unsupported :: "VolumeCapability list \<Rightarrow> VolumeCapability option" where
  "first_unsupported [] = None"
| "first_unsupported (c # cs) = (if \<not> validateVolumeCapability c then Some c else first_unsupported cs)"

definition ValidateVolumeCapabilities ::
    "'w lib \<Rightarrow> ValidateVolumeCapabilitiesRequest \<Rightarrow> ('w st, ValidateVolumeCapabilitiesResponse) M" where
  "ValidateVolumeCapabilities L req =
     (if length (vr_VolumeId req) = 0 then
        throw (StatusErr InvalidArgument ''Volume ID must be provided'')
      else if length (strings_Split (vr_VolumeId req) '':'') \<noteq> 2 then
        throw (StatusErr NotFound (''VolumeId is in wrong format: '' @ vr_VolumeId req))
      else if vr_VolumeCapabilities req = [] then
        throw (StatusErr InvalidArgument ''req.VolumeCapabilities must be provided'')
      else
        bind (ctrl_use_config L (vr_Secrets req)) (\<lambda>_.
        case first_unsupported (vr_VolumeCapabilities req) of
          Some c \<Rightarrow> ret (NotConfirmed (unsupported_mode L c))
        | None \<Rightarrow> ret (Confirmed supportedVolumeCapabilities (vr_VolumeContext req))))"

fun first_zone :: "topology list \<Rightarrow> string option" where
  "first_zone [] = None"
| "first_zone (t # ts) =
     (case map_of t TopologyKeyZone of Some z \<Rightarrow> Some z | None \<Rightarrow> first_zone ts)"

definition pickAvailabilityZone :: "TopologyRequirement option \<Rightarrow> string" where
  "pickAvailabilityZone req =
     (case req of
        None \<Rightarrow> []
      | Some r \<Rightarrow> (case first_zone (tr_Preferred r) of
            Some z \<Rightarrow> z
          | None \<Rightarrow> (case first_zone (tr_Requisite r) of Some z \<Rightarrow> z | None \<Rightarrow> [])))"

definition ControllerGetVolume :: "('w st, unit) M" where
  "ControllerGetVolume = throw (StatusErr Unimplemented ''method CreateVolume not implemented'')"

text \<open>\<open>GetCapacity\<close> does not refresh the configuration.\<close>

definition GetCapacity :: "'w lib \<Rightarrow> string gomap \<Rightarrow> ('w st, int) M" where
  "GetCapacity L reqParams =
     bind (resolveNS L (no_params\<lparr>rp_volumeGroup := get_str reqParams ''volumeGroup''\<rparr>)) (\<lambda>r.
     ns_GetVolumeGroup L (rr_nsProvider r) (rr_volumeGroup r))"

section \<open>ControllerExpandVolume\<close>

text \<open>From the resolved provider on.\<close>

definition expand_on ::
    "'w lib \<Rightarrow> provider option \<Rightarrow> string \<Rightarrow> int \<Rightarrow> ('w st, ControllerExpandVolumeResponse) M" where
  "expand_on L nsProvider volumePath capacityBytes =
     bind (ns_GetVolume L nsProvider volumePath) (\<lambda>volInfo.
     if vol_VolumeSize volInfo < capacityBytes then
       attempt (ns_do L nsProvider (UpdateVolumeCmd volumePath capacityBytes))
         (\<lambda>e. throw (PlainErr (''Failed to expand volume '' @ volumePath @ '': '' @ errText L e)))
         (\<lambda>_. ret \<lparr>er_CapacityBytes = capacityBytes, er_NodeExpansionRequired = True\<rparr>)
     else ret \<lparr>er_CapacityBytes = capacityBytes, er_NodeExpansionRequired = False\<rparr>)"

definition ControllerExpandVolume ::
    "'w lib \<Rightarrow> ControllerExpandVolumeRequest \<Rightarrow> ('w st, ControllerExpandVolumeResponse) M" where
  "ControllerExpandVolume L req =
     bind (ctrl_use_config L (ex_Secrets req)) (\<lambda>_.
     let capacityBytes = (case ex_CapacityRange req of None \<Rightarrow> 0 | Some n \<Rightarrow> n) in
     if capacityBytes = 0 then
       throw (StatusErr InvalidArgument ''GetRequiredBytes must be >0'')
     else if length (ex_VolumeId req) = 0 then
       throw (StatusErr InvalidArgument ''Volume ID must be provided'')
     else case two (strings_Split (ex_VolumeId req) '':'') of
       None \<Rightarrow> throw (StatusErr InvalidArgument (''VolumeId is in wrong format: '' @ ex_VolumeId req))
     | Some (configName, volumePath) \<Rightarrow>
     case three (strings_Split volumePath ''/'') of
       None \<Rightarrow> ret \<lparr>er_CapacityBytes = 0, er_NodeExpansionRequired = False\<rparr>
     | Some (p0, p1, _) \<Rightarrow>
     bind (resolveNS L \<lparr>rp_volumeGroup = strings_Join [p0, p1] ''/'', rp_zone = [],
                        rp_configName = configName\<rparr>) (\<lambda>r.
     expand_on L (rr_nsProvider r) volumePath capacityBytes))"

section \<open>Making a volume\<close>

definition createNewVolume ::
    "'w lib \<Rightarrow> provider option \<Rightarrow> string \<Rightarrow> int \<Rightarrow> bool \<Rightarrow> ('w st, unit) M" where
  "createNewVolume L nsProvider volumePath capacityBytes sparseVolume =
     attempt (ns_do L nsProvider (CreateVolumeCmd volumePath capacityBytes sparseVolume))
       (\<lambda>err.
         if IsAlreadyExistNefError L err then
           attempt (ns_GetVolume L nsProvider volumePath)
             (\<lambda>err. throw (StatusErr Internal (''Volume '' @ sq volumePath @
                '' already exists, but volume properties request failed: '' @ errText L err)))
             (\<lambda>existing.
               if capacityBytes \<noteq> 0 \<and> vol_VolumeSize existing \<noteq> capacityBytes then
                 throw (StatusErr AlreadyExists (''Volume '' @ sq volumePath @
                   '' already exists, but with a different size: requested='' @ strconv_Itoa capacityBytes @
                   '', existing='' @ strconv_Itoa (vol_VolumeSize existing)))
               else ret ())
         else throw (StatusErr Internal (''Cannot create volume '' @ sq volumePath @ '': '' @ errText L err)))
       ret"

text \<open>The requested size is an argument the code does not use.\<close>

definition createNewVolumeFromSnapshot ::
    "'w lib \<Rightarrow> provider option \<Rightarrow> string \<Rightarrow> string \<Rightarrow> int \<Rightarrow> ('w st, unit) M" where
  "createNewVolumeFromSnapshot L nsProvider sourceSnapshotID volumePath capacityBytes =
     attempt (ns_GetSnapshot L nsProvider sourceSnapshotID)
       (\<lambda>err.
         let message = ''Failed to find snapshot '' @ sq sourceSnapshotID @ '': '' @ errText L err in
         if IsNotExistNefError L err \<or> IsBadArgNefError L err then throw (StatusErr NotFound message)
         else throw (StatusErr NotFound message))
       (\<lambda>snapshot.
         attempt (ns_do L nsProvider (CloneSnapshotCmd (snap_Path snapshot) volumePath))
           (\<lambda>err.
             if IsAlreadyExistNefError L err then ret ()
             else throw (StatusErr Internal (''Cannot create volume '' @ sq volumePath @
               '' using snapshot '' @ sq (snap_Path snapshot) @ '': '' @ errText L err)))
           ret)"

text \<open>The loop over the snapshots of the group: the first one with the name but another parent.\<close>

fun foreign_snapshot :: "string \<Rightarrow> string \<Rightarrow> ns_Snapshot list \<Rightarrow> ns_Snapshot option" where
  "foreign_snapshot volumePath snapName [] = None"
| "foreign_snapshot volumePath snapName (s # ss) =
     (if snap_Name s = snapName \<and> snap_Parent s \<noteq> volumePath then Some s
      else foreign_snapshot volumePath snapName ss)"

definition CreateSnapshotOnNS ::
    "'w lib \<Rightarrow> provider option \<Rightarrow> string \<Rightarrow> string \<Rightarrow> ('w st, ns_Snapshot) M" where
  "CreateSnapshotOnNS L nsProvider volumePath snapName =
     (let sourcePath = filepath_Dir volumePath in
     attempt (ns_GetSnapshots L nsProvider sourcePath True)
       (\<lambda>err. throw (StatusErr NotFound (''Cannot get snapshots list: '' @ errText L err)))
       (\<lambda>existingSnapshots.
         case foreign_snapshot volumePath snapName existingSnapshots of
           Some s \<Rightarrow> throw (StatusErr AlreadyExists (''Snapshot '' @ sq snapName @
             '' already exists for filesystem: '' @ snap_Path s))
         | None \<Rightarrow>
             let snapshotPath = volumePath @ ''@'' @ snapName in
             bind (attempt (ns_do L nsProvider (CreateSnapshotCmd snapshotPath))
               (\<lambda>err. if \<not> IsAlreadyExistNefError L err then
                        throw (StatusErr Internal (''Cannot create snapshot '' @ sq snapshotPath @
                          '': '' @ errText L err))
                      else ret ())
               ret) (\<lambda>_.
             attempt (ns_GetSnapshot L nsProvider snapshotPath)
               (\<lambda>err. throw (StatusErr Internal (''Snapshot '' @ sq snapshotPath @
                  '' has been created, but snapshot properties request failed: '' @ errText L err)))
               ret)))"

definition createClonedVolume ::
    "'w lib \<Rightarrow> provider option \<Rightarrow> string \<Rightarrow> string \<Rightarrow> string \<Rightarrow> int \<Rightarrow> ('w st, unit) M" where
  "createClonedVolume L nsProvider sourceVolumeID volumePath volumeName capacityBytes =
     (let snapName = ''k8s-clone-snapshot-'' @ volumeName;
          snapshotPath = sourceVolumeID @ ''@'' @ snapName in
     bind (CreateSnapshotOnNS L nsProvider sourceVolumeID snapName) (\<lambda>_.
     attempt (ns_do L nsProvider (CloneSnapshotCmd snapshotPath volumePath))
       (\<lambda>err.
         if IsAlreadyExistNefError L err then ret ()
         else throw (StatusErr NotFound (''Cannot create volume '' @ sq volumePath @
           '' using snapshot '' @ sq snapshotPath @ '': '' @ errText L err)))
       ret))"

section \<open>CreateVolume\<close>

text \<open>Group, configuration name and sparseness from the parameters.\<close>

definition create_params :: "'w lib \<Rightarrow> string gomap \<Rightarrow> ('w st, string \<times> string \<times> bool) M" where
  "create_params L reqParams =
     (let volumeGroup = (case map_of reqParams ''volumeGroup'' of Some v \<Rightarrow> v | None \<Rightarrow> []);
          configName = (case map_of reqParams ''configName'' of Some v \<Rightarrow> v | None \<Rightarrow> []) in
     case map_of reqParams ''sparseVolume'' of
       None \<Rightarrow> ret (volumeGroup, configName, DefaultSparseVolume)
     | Some v \<Rightarrow> (case strconv_ParseBool v of
           Inl err \<Rightarrow> throw (StatusErr InvalidArgument (''Could not parse sparseVolume parameter = '' @ v @
             '', error: '' @ errText L err))
         | Inr b \<Rightarrow> ret (volumeGroup, configName, b)))"

text \<open>The ids of the source snapshot and the source volume, and the source of the response.\<close>

definition create_source ::
    "content_source option \<Rightarrow> ('w st, string \<times> string \<times> content_source option) M" where
  "create_source cs =
     (case cs of
        None \<Rightarrow> ret ([], [], None)
      | Some (SourceSnapshot i) \<Rightarrow> ret (i, [], cs)
      | Some (SourceVolume i) \<Rightarrow> ret ([], i, cs)
      | Some SourceUnset \<Rightarrow> throw (StatusErr InvalidArgument
          (''Only snapshots and volumes are supported as volume content source, but got type: %!s(<nil>)'')))"

text \<open>Resolve, then make the volume in one of the three ways; the path is built from the resolved
  group and the requested name.\<close>

definition create_provision :: "'w lib \<Rightarrow> ResolveNSParams \<Rightarrow> string \<Rightarrow> string \<Rightarrow> string \<Rightarrow> int \<Rightarrow> bool \<Rightarrow>
    ('w st, ResolveNSResponse \<times> string) M" where
  "create_provision L params sourceSnapshotId sourceVolumeId volumeName capacityBytes sparse =
     (if sourceSnapshotId \<noteq> [] then
        (case two (strings_Split sourceSnapshotId '':'') of
           None \<Rightarrow> throw (StatusErr NotFound (''SnapshotId is in wrong format: '' @ sourceSnapshotId))
         | Some (configName, sourceSnapshot) \<Rightarrow>
             bind (resolveNS L (params\<lparr>rp_configName := configName\<rparr>)) (\<lambda>r.
             let volumePath = filepath_Join [rr_volumeGroup r, volumeName] in
             bind (createNewVolumeFromSnapshot L (rr_nsProvider r) sourceSnapshot volumePath capacityBytes)
               (\<lambda>_. ret (r, volumePath))))
      else if sourceVolumeId \<noteq> [] then
        (case two (strings_Split sourceVolumeId '':'') of
           None \<Rightarrow> throw (StatusErr NotFound (''VolumeId is in wrong format: '' @ sourceVolumeId))
         | Some (configName, sourceVolume) \<Rightarrow>
             bind (resolveNS L (params\<lparr>rp_configName := configName\<rparr>)) (\<lambda>r.
             let volumePath = filepath_Join [rr_volumeGroup r, volumeName] in
             bind (createClonedVolume L (rr_nsProvider r) sourceVolume volumePath volumeName capacityBytes)
               (\<lambda>_. ret (r, volumePath))))
      else
        bind (resolveNS L params) (\<lambda>r.
        let volumePath = filepath_Join [rr_volumeGroup r, volumeName] in
        bind (createNewVolume L (rr_nsProvider r) volumePath capacityBytes sparse)
          (\<lambda>_. ret (r, volumePath))))"

text \<open>\<open>if v, ok := reqParams[k]; ok { x = v } else { x = d }\<close>\<close>

definition param_or :: "string gomap \<Rightarrow> string \<Rightarrow> string \<Rightarrow> string" where
  "param_or ps k d = (case map_of ps k of Some v \<Rightarrow> v | None \<Rightarrow> d)"

definition volume_context :: "string gomap \<Rightarrow> NsData \<Rightarrow> string \<Rightarrow> string gomap" where
  "volume_context ps cfg volumeGroup =
     [(''DataIP'', param_or ps ''dataIP'' (DefaultDataIP cfg)),
      (''VolumeGroup'', volumeGroup),
      (''Target'', param_or ps ''target'' (DefaultTarget cfg)),
      (''TargetGroup'', param_or ps ''targetGroup'' (DefaultTargetGroup cfg)),
      (''HostGroup'', param_or ps ''hostGroup'' (DefaultHostGroup cfg)),
      (''iSCSIPort'', param_or ps ''iSCSIPort'' (DefaultISCSIPort cfg)),
      (''iSCSITargetPrefix'', param_or ps ''iSCSITargetPrefix'' (ISCSITargetPrefix cfg)),
      (''numOfLunsPerTarget'', param_or ps ''numOfLunsPerTarget'' (NumOfLunsPerTarget cfg)),
      (''useChapAuth'', param_or ps ''useChapAuth'' (UseChapAuth cfg)),
      (''chapUser'', param_or ps ''chapUser'' (ChapUser cfg)),
      (''chapSecret'', param_or ps ''chapSecret'' (ChapSecret cfg)),
      (''mountPointPermissions'', param_or ps ''mountPointPermissions'' (MountPointPermissions cfg))]"

definition create_response :: "CreateVolumeRequest \<Rightarrow> NsData \<Rightarrow> content_source option \<Rightarrow> string \<Rightarrow> int \<Rightarrow>
    ResolveNSResponse \<Rightarrow> string \<Rightarrow> CreateVolumeResponse" where
  "create_response req cfg contentSource zone capacityBytes r volumePath =
     \<lparr>cr_ContentSource = contentSource,
      cr_VolumeId = rr_configName r @ '':'' @ volumePath,
      cr_CapacityBytes = capacityBytes,
      cr_VolumeContext = volume_context (cv_Parameters req) cfg (rr_volumeGroup r),
      cr_AccessibleTopology = (if length zone > 0 then [[(TopologyKeyZone, zone)]] else [])\<rparr>"

definition requested_capacity :: "int option \<Rightarrow> int" where
  "requested_capacity rng =
     (let capacityBytes = (case rng of None \<Rightarrow> 0 | Some n \<Rightarrow> n)
      in if capacityBytes = 0 then 1073741824 else capacityBytes)"

definition CreateVolume :: "'w lib \<Rightarrow> CreateVolumeRequest \<Rightarrow> ('w st, CreateVolumeResponse) M" where
  "CreateVolume L req =
     (if length (cv_Name req) = 0 then
        throw (StatusErr InvalidArgument ''req.Name must be provided'')
      else
        bind (ctrl_use_config L (cv_Secrets req)) (\<lambda>_.
        if cv_VolumeCapabilities req = [] then
          throw (StatusErr InvalidArgument ''req.VolumeCapabilities must be provided'')
        else case first_unsupported (cv_VolumeCapabilities req) of
          Some c \<Rightarrow> throw (StatusErr FailedPrecondition (unsupported_mode L c))
        | None \<Rightarrow>
        bind (create_params L (cv_Parameters req)) (\<lambda>(volumeGroup, configName, sparse).
        bind (create_source (cv_VolumeContentSource req)) (\<lambda>(sourceSnapshotId, sourceVolumeId, contentSource).
        let zone = pickAvailabilityZone (cv_AccessibilityRequirements req);
            params = \<lparr>rp_volumeGroup = volumeGroup, rp_zone = zone, rp_configName = configName\<rparr>;
            capacityBytes = requested_capacity (cv_CapacityRange req) in
        bind (create_provision L params sourceSnapshotId sourceVolumeId (cv_Name req) capacityBytes sparse)
          (\<lambda>(r, volumePath).
        bind (gets (\<lambda>s. ns_data (conf s) (rr_configName r))) (\<lambda>cfg.
        ret (create_response req cfg contentSource zone capacityBytes r volumePath)))))))"

section \<open>DeleteVolume\<close>

definition destroy_luns :: "'w lib \<Rightarrow> provider option \<Rightarrow> ns_LunMapping list \<Rightarrow> ('w st, unit) M" where
  "destroy_luns L nsProvider luns = forM luns (\<lambda>lun. ns_do L nsProvider (DestroyLunMappingCmd (lun_Id lun)))"

definition luns_of_volume :: "string \<Rightarrow> GetLunMappingsParams" where
  "luns_of_volume volumePath = \<lparr>lm_TargetGroup = [], lm_Volume = volumePath, lm_HostGroup = []\<rparr>"

text \<open>From the resolved provider on.\<close>

definition delete_on :: "'w lib \<Rightarrow> provider option \<Rightarrow> string \<Rightarrow> ('w st, unit) M" where
  "delete_on L nsProvider volumePath =
     bind (ns_GetLunMappings L nsProvider (luns_of_volume volumePath)) (\<lambda>luns.
     bind (destroy_luns L nsProvider luns) (\<lambda>_.
     attempt (ns_do L nsProvider (DestroyVolumeCmd volumePath True True))
       (\<lambda>err. if \<not> IsNotExistNefError L err then
                throw (StatusErr Internal (''Cannot delete '' @ sq volumePath @ '' volume: '' @ errText L err))
              else ret ())
       ret))"

definition DeleteVolume :: "'w lib \<Rightarrow> DeleteVolumeRequest \<Rightarrow> ('w st, unit) M" where
  "DeleteVolume L req =
     bind (ctrl_use_config L (dv_Secrets req)) (\<lambda>_.
     if length (dv_VolumeId req) = 0 then
       throw (StatusErr InvalidArgument ''Volume ID must be provided'')
     else case two (strings_Split (dv_VolumeId req) '':'') of
       None \<Rightarrow> ret ()
     | Some (configName, volumePath) \<Rightarrow>
     case three (strings_Split volumePath ''/'') of
       None \<Rightarrow> ret ()
     | Some (p0, p1, _) \<Rightarrow>
     attempt (resolveNS L \<lparr>rp_volumeGroup = strings_Join [p0, p1] ''/'', rp_zone = [],
                           rp_configName = configName\<rparr>)
       (not_found_ok L ())
       (\<lambda>r. delete_on L (rr_nsProvider r) volumePath))"

end
