(* ===== verification/NodeIscsi.thy ===== *)
theory NodeIscsi
  imports ControllerVolumes
begin

text \<open>
  \<open>pkg/driver/nodeServer.go\<close>, first part: the node server's configuration and resolvers, and what it
  needs to attach a volume over iSCSI: the initiator name and host group of the node, CHAP, the
  choice or creation of a target, the volume context, logging in, and the names of devices.

  A Go function that returns values together with an error, and whose caller may ignore the error
  and use the values, returns the triple here; elsewhere an error is the outcome \<open>Fail\<close>.
\<close>

section \<open>Types and constants\<close>

record ISCSIVolumeContext =
  ic_Address :: string
  ic_Port :: string
  ic_ISCSITarget :: string
  ic_ISCSITargetPrefix :: string
  ic_TargetGroup :: string
  ic_HostGroup :: string
  ic_ChapUser :: string
  ic_ChapSecret :: string
  ic_NumOfLunsPerTarget :: int
  ic_UseChapAuth :: bool
  ic_ISCSITimeout :: int

record CreateMappingParams =
  mp_TargetGroup :: string
  mp_VolumePath :: string
  mp_HostGroup :: string

definition DefaultISCSITargetPrefix :: string where
  "DefaultISCSITargetPrefix = ''iqn.2005-07.com.nexenta''"

definition DefaultFsType :: string where
  "DefaultFsType = ''ext4''"

definition DefaultISCSIPort_const :: string where
  "DefaultISCSIPort_const = ''3260''"

definition HostGroupPrefix :: string where
  "HostGroupPrefix = ''csi''"

definition PathToInitiatorName :: string where
  "PathToInitiatorName = ''/host/etc/iscsi/initiatorname.iscsi''"

definition DefaultNumOfLunsPerTarget :: int where
  "DefaultNumOfLunsPerTarget = 256"

definition DefaultUseChapAuth :: bool where
  "DefaultUseChapAuth = False"

text \<open>\<open>0750\<close>\<close>

definition DefaultMountPointPermissions :: file_mode where
  "DefaultMountPointPermissions = 488"

definition DefaultISCSITimeout :: int where
  "DefaultISCSITimeout = 300"

section \<open>Configuration and resolvers\<close>

text \<open>The pointer \<open>ns.NewResolver\<close> returns is stored before the error is looked at.\<close>

definition node_refresh_step :: "'w lib \<Rightarrow> string \<times> NsData \<Rightarrow> ('w st, unit) M" where
  "node_refresh_step L = (\<lambda>(name, cfg).
     deref (InsecureSkipVerify cfg) (\<lambda>skip.
     bind (ns_NewResolver L (resolver_args cfg skip)) (\<lambda>(r, err).
     bind (modify (\<lambda>s. s\<lparr>nodeResolvers := AList.update name r (nodeResolvers s)\<rparr>)) (\<lambda>_.
     case err of None \<Rightarrow> ret () | Some e \<Rightarrow> throw (resolver_error L e)))))"

definition node_refreshConfig :: "'w lib \<Rightarrow> string \<Rightarrow> ('w st, unit) M" where
  "node_refreshConfig L secret =
     bind (Refresh L secret) (\<lambda>changed.
     if changed then
       bind (gets (\<lambda>s. NsMap (conf s))) (\<lambda>m.
       bind (goRange L m) (\<lambda>es.
       forM es (node_refresh_step L)))
     else ret ())"

definition new_node_step ::
    "'w lib \<Rightarrow> resolver option gomap \<Rightarrow> string \<times> NsData \<Rightarrow> ('w st, resolver option gomap) M" where
  "new_node_step L m = (\<lambda>(name, cfg).
     deref (InsecureSkipVerify cfg) (\<lambda>skip.
     bind (ns_NewResolver L (resolver_args cfg skip)) (\<lambda>(r, err).
     case err of
       Some e \<Rightarrow> throw (resolver_error L e)
     | None \<Rightarrow> ret (AList.update name r m))))"

definition NewNodeServer :: "'w lib \<Rightarrow> ('w st, unit) M" where
  "NewNodeServer L =
     bind (gets (\<lambda>s. NsMap (conf s))) (\<lambda>m.
     bind (goRange L m) (\<lambda>es.
     bind (foldM (new_node_step L) [] es) (\<lambda>rm.
     modify (\<lambda>s. s\<lparr>nodeResolvers := rm\<rparr>))))"

text \<open>The pick of the secret and the refresh, as in the handlers.\<close>

definition node_use_config :: "'w lib \<Rightarrow> string gomap \<Rightarrow> ('w st, unit) M" where
  "node_use_config L secrets =
     bind (pick_secret L secrets) (\<lambda>secret.
     attempt (node_refreshConfig L secret)
       (\<lambda>e. throw (StatusErr FailedPrecondition (cannot_use_config L e)))
       ret)"

text \<open>\<open>s.nsResolverMap[configName]\<close>: nil where the name is missing.\<close>

definition node_resolver :: "'w st \<Rightarrow> string \<Rightarrow> resolver option" where
  "node_resolver s name = (case map_of (nodeResolvers s) name of None \<Rightarrow> None | Some r \<Rightarrow> r)"

definition node_resolveNS ::
    "'w lib \<Rightarrow> string \<Rightarrow> string \<Rightarrow> ('w st, provider option \<times> string) M" where
  "node_resolveNS L configName volumeGroup =
     bind (gets (\<lambda>s. node_resolver s configName)) (\<lambda>resolver.
     bind (ns_ResolveFromVg L resolver volumeGroup) (\<lambda>(nsProvider, err).
     case err of
       Some e \<Rightarrow> throw (resolve_failed L volumeGroup e)
     | None \<Rightarrow> ret (nsProvider, configName)))"

section \<open>The initiator of the node\<close>

text \<open>The loop over the lines; the last matching line wins.\<close>

fun iqn_loop :: "string \<Rightarrow> string list \<Rightarrow> string" where
  "iqn_loop name [] = name"
| "iqn_loop name (line # ls) =
     iqn_loop (if strings_HasPrefix line ''InitiatorName='' \<and> length line > 0
               then strings_Split line ''InitiatorName='' ! 1 else name) ls"

definition newline :: string where
  "newline = [CHR 0x0A]"

definition GetNodeIQN :: "'w lib \<Rightarrow> ('w st, string) M" where
  "GetNodeIQN L =
     bind (os_ReadFile L PathToInitiatorName) (\<lambda>content.
     let initiatorName = iqn_loop [] (strings_Split content newline) in
     if initiatorName = [] then throw (PlainErr ''Node's initiatorname must not be empty'')
     else ret initiatorName)"

text \<open>The first group with a member that is the node.\<close>

fun group_with_member :: "ns_HostGroup list \<Rightarrow> string \<Rightarrow> string option" where
  "group_with_member [] iqn = None"
| "group_with_member (g # gs) iqn =
     (if iqn \<in> set (hg_Members g) then Some (hg_Name g) else group_with_member gs iqn)"

definition CreateUpdateHostGroup :: "'w lib \<Rightarrow> provider option \<Rightarrow> ('w st, string) M" where
  "CreateUpdateHostGroup L nsProvider =
     bind (GetNodeIQN L) (\<lambda>nodeIQN.
     bind (ns_GetHostGroups L nsProvider) (\<lambda>hostGroups.
     case group_with_member hostGroups nodeIQN of
       Some name \<Rightarrow> ret name
     | None \<Rightarrow>
         bind (uuid_New L) (\<lambda>u.
         let name = HostGroupPrefix @ ''-'' @ u in
         bind (ns_do L nsProvider (CreateHostGroupCmd name [nodeIQN])) (\<lambda>_.
         ret name))))"

definition SetChapAuth ::
    "'w lib \<Rightarrow> string \<Rightarrow> string \<Rightarrow> string \<Rightarrow> provider option \<Rightarrow> ('w st, unit) M" where
  "SetChapAuth L name chapUser chapSecret nsProvider =
     (if name = [] then throw (StatusErr InvalidArgument ''iSCSI IQN not provided'')
      else if chapSecret = [] then throw (StatusErr InvalidArgument ''chapSecret not provided'')
      else attempt (ns_GetRemoteInitiator L nsProvider name)
        (\<lambda>err. if IsNotExistNefError L err then
                 ns_do L nsProvider (CreateRemoteInitiatorCmd name chapUser chapSecret)
               else throw err)
        (\<lambda>_. ns_do L nsProvider (UpdateRemoteInitiatorCmd name chapUser chapSecret)))"

section \<open>The target\<close>

text \<open>Name and group of the target to create.\<close>

definition new_target_name :: "'w lib \<Rightarrow> ISCSIVolumeContext \<Rightarrow> ('w st, string \<times> string) M" where
  "new_target_name L ctx =
     (if ic_ISCSITarget ctx = [] then
        bind (uuid_New L) (\<lambda>targetGroup. ret (ic_ISCSITargetPrefix ctx @ '':'' @ targetGroup, targetGroup))
      else
        ret (ic_ISCSITarget ctx,
             if ic_TargetGroup ctx = [] then last (strings_Split (ic_ISCSITarget ctx) '':'')
             else ic_TargetGroup ctx))"

text \<open>
  The error of \<open>CreateUpdateTargetGroup\<close> is looked at only in the last statement, because the CHAP
  branch declares an \<open>err\<close> of its own.
\<close>

definition CreateNewTargetTg ::
    "'w lib \<Rightarrow> ISCSIVolumeContext \<Rightarrow> provider option \<Rightarrow> ('w st, string \<times> string \<times> error option) M" where
  "CreateNewTargetTg L ctx nsProvider =
     bind (new_target_name L ctx) (\<lambda>(target, targetGroup).
     let failed = (\<lambda>err. ret (target, targetGroup, Some err)) in
     case strconv_Atoi (ic_Port ctx) of
       Inl err \<Rightarrow> failed err
     | Inr portInt \<Rightarrow>
     attempt (ns_do L nsProvider (CreateISCSITargetCmd target [(ic_Address ctx, portInt)])) failed (\<lambda>_.
     bind (attempt (ns_do L nsProvider (CreateUpdateTargetGroupCmd targetGroup [target]))
       (\<lambda>err. ret (Some err)) (\<lambda>_. ret None)) (\<lambda>tgErr.
     if ic_UseChapAuth ctx then
       attempt (GetNodeIQN L) failed (\<lambda>nodeIQN.
       attempt (SetChapAuth L nodeIQN (ic_ChapUser ctx) (ic_ChapSecret ctx) nsProvider) failed (\<lambda>_.
       attempt (ns_do L nsProvider (UpdateISCSITargetCmd target ''chap'')) failed (\<lambda>_.
       ret (target, targetGroup, tgErr))))
     else ret (target, targetGroup, tgErr))))"

text \<open>The nested loops of \<open>ResolveTargetGroup\<close> visit the targets of the groups in this order.\<close>

definition target_candidates :: "ns_TargetGroup list \<Rightarrow> (string \<times> string) list" where
  "target_candidates tgs = concat (map (\<lambda>tg. map (\<lambda>m. (tg_Name tg, m)) (tg_Members tg)) tgs)"

definition luns_of_group :: "string \<Rightarrow> GetLunMappingsParams" where
  "luns_of_group tg = \<lparr>lm_TargetGroup = tg, lm_Volume = [], lm_HostGroup = []\<rparr>"

text \<open>
  The body of the loops and what follows them; \<open>minLuns\<close>, \<open>minTargetGroup\<close> and \<open>target\<close> are the
  variables of the code. An error of \<open>GetLunMappings\<close> ends the search without an error.
\<close>

fun target_loop :: "'w lib \<Rightarrow> ISCSIVolumeContext \<Rightarrow> provider option \<Rightarrow> int \<Rightarrow> string \<Rightarrow> string \<Rightarrow>
    (string \<times> string) list \<Rightarrow> ('w st, string \<times> string \<times> error option) M" where
  "target_loop L ctx p minLuns minTargetGroup target [] =
     (if minTargetGroup \<noteq> [] then ret (target, minTargetGroup, None)
      else CreateNewTargetTg L ctx p)"
| "target_loop L ctx p minLuns minTargetGroup target ((tgName, currentTarget) # cs) =
     (if strings_HasPrefix currentTarget (ic_ISCSITargetPrefix ctx) then
        attempt (ns_GetLunMappings L p (luns_of_group tgName))
          (\<lambda>_. ret (target, [], None))
          (\<lambda>luns.
            let n = int (length luns) in
            if (minLuns = 0 \<or> n < minLuns) \<and> n < ic_NumOfLunsPerTarget ctx then
              attempt (ns_GetISCSITarget L p currentTarget)
                (\<lambda>err. ret (target, minTargetGroup, Some err))
                (\<lambda>authentication.
                  if ic_UseChapAuth ctx then
                    if authentication \<noteq> ''chap'' then target_loop L ctx p minLuns minTargetGroup target cs
                    else
                      attempt (GetNodeIQN L) (\<lambda>err. ret (target, [], Some err)) (\<lambda>nodeIQN.
                      attempt (SetChapAuth L nodeIQN (ic_ChapUser ctx) (ic_ChapSecret ctx) p)
                        (\<lambda>err. ret (target, [], Some err)) (\<lambda>_.
                      target_loop L ctx p n tgName currentTarget cs))
                  else
                    if authentication = ''chap'' then target_loop L ctx p minLuns minTargetGroup target cs
                    else target_loop L ctx p n tgName currentTarget cs)
            else target_loop L ctx p minLuns minTargetGroup target cs)
      else target_loop L ctx p minLuns minTargetGroup target cs)"

definition ResolveTargetGroup ::
    "'w lib \<Rightarrow> ISCSIVolumeContext \<Rightarrow> provider option \<Rightarrow> ('w st, string \<times> string \<times> error option) M" where
  "ResolveTargetGroup L ctx nsProvider =
     attempt (ns_GetTargetGroups L nsProvider)
       (\<lambda>_. ret ([], [], None))
       (\<lambda>targetGroups. target_loop L ctx nsProvider 0 [] [] (target_candidates targetGroups))"

section \<open>The volume context\<close>

definition parse_timeout :: "NsData \<Rightarrow> int" where
  "parse_timeout cfg =
     (if ISCSITimeout cfg \<noteq> [] then
        (case strconv_Atoi (ISCSITimeout cfg) of Inl _ \<Rightarrow> DefaultISCSITimeout | Inr n \<Rightarrow> n)
      else DefaultISCSITimeout)"

definition parse_port :: "string gomap \<Rightarrow> NsData \<Rightarrow> string" where
  "parse_port ctx cfg =
     (if get_str ctx ''iSCSIPort'' = [] then
        if DefaultISCSIPort cfg \<noteq> [] then DefaultISCSIPort cfg else DefaultISCSIPort_const
      else get_str ctx ''iSCSIPort'')"

definition parse_host_group ::
    "'w lib \<Rightarrow> string gomap \<Rightarrow> NsData \<Rightarrow> provider option \<Rightarrow> ('w st, string) M" where
  "parse_host_group L ctx cfg nsProvider =
     (if get_str ctx ''HostGroup'' = [] then
        if DefaultHostGroup cfg \<noteq> [] then ret (DefaultHostGroup cfg)
        else CreateUpdateHostGroup L nsProvider
      else ret (get_str ctx ''HostGroup''))"

text \<open>The user and the secret for CHAP.\<close>

definition parse_chap :: "string gomap \<Rightarrow> bool \<Rightarrow> error + string \<times> string" where
  "parse_chap ctx useChap =
     (if useChap then
        (case map_of ctx ''chapUser'' of
           None \<Rightarrow> Inl (PlainErr ''useChapAuth is set to true, but chapUser is not set'')
         | Some u \<Rightarrow> (case map_of ctx ''chapSecret'' of
             None \<Rightarrow> Inl (PlainErr ''useChapAuth is set to true, but chapSecret is not set'')
           | Some k \<Rightarrow> Inr (u, k)))
      else Inr ([], []))"

definition ParseVolumeContext :: "'w lib \<Rightarrow> string gomap \<Rightarrow> provider option \<Rightarrow> string \<Rightarrow>
    ('w st, ISCSIVolumeContext) M" where
  "ParseVolumeContext L volumeContext nsProvider configName =
     bind (gets (\<lambda>s. ns_data (conf s) configName)) (\<lambda>cfg.
     bind (parse_host_group L volumeContext cfg nsProvider) (\<lambda>hostGroup.
     let useChap = (case strconv_ParseBool (get_str volumeContext ''useChapAuth'') of
           Inl _ \<Rightarrow> DefaultUseChapAuth | Inr b \<Rightarrow> b) in
     bind (lift_sum (parse_chap volumeContext useChap)) (\<lambda>(chapUser, chapSecret).
     ret \<lparr>ic_Address = (if get_str volumeContext ''dataIP'' = [] then DefaultDataIP cfg
                        else get_str volumeContext ''dataIP''),
          ic_Port = parse_port volumeContext cfg,
          ic_ISCSITarget = get_str volumeContext ''Target'',
          ic_ISCSITargetPrefix = (if ISCSITargetPrefix cfg = [] then DefaultISCSITargetPrefix
                                  else ISCSITargetPrefix cfg),
          ic_TargetGroup = get_str volumeContext ''TargetGroup'',
          ic_HostGroup = hostGroup,
          ic_ChapUser = chapUser,
          ic_ChapSecret = chapSecret,
          ic_NumOfLunsPerTarget = (case strconv_Atoi (get_str volumeContext ''numOfLunsPerTarget'') of
             Inl _ \<Rightarrow> DefaultNumOfLunsPerTarget | Inr n \<Rightarrow> n),
          ic_UseChapAuth = useChap,
          ic_ISCSITimeout = parse_timeout cfg\<rparr>)))"

section \<open>Devices\<close>

definition ISCSILogInRescan :: "'w lib \<Rightarrow> string \<Rightarrow> string \<Rightarrow> ('w st, unit) M" where
  "ISCSILogInRescan L target portal =
     bind (os_exec L [''iscsiadm'', ''-m'', ''discovery'', ''-t'', ''sendtargets'', ''-p'', portal]) (\<lambda>(out, err).
     case err of Some e \<Rightarrow> throw e | None \<Rightarrow>
     bind (os_exec L [''iscsiadm'', ''-m'', ''node'', ''-T'', target, ''-p'', portal, ''-l'']) (\<lambda>(out, err).
     case err of None \<Rightarrow> ret () | Some e \<Rightarrow>
       if \<not> strings_Contains out ''already present'' then
         throw (StatusErr Unauthenticated (''Was not able to login to target, err: '' @ errText L e))
       else
         bind (os_exec L [''iscsiadm'', ''-m'', ''node'', ''-T'', target, ''-p'', portal, ''--rescan''])
           (\<lambda>(out, err). case err of Some e \<Rightarrow> throw e | None \<Rightarrow> ret ())))"

definition GetRealDeviceName :: "'w lib \<Rightarrow> string \<Rightarrow> ('w st, string) M" where
  "GetRealDeviceName L symLink =
     bind (os_EvalSymlinks L (''/host/'' @ symLink)) (\<lambda>devName.
     ret (if strings_HasPrefix devName ''/host'' then strings_TrimPrefix devName ''/host'' else devName))"

text \<open>\<open>0x%04x%013d\<close> without the last digit for a LUN above 255.\<close>

definition ConstructDevByPath :: "string \<Rightarrow> string \<Rightarrow> int \<Rightarrow> string" where
  "ConstructDevByPath portal iSCSITarget lunNumber =
     (let strLun = (if lunNumber > 255 then
            strings_TrimSuffix (''0x'' @ pad_zero 4 (digits 16 (nat lunNumber)) @ pad_zero 13 (digits 10 1)) ''1''
          else strconv_Itoa lunNumber)
      in strings_Join [''/dev/disk/by-path/ip'', portal, ''iscsi'', iSCSITarget, ''lun'', strLun] ''-'')"

definition CreateISCSIMapping :: "'w lib \<Rightarrow> CreateMappingParams \<Rightarrow> provider option \<Rightarrow> ('w st, unit) M" where
  "CreateISCSIMapping L ps nsProvider =
     ns_do L nsProvider (CreateLunMappingCmd (mp_VolumePath ps) (mp_TargetGroup ps) (mp_HostGroup ps))"

definition block_state_file :: "string \<Rightarrow> string \<Rightarrow> string \<Rightarrow> string" where
  "block_state_file root devName file =
     root @ ''/sys/block'' @ strings_TrimPrefix devName ''/dev'' @ ''/device/'' @ file"

text \<open>Each write returns early when nothing was written.\<close>

definition RemoveDevice :: "'w lib \<Rightarrow> string \<Rightarrow> ('w st, unit) M" where
  "RemoveDevice L devName =
     (let stateFile = block_state_file ''/host'' devName ''state'';
          deleteFile = block_state_file ''/host'' devName ''delete'' in
     bind (os_do L (OpenFile stateFile)) (\<lambda>_.
     bind (file_WriteString L stateFile (''offline'' @ newline)) (\<lambda>written.
     if written = 0 then ret ()
     else
       bind (os_do L (OpenFile deleteFile)) (\<lambda>_.
       bind (file_WriteString L deleteFile ''1'') (\<lambda>written. ret ())))))"

definition RescanDevice :: "'w lib \<Rightarrow> string \<Rightarrow> ('w st, unit) M" where
  "RescanDevice L devName =
     (let rescanFile = block_state_file [] devName ''rescan'' in
     attempt (os_do L (OpenFile rescanFile)) (\<lambda>_. ret ()) (\<lambda>_.
     attempt (file_WriteString L rescanFile ''1'') (\<lambda>_. ret ()) (\<lambda>written. ret ())))"

definition DeviceFromTargetPath :: "'w lib \<Rightarrow> string \<Rightarrow> ('w st, string) M" where
  "DeviceFromTargetPath L volumePath =
     (let no_device = (\<lambda>e. StatusErr Internal (''Could not determine device path: '' @ errText L e)) in
     bind (os_exec L [''findmnt'', ''-o'', ''source'', ''--noheadings'', ''--target'', volumePath]) (\<lambda>(out, err).
     case err of Some e \<Rightarrow> throw (no_device e) | None \<Rightarrow>
     let devicePath = strings_TrimSpace out in
     bind (os_exec L [''findmnt'', ''-o'', ''source'', ''--noheadings'', ''--target'', ''/'']) (\<lambda>(out, err).
     case err of Some e \<Rightarrow> throw (no_device e) | None \<Rightarrow>
     let rootDevice = strings_TrimSpace out in
     if devicePath = rootDevice then
       throw (StatusErr InvalidArgument (''volumePath '' @ volumePath @ '' returned '' @ devicePath @
         '' device which is a root device''))
     else ret devicePath)))"

definition getBlockSizeBytes :: "'w lib \<Rightarrow> string \<Rightarrow> ('w st, int) M" where
  "getBlockSizeBytes L devicePath =
     bind (os_exec L [''blockdev'', ''--getsize64'', devicePath]) (\<lambda>(out, err).
     case err of
       Some e \<Rightarrow> throw (PlainErr (''error when getting size of block volume at path '' @ devicePath @
         '': output: '' @ out @ '', err: '' @ errText L e))
     | None \<Rightarrow>
         let strOut = strings_TrimSpace out in
         (case strconv_ParseInt strOut 10 64 of
            Inl _ \<Rightarrow> throw (PlainErr (''failed to parse size '' @ strOut @ '' as int''))
          | Inr n \<Rightarrow> ret n))"

text \<open>\<open>S_IFMT\<close> and \<open>S_IFBLK\<close>.\<close>

definition IsBlockDevice :: "'w lib \<Rightarrow> string \<Rightarrow> ('w st, bool) M" where
  "IsBlockDevice L fullPath =
     bind (ext_call (StatCall fullPath) (unixMode L fullPath)) (\<lambda>r.
     bind (lift_sum r) (\<lambda>mode. ret (and mode 0xF000 = (0x6000 :: 32 word))))"

text \<open>The loop of \<open>getFSType\<close> over the words of the output; the last one with \<open>TYPE=\<close> wins.\<close>

fun fs_type_loop :: "string \<Rightarrow> string list \<Rightarrow> string" where
  "fs_type_loop fsType [] = fsType"
| "fs_type_loop fsType (v # vs) =
     fs_type_loop (if strings_Contains v ''TYPE='' then
         strings_TrimSpace (strings_Replace (strings_Split v ''='' ! 1) [CHR 0x22] [])
       else fsType) vs"

definition getFSType :: "'w lib \<Rightarrow> string \<Rightarrow> ('w st, string) M" where
  "getFSType L devName =
     bind (os_exec L [''blkid'', devName]) (\<lambda>(out, err).
     case err of
       Some _ \<Rightarrow> ret []
     | None \<Rightarrow> ret (if strings_Contains out ''TYPE='' then fs_type_loop [] (strings_Split out '' '') else []))"

end
