(* ===== verification/NodeStage.thy ===== *)
theory NodeStage
  imports NodeIscsi
begin

text \<open>
  \<open>pkg/driver/nodeServer.go\<close>, second part: staging and unstaging a volume, with formatting and
  mounting.

  The wait of \<open>NodeStageVolume\<close> for the device doubles a 64-bit duration; its recursion is on fuel,
  the outcome \<open>NoFuel\<close> standing for a run that goes on. The handler takes the fuel as an argument.
\<close>

section \<open>Permissions, mounting, formatting\<close>

text \<open>\<open>os.FileMode(octalPerm)\<close> converts an \<open>int64\<close> to 32 bits.\<close>

definition GetMountPointPermissions :: "string gomap \<Rightarrow> error + file_mode" where
  "GetMountPointPermissions volumeContext =
     (let mountPointPermissions = get_str volumeContext ''mountPointPermissions'' in
      if mountPointPermissions = [] then Inr DefaultMountPointPermissions
      else (case strconv_ParseInt mountPointPermissions 8 16 of
          Inl e \<Rightarrow> Inl e
        | Inr octalPerm \<Rightarrow> Inr (word_of_int octalPerm)))"

definition internal_err :: "'w lib \<Rightarrow> error \<Rightarrow> error" where
  "internal_err L e = StatusErr Internal (errText L e)"

definition mount_failed :: "'w lib \<Rightarrow> error \<Rightarrow> error" where
  "mount_failed L e =
     StatusErr (if os_IsPermission e then PermissionDenied
                else if strings_Contains (errText L e) ''invalid argument'' then InvalidArgument
                else Internal) (errText L e)"

definition mountVolume ::
    "'w lib \<Rightarrow> string \<Rightarrow> string \<Rightarrow> string \<Rightarrow> string list \<Rightarrow> file_mode \<Rightarrow> ('w st, unit) M" where
  "mountVolume L devName targetPath fsType mountOptions permissions =
     bind (mounter_IsLikelyNotMountPoint L targetPath) (\<lambda>(notMnt, err).
     bind (case err of
         None \<Rightarrow> ret notMnt
       | Some e \<Rightarrow>
           if os_IsNotExist e then
             attempt (os_do L (MkdirAll targetPath permissions)) (\<lambda>e. throw (internal_err L e)) (\<lambda>_. ret True)
           else throw (internal_err L e)) (\<lambda>notMnt.
     if \<not> notMnt then ret ()
     else
       attempt (os_do L (MountFs devName targetPath fsType mountOptions))
         (\<lambda>e. throw (mount_failed L e))
         (\<lambda>_. os_do L (Chmod targetPath permissions))))"

text \<open>One try of \<open>formatVolume\<close>.\<close>

definition format_try :: "'w lib \<Rightarrow> string \<Rightarrow> string \<Rightarrow> ('w st, unit) M" where
  "format_try L device fstype =
     (let run = (\<lambda>argv. bind (os_exec L argv) (\<lambda>(out, err).
            case err of Some e \<Rightarrow> throw e | None \<Rightarrow> ret ())) in
      if fstype = ''xfs'' then run [''mkfs.xfs'', ''-K'', ''-f'', device]
      else if fstype = ''ext3'' then run [''mkfs.ext3'', ''-E'', ''nodiscard'', ''-F'', device]
      else if fstype = ''ext4'' then run [''mkfs.ext4'', ''-E'', ''nodiscard'', ''-F'', device]
      else throw (PlainErr (''unsupported file system type: '' @ fstype)))"

text \<open>\<open>backoff.RetryNotify\<close>: tried again as long as the policy allows it (\<open>n\<close> more times).\<close>

primrec retry :: "nat \<Rightarrow> ('s, unit) M \<Rightarrow> ('s, unit) M" where
  "retry 0 m = m"
| "retry (Suc n) m = attempt m (\<lambda>_. retry n m) ret"

definition formatVolume :: "'w lib \<Rightarrow> string \<Rightarrow> string \<Rightarrow> ('w st, unit) M" where
  "formatVolume L device fstype =
     bind (backoff_retries L) (\<lambda>n. retry n (format_try L device fstype))"

section \<open>NodeStageVolume\<close>

record NodeStageVolumeRequest =
  ns_VolumeId :: string
  ns_StagingTargetPath :: string
  ns_VolumeCapability :: "VolumeCapability option"
  ns_VolumeContext :: "string gomap"
  ns_Secrets :: "string gomap"

text \<open>Target and target group. The error of \<open>CreateNewTargetTg\<close> is dropped when the allocation is
  not dynamic.\<close>

definition stage_target :: "'w lib \<Rightarrow> NsData \<Rightarrow> ISCSIVolumeContext \<Rightarrow> provider option \<Rightarrow>
    ('w st, string \<times> string) M" where
  "stage_target L cfg ctx nsProvider =
     deref (DynamicTargetLunAllocation cfg) (\<lambda>dynamic.
     if dynamic then
       bind (ResolveTargetGroup L ctx nsProvider) (\<lambda>(target, targetGroup, err).
       case err of Some e \<Rightarrow> throw e | None \<Rightarrow> ret (target, targetGroup))
     else
       bind (CreateNewTargetTg L ctx nsProvider) (\<lambda>(target, targetGroup, err).
       ret (target, targetGroup)))"

text \<open>The LUN number of the mapping, which is created when it does not exist.\<close>

definition stage_lun :: "'w lib \<Rightarrow> string \<Rightarrow> string \<Rightarrow> string \<Rightarrow> string \<Rightarrow> provider option \<Rightarrow>
    ('w st, int) M" where
  "stage_lun L volumeID volumePath targetGroup hostGroup nsProvider =
     (let getLunParams = \<lparr>lm_TargetGroup = targetGroup, lm_Volume = volumePath, lm_HostGroup = hostGroup\<rparr> in
     bind (ns_GetLunMappings L nsProvider getLunParams) (\<lambda>lunMappings.
     bind (if lunMappings = [] then
             bind (CreateISCSIMapping L \<lparr>mp_TargetGroup = targetGroup, mp_VolumePath = volumePath,
                                         mp_HostGroup = hostGroup\<rparr> nsProvider) (\<lambda>_.
             bind (ns_GetLunMappings L nsProvider getLunParams) (\<lambda>lunMappings.
             if lunMappings = [] then
               throw (PlainErr (''The lunmapping request returned OK, but lunmapping cannot be found for volume '' @
                 volumeID))
             else ret lunMappings))
           else ret lunMappings) (\<lambda>lunMappings.
     ret (lun_Lun (hd lunMappings)))))"

text \<open>The staging path is made or changed; the device that is already mounted there, if any.\<close>

definition stage_path :: "'w lib \<Rightarrow> string \<Rightarrow> file_mode \<Rightarrow> ('w st, string) M" where
  "stage_path L targetPath permissions =
     (let there = bind (os_do L (Chmod targetPath permissions)) (\<lambda>_.
            attempt (DeviceFromTargetPath L targetPath) (\<lambda>_. ret []) ret) in
     attempt (os_Stat L targetPath)
       (\<lambda>e. if os_IsNotExist e then
              attempt (os_do L (MkdirAll (filepath_Dir targetPath) permissions))
                (\<lambda>e. throw (internal_err L e)) (\<lambda>_. ret [])
            else there)
       (\<lambda>_. there))"

text \<open>\<open>time.Second\<close> as a 64-bit duration.\<close>

definition time_Second :: duration where
  "time_Second = 1000000000"

fun stage_wait :: "nat \<Rightarrow> 'w lib \<Rightarrow> string \<Rightarrow> string \<Rightarrow> string \<Rightarrow> int \<Rightarrow> duration \<Rightarrow> ('w st, unit) M" where
  "stage_wait 0 L target portal devByPath timeout sleepTime = no_fuel"
| "stage_wait (Suc n) L target portal devByPath timeout sleepTime =
     (if sint sleepTime > sint (word_of_int timeout * time_Second :: duration) then
        throw (StatusErr DeadlineExceeded (''Could not find iSCSI device in '' @ strconv_Itoa timeout @ '' seconds''))
      else
        bind (ISCSILogInRescan L target portal) (\<lambda>_.
        attempt (os_Stat L (filepath_Join [''/host'', devByPath]))
          (\<lambda>e. if os_IsNotExist e then
                 bind (time_Sleep L sleepTime) (\<lambda>_.
                 stage_wait n L target portal devByPath timeout (sleepTime * 2))
               else ret ())
          (\<lambda>_. ret ())))"

text \<open>A raw block volume is linked, any other is formatted when it has no file system, and mounted.\<close>

definition stage_device ::
    "'w lib \<Rightarrow> string \<Rightarrow> VolumeCapability \<Rightarrow> string \<Rightarrow> string \<Rightarrow> file_mode \<Rightarrow> ('w st, unit) M" where
  "stage_device L volumeID cap source targetPath permissions =
     (case vc_AccessType cap of
        AccessBlock \<Rightarrow>
          bind (os_exec L [''ln'', ''-s'', source, filepath_Join [targetPath, ''device'']]) (\<lambda>(out, err).
          case err of Some e \<Rightarrow> throw e | None \<Rightarrow> ret ())
      | AccessUnset \<Rightarrow> throw (StatusErr InvalidArgument ''Mount is nil in volume capability'')
      | AccessMount m \<Rightarrow>
          let fsType = (if length (mv_FsType m) = 0 then DefaultFsType else mv_FsType m) in
          bind (getFSType L source) (\<lambda>deviceFS.
          bind (if deviceFS = [] then formatVolume L source fsType
                else if deviceFS \<noteq> fsType then
                  throw (PlainErr (''Volume '' @ volumeID @ '' is already formatted in '' @ deviceFS @
                    '', requested: '' @ fsType @ '',''))
                else ret ()) (\<lambda>_.
          mountVolume L source targetPath fsType (mv_MountFlags m) permissions)))"

text \<open>From the resolved provider on.\<close>

definition stage_on :: "nat \<Rightarrow> 'w lib \<Rightarrow> NodeStageVolumeRequest \<Rightarrow> VolumeCapability \<Rightarrow> NsData \<Rightarrow>
    provider option \<Rightarrow> string \<Rightarrow> string \<Rightarrow> ('w st, unit) M" where
  "stage_on fuel L req cap cfg nsProvider configName volumePath =
     bind (ParseVolumeContext L (ns_VolumeContext req) nsProvider configName) (\<lambda>ctx.
     bind (stage_target L cfg ctx nsProvider) (\<lambda>(iSCSITarget, targetGroup).
     bind (stage_lun L (ns_VolumeId req) volumePath targetGroup (ic_HostGroup ctx) nsProvider) (\<lambda>lunNumber.
     let portal = ic_Address ctx @ '':'' @ ic_Port ctx in
     bind (ISCSILogInRescan L iSCSITarget portal) (\<lambda>_.
     bind (lift_sum (GetMountPointPermissions (ns_VolumeContext req))) (\<lambda>permissions.
     bind (stage_path L (ns_StagingTargetPath req) permissions) (\<lambda>device.
     let devByPath = ConstructDevByPath portal iSCSITarget lunNumber in
     bind (stage_wait fuel L iSCSITarget portal devByPath (ic_ISCSITimeout ctx) time_Second) (\<lambda>_.
     bind (GetRealDeviceName L devByPath) (\<lambda>source.
     if device = source then ret ()
     else stage_device L (ns_VolumeId req) cap source (ns_StagingTargetPath req) permissions))))))))"

definition NodeStageVolume :: "nat \<Rightarrow> 'w lib \<Rightarrow> NodeStageVolumeRequest \<Rightarrow> ('w st, unit) M" where
  "NodeStageVolume fuel L req =
     (if length (ns_VolumeId req) = 0 then
        throw (StatusErr InvalidArgument ''Volume ID not provided'')
      else if length (ns_StagingTargetPath req) = 0 then
        throw (StatusErr InvalidArgument ''Staging targetPath not provided'')
      else case ns_VolumeCapability req of
        None \<Rightarrow> throw (StatusErr InvalidArgument ''Volume capability not provided'')
      | Some cap \<Rightarrow>
      bind (node_use_config L (ns_Secrets req)) (\<lambda>_.
      case two (strings_Split (ns_VolumeId req) '':'') of
        None \<Rightarrow> throw (StatusErr InvalidArgument (''VolumeId is in wrong format: '' @ ns_VolumeId req))
      | Some (configName, volumePath) \<Rightarrow>
      bind (gets (\<lambda>s. ns_data (conf s) configName)) (\<lambda>cfg.
      bind (node_resolveNS L configName (DefaultVolumeGroup cfg)) (\<lambda>(nsProvider, configName).
      stage_on fuel L req cap cfg nsProvider configName volumePath))))"

section \<open>NodeUnstageVolume\<close>

record NodeUnstageVolumeRequest =
  nu_VolumeId :: string
  nu_StagingTargetPath :: string

definition FlushBufs :: "'w lib \<Rightarrow> string \<Rightarrow> ('w st, unit) M" where
  "FlushBufs L device =
     bind (os_exec L [''blockdev'', ''--flushbufs'', device]) (\<lambda>(out, err).
     case err of
       None \<Rightarrow> ret ()
     | Some e \<Rightarrow> if strings_Contains (errText L e) ''No such'' then ret () else throw e)"

text \<open>The errors of these steps are collected in a list that is only logged.\<close>

definition logged :: "('s, 'a) M \<Rightarrow> 'a \<Rightarrow> ('s, 'a) M" where
  "logged m x = attempt m (\<lambda>_. ret x) ret"

definition unstage_block :: "'w lib \<Rightarrow> string \<Rightarrow> ('w st, string) M" where
  "unstage_block L targetPath =
     bind (os_exec L [''realpath'', filepath_Join [targetPath, ''device'']]) (\<lambda>(out, err).
     let dev = strings_TrimSpace out in
     bind (logged (FlushBufs L dev) ()) (\<lambda>_. ret dev))"

definition unstage_mount :: "'w lib \<Rightarrow> string \<Rightarrow> ('w st, string) M" where
  "unstage_mount L targetPath =
     bind (logged (DeviceFromTargetPath L targetPath) []) (\<lambda>dev.
     bind (mounter_IsLikelyNotMountPoint L targetPath) (\<lambda>(notMountPoint, err).
     bind (if \<not> notMountPoint then logged (os_do L (Unmount targetPath)) () else ret ()) (\<lambda>_.
     ret dev)))"

definition NodeUnstageVolume :: "'w lib \<Rightarrow> NodeUnstageVolumeRequest \<Rightarrow> ('w st, unit) M" where
  "NodeUnstageVolume L req =
     (let targetPath = nu_StagingTargetPath req in
      if length (nu_VolumeId req) = 0 then
        throw (StatusErr InvalidArgument ''req.VolumeId must be provided'')
      else if length targetPath = 0 then
        throw (StatusErr InvalidArgument ''Target path must be provided'')
      else
        bind (if strings_Contains targetPath ''volumeDevices'' then unstage_block L targetPath
              else unstage_mount L targetPath) (\<lambda>dev.
        bind (logged (RemoveDevice L dev) ()) (\<lambda>_.
        attempt (os_do L (RemoveAll targetPath))
          (\<lambda>e. if os_IsNotExist e then ret () else throw e)
          ret)))"

end
