(* ===== verification/NodePublish.thy ===== *)
theory NodePublish
  imports NodeStage
begin

text \<open>
  \<open>pkg/driver/nodeServer.go\<close>, third part: publishing and unpublishing a staged volume, growing it on
  the node, its statistics, and what the node server says about itself.
\<close>

record NodePublishVolumeRequest =
  np_VolumeId :: string
  np_StagingTargetPath :: string
  np_TargetPath :: string
  np_VolumeCapability :: "VolumeCapability option"
  np_VolumeContext :: "string gomap"
  np_Readonly :: bool

record NodeUnpublishVolumeRequest =
  nup_VolumeId :: string
  nup_TargetPath :: string

record NodeExpandVolumeRequest =
  ne_VolumeId :: string
  ne_VolumePath :: string
  ne_VolumeCapability :: "VolumeCapability option"

record NodeGetVolumeStatsRequest =
  ng_VolumeId :: string
  ng_VolumePath :: string

section \<open>NodePublishVolume\<close>

definition publish_block :: "'w lib \<Rightarrow> string \<Rightarrow> string \<Rightarrow> ('w st, unit) M" where
  "publish_block L source targetPath =
     bind (os_exec L [''realpath'', filepath_Join [source, ''device'']]) (\<lambda>(out, err).
     case err of Some e \<Rightarrow> throw e | None \<Rightarrow>
     let devName = strings_TrimSpace out in
     bind (os_exec L [''ln'', ''-s'', devName, targetPath]) (\<lambda>(out, err).
     case err of Some e \<Rightarrow> throw e | None \<Rightarrow> ret ()))"

text \<open>Only the read-only flag of the request becomes a mount option.\<close>

definition publish_mount ::
    "'w lib \<Rightarrow> MountVolume \<Rightarrow> string \<Rightarrow> string \<Rightarrow> bool \<Rightarrow> file_mode \<Rightarrow> ('w st, unit) M" where
  "publish_mount L m source targetPath readonly permissions =
     bind (DeviceFromTargetPath L source) (\<lambda>devName.
     mountVolume L devName targetPath (mv_FsType m) (if readonly then [''ro''] else []) permissions)"

text \<open>A capability that is neither block nor mount is answered with success.\<close>

definition NodePublishVolume :: "'w lib \<Rightarrow> NodePublishVolumeRequest \<Rightarrow> ('w st, unit) M" where
  "NodePublishVolume L req =
     (let source = np_StagingTargetPath req; targetPath = np_TargetPath req in
      if length (np_VolumeId req) = 0 then
        throw (StatusErr InvalidArgument ''Volume ID not provided'')
      else if length source = 0 then
        throw (StatusErr InvalidArgument ''Staging targetPath not provided'')
      else if length targetPath = 0 then
        throw (StatusErr InvalidArgument ''Target path not provided'')
      else case np_VolumeCapability req of
        None \<Rightarrow> throw (StatusErr InvalidArgument ''Volume capability not provided'')
      | Some cap \<Rightarrow>
      bind (lift_sum (GetMountPointPermissions (np_VolumeContext req))) (\<lambda>permissions.
      bind (attempt (os_Stat L targetPath)
          (\<lambda>e. if os_IsNotExist e then
                 attempt (os_do L (MkdirAll (filepath_Dir targetPath) permissions))
                   (\<lambda>e. throw (internal_err L e)) ret
               else ret ())
          (\<lambda>_. ret ())) (\<lambda>_.
      case vc_AccessType cap of
        AccessBlock \<Rightarrow> publish_block L source targetPath
      | AccessMount m \<Rightarrow> publish_mount L m source targetPath (np_Readonly req) permissions
      | AccessUnset \<Rightarrow> ret ())))"

section \<open>NodeUnpublishVolume\<close>

definition NodeUnpublishVolume :: "'w lib \<Rightarrow> NodeUnpublishVolumeRequest \<Rightarrow> ('w st, unit) M" where
  "NodeUnpublishVolume L req =
     (let targetPath = nup_TargetPath req in
      if length (nup_VolumeId req) = 0 then
        throw (StatusErr InvalidArgument ''req.VolumeId must be provided'')
      else if length targetPath = 0 then
        throw (StatusErr InvalidArgument ''Target path must be provided'')
      else
        bind (mounter_IsLikelyNotMountPoint L targetPath) (\<lambda>(notMountPoint, err).
        case err of
          Some e \<Rightarrow>
            if os_IsNotExist e then ret ()
            else throw (StatusErr Internal (''Cannot ensure that targetPath '' @ sq targetPath @
              '' is a mount point: '' @ sq (errText L e)))
        | None \<Rightarrow>
            if notMountPoint then attempt (os_do L (RemoveAll targetPath)) (\<lambda>_. ret ()) ret
            else
              bind (attempt (os_do L (Unmount targetPath))
                (\<lambda>e. if \<not> strings_Contains (errText L e) ''not mounted'' then
                       throw (StatusErr Internal (''Failed to unmount target path '' @ sq targetPath @
                         '': '' @ errText L e))
                     else ret ()) ret) (\<lambda>_.
              attempt (os_do L (RemoveAll targetPath))
                (\<lambda>e. if \<not> os_IsNotExist e then
                       throw (StatusErr Internal (''Cannot remove unmounted target path '' @ sq targetPath @
                         '': '' @ errText L e))
                     else ret ()) ret)))"

section \<open>NodeExpandVolume and NodeGetVolumeStats\<close>

text \<open>The path and the capability are looked at only after the appliance has been asked.\<close>

definition expand_device ::
    "'w lib \<Rightarrow> string \<Rightarrow> string \<Rightarrow> VolumeCapability option \<Rightarrow> ('w st, unit) M" where
  "expand_device L volumeID volumePath cap =
     (case cap of
        Some c \<Rightarrow> (case vc_AccessType c of
            AccessMount _ \<Rightarrow>
              bind (DeviceFromTargetPath L volumePath) (\<lambda>devName.
              bind (RescanDevice L devName) (\<lambda>_.
              attempt (os_do L (ResizeFs devName volumePath))
                (\<lambda>e. throw (StatusErr Internal (''Could not resize volume '' @ quote L volumeID @ '' ('' @
                   quote L devName @ ''):  '' @ errText L e)))
                ret))
          | AccessBlock \<Rightarrow> RescanDevice L volumePath
          | AccessUnset \<Rightarrow> ret ())
      | None \<Rightarrow> ret ())"

definition NodeExpandVolume :: "'w lib \<Rightarrow> NodeExpandVolumeRequest \<Rightarrow> ('w st, unit) M" where
  "NodeExpandVolume L req =
     (if length (ne_VolumeId req) = 0 then
        throw (StatusErr InvalidArgument ''Volume ID not provided'')
      else case two (strings_Split (ne_VolumeId req) '':'') of
        None \<Rightarrow> throw (StatusErr InvalidArgument (''VolumeId is in wrong format: '' @ ne_VolumeId req))
      | Some (configName, volumePath) \<Rightarrow>
      bind (gets (\<lambda>s. ns_data (conf s) configName)) (\<lambda>cfg.
      bind (node_resolveNS L configName (DefaultVolumeGroup cfg)) (\<lambda>(nsProvider, configName).
      attempt (ns_GetVolume L nsProvider volumePath)
        (\<lambda>e. throw (StatusErr NotFound (''Did not find volume '' @ volumePath @ '': '' @ errText L e)))
        (\<lambda>_.
          if length (ne_VolumePath req) = 0 then
            throw (StatusErr InvalidArgument ''Staging volumePath not provided'')
          else expand_device L (ne_VolumeId req) (ne_VolumePath req) (ne_VolumeCapability req)))))"

text \<open>The second part of the id, the path of a volume, is what is resolved as a volume group.\<close>

definition NodeGetVolumeStats :: "'w lib \<Rightarrow> NodeGetVolumeStatsRequest \<Rightarrow> ('w st, int) M" where
  "NodeGetVolumeStats L req =
     (if length (ng_VolumePath req) = 0 then
        throw (StatusErr InvalidArgument ''req.VolumePath must be provided'')
      else if length (ng_VolumeId req) = 0 then
        throw (StatusErr InvalidArgument ''req.VolumeId must be provided'')
      else
        attempt (node_refreshConfig L [])
          (\<lambda>e. throw (StatusErr FailedPrecondition (cannot_use_config L e))) (\<lambda>_.
        case two (strings_Split (ng_VolumeId req) '':'') of
          None \<Rightarrow> throw (StatusErr InvalidArgument (''VolumeId is in wrong format: '' @ ng_VolumeId req))
        | Some (configName, volumePath) \<Rightarrow>
        bind (node_resolveNS L configName volumePath) (\<lambda>(nsProvider, _).
        attempt (ns_GetFilesystemAvailableCapacity L nsProvider volumePath)
          (\<lambda>e. throw (StatusErr NotFound (''Cannot find filesystem '' @ sq (ng_VolumeId req) @ '': '' @ errText L e)))
          ret)))"

section \<open>The node\<close>

record NodeGetInfoResponse =
  ni_NodeId :: string
  ni_AccessibleTopology :: topology

definition NodeGetInfo :: "string \<Rightarrow> ('w st, NodeGetInfoResponse) M" where
  "NodeGetInfo nodeID = ret \<lparr>ni_NodeId = nodeID, ni_AccessibleTopology = []\<rparr>"

datatype NodeRPC = NODE_EXPAND_VOLUME | NODE_STAGE_UNSTAGE_VOLUME

definition NodeGetCapabilities :: "('w st, NodeRPC list) M" where
  "NodeGetCapabilities = ret [NODE_EXPAND_VOLUME, NODE_STAGE_UNSTAGE_VOLUME]"

end
