(* ===== verification/ControllerVolumeProps.thy ===== *)
theory ControllerVolumeProps
  imports ControllerVolumes
begin

text \<open>
  Properties of the volume handlers of \<open>ControllerVolumes\<close>.

  Frames first: the calls and the views of the world a refresh and a resolution leave alone. Then
  the contract of an appliance (\<open>create_contract\<close>, \<open>destroy_contract\<close>), the abstract operation
  \<open>spec_create\<close> that \<open>createNewVolume\<close> implements, the answer of \<open>CreateVolume\<close>, the round trip of
  volume ids, and the end-to-end effects of creating, growing and deleting.
\<close>

section \<open>Frames\<close>

lemma two_Some [simp]: "two xs = Some (a, b) \<longleftrightarrow> xs = [a, b]"
  by (cases xs rule: two.cases) auto

lemma two_None: "two xs = None \<longleftrightarrow> length xs \<noteq> 2"
  by (cases xs rule: two.cases) auto

lemma three_Some [simp]: "three xs = Some (a, b, c) \<longleftrightarrow> xs = [a, b, c]"
  by (cases xs rule: three.cases) auto

lemma three_None: "three xs = None \<longleftrightarrow> length xs \<noteq> 3"
  by (cases xs rule: three.cases) auto

text \<open>The calls of a refresh.\<close>

fun is_config_call :: "call \<Rightarrow> bool" where
  "is_config_call (StatCall _) = True"
| "is_config_call (ReadFileCall _) = True"
| "is_config_call (NewResolverCall _) = True"
| "is_config_call _ = False"

text \<open>The calls of a resolution.\<close>

fun is_lookup :: "call \<Rightarrow> bool" where
  "is_lookup (ResolveCall _ _) = True"
| "is_lookup c = is_config_call c"

lemma Validate_emits: "keeps (emits P) (Validate L)"
  unfolding Validate_def validate_step_def
  by (intro emits_rules keeps_cases emitting.keeps_modify)
    (auto simp: keeps_def validate_entry_state emits_def set_NsMap_def)

lemma Refresh_emits:
  "(\<And>c. is_config_call c \<Longrightarrow> P c) \<Longrightarrow> keeps (emits P) (Refresh L secret)"
  unfolding Refresh_def refresh_content_def refresh_load_def
  by (intro emits_rules keeps_cases emitting.keeps_modify Validate_emits)
    (simp_all add: emits_def set_conf_def)

lemma ctrl_refresh_emits:
  "(\<And>c. is_config_call c \<Longrightarrow> P c) \<Longrightarrow> keeps (emits P) (ctrl_refreshConfig L secret)"
  unfolding ctrl_refreshConfig_def ctrl_refresh_step_def
  by (intro emits_rules keeps_cases emitting.keeps_modify Refresh_emits)
    (simp_all add: emits_def)

lemma ctrl_use_config_emits [emits_rules]:
  "(\<And>c. is_config_call c \<Longrightarrow> P c) \<Longrightarrow> keeps (emits P) (ctrl_use_config L secrets)"
  unfolding ctrl_use_config_def pick_secret_def
  by (intro emits_rules ctrl_refresh_emits)

lemma not_found_ok_emits [emits_rules]: "keeps (emits P) (not_found_ok L x e)"
  unfolding not_found_ok_def by (intro emits_rules keeps_cases)

lemma not_found_ok_internal [internal_rules]: "keeps (same internal_state) (not_found_ok L x e)"
  unfolding not_found_ok_def by (intro internal_rules keeps_cases)

section \<open>Requests that are answered without the appliance\<close>

lemma validate_mode_loop_iff [simp]: "validate_mode_loop cs m \<longleftrightarrow> m \<in> set cs"
  by (induction cs) auto

lemma first_unsupported_None: "first_unsupported cs = None \<longleftrightarrow> (\<forall>c \<in> set cs. validateVolumeCapability c)"
  by (induction cs) auto

lemma first_unsupported_Some: "first_unsupported cs = Some c \<Longrightarrow> c \<in> set cs \<and> \<not> validateVolumeCapability c"
  by (induction cs) (auto split: if_splits)

text \<open>\<open>ValidateVolumeCapabilities\<close> confirms a request exactly when every requested access mode
  is supported, and then answers with the supported modes and the context of the request.\<close>

theorem ValidateVolumeCapabilities_confirms:
  assumes "ValidateVolumeCapabilities L req s = (Ret resp, t)"
  shows "(case resp of
      Confirmed modes ctx \<Rightarrow> modes = supportedVolumeCapabilities \<and> ctx = vr_VolumeContext req \<and>
        (\<forall>c \<in> set (vr_VolumeCapabilities req). GetMode c \<in> set supportedVolumeCapabilities)
    | NotConfirmed m \<Rightarrow>
        (\<exists>c \<in> set (vr_VolumeCapabilities req). GetMode c \<notin> set supportedVolumeCapabilities \<and>
           m = unsupported_mode L c))"
  using assms
  by (auto simp: ValidateVolumeCapabilities_def ran first_unsupported_None validateVolumeCapability_def
      split: if_splits option.splits dest!: first_unsupported_Some)

section \<open>The contract of an appliance\<close>

text \<open>
  What is relied on from the volume operations of a provider \<open>p\<close>, as the NexentaStor API documents
  them, in terms of two views of the world: the volumes with their sizes, and the ids of the LUN
  mappings of each volume.
\<close>

definition create_contract :: "'w lib \<Rightarrow> provider \<Rightarrow> ('w \<Rightarrow> string \<Rightarrow> int option) \<Rightarrow> bool" where
  "create_contract L p vols \<longleftrightarrow>
     (\<forall>w path n sp e w'. nsCommand L p (CreateVolumeCmd path n sp) w = (e, w') \<longrightarrow>
        (case e of
           None \<Rightarrow> vols w path = None \<and> vols w' = (vols w)(path := Some n)
         | Some d \<Rightarrow> vols w' = vols w \<and> (IsAlreadyExistNefError L d \<longrightarrow> vols w path \<noteq> None))) \<and>
     (\<forall>w path r w'. GetVolume L p path w = (r, w') \<longrightarrow> vols w' = vols w \<and>
        (\<forall>v. r = Inr v \<longrightarrow> vols w path = Some (vol_VolumeSize v))) \<and>
     (\<forall>w path n e w'. nsCommand L p (UpdateVolumeCmd path n) w = (e, w') \<longrightarrow>
        (case e of
           None \<Rightarrow> vols w path \<noteq> None \<and> vols w' = (vols w)(path := Some n)
         | Some d \<Rightarrow> vols w' = vols w))"

definition destroy_contract ::
    "'w lib \<Rightarrow> provider \<Rightarrow> ('w \<Rightarrow> string \<Rightarrow> int option) \<Rightarrow> ('w \<Rightarrow> string \<Rightarrow> string set) \<Rightarrow> bool" where
  "destroy_contract L p vols luns \<longleftrightarrow>
     (\<forall>w path r w'. path \<noteq> [] \<longrightarrow> GetLunMappings L p (luns_of_volume path) w = (r, w') \<longrightarrow>
        vols w' = vols w \<and> luns w' = luns w \<and> (\<forall>ls. r = Inr ls \<longrightarrow> lun_Id ` set ls = luns w path)) \<and>
     (\<forall>w i e w'. nsCommand L p (DestroyLunMappingCmd i) w = (e, w') \<longrightarrow> vols w' = vols w \<and>
        luns w' = (case e of None \<Rightarrow> (\<lambda>v. luns w v - {i}) | Some d \<Rightarrow> luns w)) \<and>
     (\<forall>w path a b e w'. nsCommand L p (DestroyVolumeCmd path a b) w = (e, w') \<longrightarrow> luns w' = luns w \<and>
        (case e of
           None \<Rightarrow> vols w' = (vols w)(path := None)
         | Some d \<Rightarrow> vols w' = vols w \<and> (IsNotExistNefError L d \<longrightarrow> vols w path = None)))"

lemma destroy_contract_luns:
  "destroy_contract L p vols luns \<Longrightarrow> path \<noteq> [] \<Longrightarrow> GetLunMappings L p (luns_of_volume path) w = (r, w') \<Longrightarrow>
    vols w' = vols w \<and> luns w' = luns w \<and> (\<forall>ls. r = Inr ls \<longrightarrow> lun_Id ` set ls = luns w path)"
  unfolding destroy_contract_def by blast

lemma destroy_contract_unmap:
  "destroy_contract L p vols luns \<Longrightarrow> nsCommand L p (DestroyLunMappingCmd i) w = (e, w') \<Longrightarrow>
    vols w' = vols w \<and> luns w' = (case e of None \<Rightarrow> (\<lambda>v. luns w v - {i}) | Some d \<Rightarrow> luns w)"
  unfolding destroy_contract_def by blast

lemma destroy_contract_volume:
  "destroy_contract L p vols luns \<Longrightarrow> nsCommand L p (DestroyVolumeCmd path a b) w = (e, w') \<Longrightarrow>
    luns w' = luns w \<and> (case e of
       None \<Rightarrow> vols w' = (vols w)(path := None)
     | Some d \<Rightarrow> vols w' = vols w \<and> (IsNotExistNefError L d \<longrightarrow> vols w path = None))"
  unfolding destroy_contract_def by blast

lemma sim_create_contract: "create_contract sim_lib 0 (map_of \<circ> sim_vols)"
  unfolding create_contract_def
  by (auto simp: sim_defs update_conv' split: if_splits option.splits)

definition sim_lun_ids :: "sim \<Rightarrow> string \<Rightarrow> string set" where
  "sim_lun_ids w v = sl_Id ` {l \<in> set (sim_luns w). sl_Volume l = v}"

lemma sim_destroy_contract: "destroy_contract sim_lib 0 (map_of \<circ> sim_vols) sim_lun_ids"
  unfolding destroy_contract_def
  by (intro conjI allI impI)
    (auto simp: sim_lib_def sim_lun_ids_def luns_of_volume_def lun_matches_def image_image fun_eq_iff
      nef_kind_def delete_conv' split: if_splits)

text \<open>The abstract operations on the table of volumes.\<close>

definition spec_create :: "string \<Rightarrow> int \<Rightarrow> (string \<Rightarrow> int option) \<Rightarrow> code + (string \<Rightarrow> int option)" where
  "spec_create path n m = (case m path of
     None \<Rightarrow> Inr (m(path := Some n))
   | Some k \<Rightarrow> if k = n then Inr m else Inl AlreadyExists)"

text \<open>The appliance fails for reasons of its own while a volume is being made.\<close>

definition appliance_fails :: "'w lib \<Rightarrow> provider \<Rightarrow> string \<Rightarrow> int \<Rightarrow> bool \<Rightarrow> 'w st \<Rightarrow> bool" where
  "appliance_fails L p path n sparse s \<longleftrightarrow>
     (case nsCommand L p (CreateVolumeCmd path n sparse) (world s) of
        (None, w) \<Rightarrow> False
      | (Some d, w) \<Rightarrow> IsAlreadyExistNefError L d \<longrightarrow> (\<exists>e. fst (GetVolume L p path w) = Inl e))"

lemma createNewVolume_spec:
  assumes "create_contract L p vols" and "n \<noteq> 0"
  shows "case createNewVolume L (Some p) path n sparse s of (res, t) \<Rightarrow>
    (case spec_create path n (vols (world s)) of
       Inr m \<Rightarrow> res = Ret () \<and> vols (world t) = m
     | Inl c \<Rightarrow> (\<exists>msg. res = Fail (StatusErr c msg)) \<and> vols (world t) = vols (world s)) \<or>
    (\<exists>msg. res = Fail (StatusErr Internal msg)) \<and> vols (world t) = vols (world s) \<and> appliance_fails L p path n sparse s"
proof -
  obtain e w where c: "nsCommand L p (CreateVolumeCmd path n sparse) (world s) = (e, w)"
    by fastforce
  obtain r w' where g: "GetVolume L p path w = (r, w')" by fastforce
  have get: "vols w' = vols w \<and> (\<forall>v. r = Inr v \<longrightarrow> vols w path = Some (vol_VolumeSize v))"
    using assms(1) g unfolding create_contract_def by blast
  show ?thesis
  proof (cases e)
    case None
    with c assms(1) have "vols (world s) path = None" "vols w = (vols (world s))(path := Some n)"
      unfolding create_contract_def by fastforce+
    then show ?thesis using c None
      by (simp add: createNewVolume_def run_simps spec_create_def)
  next
    case (Some d)
    with c assms(1) have same: "vols w = vols (world s)"
      unfolding create_contract_def by fastforce
    then show ?thesis using c Some g get assms(2)
      by (cases r) (auto simp: createNewVolume_def run_simps spec_create_def ns_GetVolume_def appliance_fails_def)
  qed
qed

text \<open>C6: \<open>createNewVolume\<close> implements the abstract creation: a volume that is not there is created
  with the requested size, one that is there with this size is accepted unchanged (so a
  retry succeeds), and one with another size is \<open>AlreadyExists\<close> and is left alone. The only other
  outcome is \<open>Internal\<close> with the volumes unchanged, when the appliance has failed for a reason of its own.\<close>

theorem createNewVolume_refines:
  assumes "create_contract L p vols" and "n \<noteq> 0"
  shows "case createNewVolume L (Some p) path n sparse s of (res, t) \<Rightarrow>
    (case spec_create path n (vols (world s)) of
       Inr m \<Rightarrow> res = Ret () \<and> vols (world t) = m
     | Inl c \<Rightarrow> (\<exists>msg. res = Fail (StatusErr c msg)) \<and> vols (world t) = vols (world s)) \<or>
    (\<exists>msg. res = Fail (StatusErr Internal msg)) \<and> vols (world t) = vols (world s) \<and> appliance_fails L p path n sparse s"
  by (rule createNewVolume_spec [OF assms])

theorem createNewVolume_refines_witness:
  "\<exists>t m. createNewVolume sim_lib (Some 0) ''p/g/v'' 5 True
      ((sim_process [] [] 0)\<lparr>world := sim_empty\<lparr>sim_vols := [(''p/g/v'', 4)]\<rparr>\<rparr>) =
      (Fail (StatusErr AlreadyExists m), t)"
proof -
  let ?s = "(sim_process [] [] 0)\<lparr>world := sim_empty\<lparr>sim_vols := [(''p/g/v'', 4)]\<rparr>\<rparr>"
  have "\<not> appliance_fails sim_lib 0 ''p/g/v'' 5 True ?s"
    by (simp add: appliance_fails_def sim_defs)
  with createNewVolume_refines [OF sim_create_contract, where n = 5 and path = "''p/g/v''" and sparse = True and s = ?s] show ?thesis
    by (auto simp: spec_create_def split: prod.splits)
qed

text \<open>Destroying the LUN mappings of a list.\<close>

lemma destroy_luns_contract:
  assumes "destroy_contract L p vols luns"
  shows "destroy_luns L (Some p) ls s = (Ret (), t) \<Longrightarrow> vols (world t) = vols (world s) \<and>
    luns (world t) = (\<lambda>v. luns (world s) v - lun_Id ` set ls)"
proof (induction ls arbitrary: s)
  case Nil
  then show ?case by (simp add: destroy_luns_def run_simps)
next
  case (Cons l ls)
  then obtain w' where d: "nsCommand L p (DestroyLunMappingCmd (lun_Id l)) (world s) = (None, w')"
    and r: "destroy_luns L (Some p) ls (s\<lparr>world := w', trace := trace s @ [NsCmd p (DestroyLunMappingCmd (lun_Id l))]\<rparr>) =
      (Ret (), t)" by (auto simp: destroy_luns_def bind_Ret_iff ns_do_Ret)
  from Cons.IH [OF r] destroy_contract_unmap [OF assms d] show ?case by (auto simp: fun_eq_iff)
qed

text \<open>When deleting a volume on the resolved appliance succeeds, neither the volume nor any LUN mapping of it
  is left, whether or not they were there, and every other volume and mapping is as before.\<close>

lemma delete_on_spec:
  assumes "destroy_contract L p vols luns" and "path \<noteq> []"
    and "\<And>v. v \<noteq> path \<Longrightarrow> luns (world s) v \<inter> luns (world s) path = {}"
    and "delete_on L (Some p) path s = (Ret (), t)"
  shows "vols (world t) = (vols (world s))(path := None) \<and> luns (world t) = (luns (world s))(path := {})"
proof -
  from assms(4) obtain ls v u where g: "ns_GetLunMappings L (Some p) (luns_of_volume path) s = (Ret ls, v)"
    and d: "destroy_luns L (Some p) ls v = (Ret (), u)"
    and k: "attempt (ns_do L (Some p) (DestroyVolumeCmd path True True))
       (\<lambda>err. if \<not> IsNotExistNefError L err then
                throw (StatusErr Internal (''Cannot delete '' @ sq path @ '' volume: '' @ errText L err))
              else ret ())
       ret u = (Ret (), t)"
    by (auto simp: delete_on_def bind_Ret_iff)
  from g obtain w where w: "GetLunMappings L p (luns_of_volume path) (world s) = (Inr ls, w)" "world v = w"
    by (auto simp: ns_GetLunMappings_def ns_ask_Ret)
  note ll = destroy_contract_luns [OF assms(1,2) w(1)] and dl = destroy_luns_contract [OF assms(1) d]
  have lu: "luns (world u) = (luns (world s))(path := {})" and vu: "vols (world u) = vols (world s)"
    using assms(3) ll dl w(2) by (auto simp: fun_eq_iff)
  obtain e w' where c: "nsCommand L p (DestroyVolumeCmd path True True) (world u) = (e, w')" by fastforce
  note cv = destroy_contract_volume [OF assms(1) c]
  have t: "world t = w'" and ok: "e = None \<or> IsNotExistNefError L (the e)"
    using k c by (cases e; auto simp: run_simps split: if_splits)+
  show ?thesis using cv t ok lu vu by (cases e) (auto simp: fun_upd_idem)
qed

section \<open>Lookups and a view of the appliance\<close>

text \<open>
  \<open>lookups_keep L f\<close>: the operations a handler performs before it addresses the appliance (picking a
  map order, reading the configuration file, building and asking resolvers) leave the view
  \<open>f\<close> of the world as it is.
\<close>

definition lookups_keep :: "'w lib \<Rightarrow> ('w \<Rightarrow> 'a) \<Rightarrow> bool" where
  "lookups_keep L f \<longleftrightarrow>
     (\<forall>w. f (snd (mapSeed L w)) = f w) \<and>
     (\<forall>a w. f (snd (NewResolver L a w)) = f w) \<and>
     (\<forall>r vg w. f (snd (ResolveFromVg L r vg w)) = f w) \<and>
     (\<forall>path w. f (snd (osStat L path w)) = f w) \<and>
     (\<forall>path w. f (snd (osReadFile L path w)) = f w)"

abbreviation view :: "('w \<Rightarrow> 'a) \<Rightarrow> 'w st \<Rightarrow> 'a" where
  "view f s \<equiv> f (world s)"

named_theorems view_rules \<open>operations that leave a view of the world alone\<close>

lemmas [view_rules] = unchanged.frame_rules

lemma view_modify [view_rules]:
  "(\<And>s. world (g s) = world s) \<Longrightarrow> keeps (same (view f)) (modify g)"
  by (simp add: keeps_def same_def modify_def)

lemma view_ext_call: "(\<And>w. f (snd (g w)) = f w) \<Longrightarrow> keeps (same (view f)) (ext_call c g)"
  by (simp add: keeps_def same_def run_ext_call)

lemma view_lookups [view_rules]:
  assumes "lookups_keep L f"
  shows "keeps (same (view f)) (goRange L m)"
    and "keeps (same (view f)) (ns_NewResolver L a)"
    and "keeps (same (view f)) (ns_ResolveFromVg L r vg)"
    and "keeps (same (view f)) (os_Stat L path)"
    and "keeps (same (view f)) (os_ReadFile L path)"
proof -
  show "keeps (same (view f)) (goRange L m)"
    using assms by (simp add: keeps_def same_def run_goRange lookups_keep_def)
  show "keeps (same (view f)) (ns_NewResolver L a)" "keeps (same (view f)) (ns_ResolveFromVg L r vg)"
    "keeps (same (view f)) (os_Stat L path)" "keeps (same (view f)) (os_ReadFile L path)"
    unfolding ns_NewResolver_def ns_ResolveFromVg_def os_Stat_def os_ReadFile_def
    by (intro view_rules view_ext_call; use assms in \<open>simp add: lookups_keep_def\<close>)+
qed

lemma Validate_view: "lookups_keep L f \<Longrightarrow> keeps (same (view f)) (Validate L)"
  unfolding Validate_def validate_step_def
  by (intro view_rules keeps_cases) (auto simp: keeps_def validate_entry_state same_def set_NsMap_def)

lemma Refresh_view: "lookups_keep L f \<Longrightarrow> keeps (same (view f)) (Refresh L secret)"
  unfolding Refresh_def refresh_content_def refresh_load_def
  by (intro view_rules keeps_cases Validate_view) (simp_all add: set_conf_def)

lemma ctrl_use_config_view [view_rules]:
  "lookups_keep L f \<Longrightarrow> keeps (same (view f)) (ctrl_use_config L secrets)"
  unfolding ctrl_use_config_def pick_secret_def ctrl_refreshConfig_def ctrl_refresh_step_def
  by (intro view_rules keeps_cases Refresh_view) simp_all

lemma resolve_give_up_view: "keeps (same (view f)) (resolve_give_up L ps err)"
  unfolding resolve_give_up_def by (intro view_rules keeps_cases)

lemma nozone_loop_view: "lookups_keep L f \<Longrightarrow> keeps (same (view f)) (nozone_loop L c ps err es)"
  by (induction L c ps err es rule: nozone_loop.induct)
    (auto intro!: view_rules keeps_cases resolve_give_up_view simp: Let_def)

lemma zone_loop_view: "lookups_keep L f \<Longrightarrow> keeps (same (view f)) (zone_loop L c ps vg err es)"
  by (induction L c ps vg err es rule: zone_loop.induct)
    (auto intro!: view_rules keeps_cases resolve_give_up_view simp: Let_def)

lemma resolveNS_view [view_rules]: "lookups_keep L f \<Longrightarrow> keeps (same (view f)) (resolveNS L ps)"
  unfolding resolveNS_def resolveNSNoZone_def resolveNSWithZone_def resolve_named_def Let_def
  by (intro view_rules keeps_cases nozone_loop_view zone_loop_view)

lemma view_D: "keeps (same (view f)) m \<Longrightarrow> m s = (r, t) \<Longrightarrow> f (world t) = f (world s)"
  by (drule (1) keepsD) (simp add: same_def)

lemma sim_lookups_keep: "lookups_keep sim_lib f"
  by (simp add: lookups_keep_def sim_lib_def)

section \<open>What CreateVolume answers\<close>

lemma making_internal [internal_rules]:
  "keeps (same internal_state) (createNewVolume L p path n sp)"
  "keeps (same internal_state) (createNewVolumeFromSnapshot L p snap path n)"
  "keeps (same internal_state) (CreateSnapshotOnNS L p path name)"
  "keeps (same internal_state) (createClonedVolume L p src path name n)"
  unfolding createNewVolume_def createNewVolumeFromSnapshot_def CreateSnapshotOnNS_def
    createClonedVolume_def Let_def
  by (intro internal_rules keeps_cases)+

lemma internal_D: "keeps (same internal_state) m \<Longrightarrow> m s = (r, t) \<Longrightarrow>
    conf t = conf s \<and> ctrlResolvers t = ctrlResolvers s \<and> nodeResolvers t = nodeResolvers s"
  by (drule (1) keepsD) (simp add: same_def internal_state_def)

lemma create_provision_Ret:
  assumes "create_provision L ps snap vol name n sparse s = (Ret (r, path), t)"
  shows "path = filepath_Join [rr_volumeGroup r, name] \<and>
    (\<exists>c u. resolveNS L (ps\<lparr>rp_configName := c\<rparr>) s = (Ret r, u) \<and> conf u = conf s \<and> conf t = conf s \<and>
       ctrlResolvers u = ctrlResolvers s \<and> ctrlResolvers t = ctrlResolvers s \<and>
       (let src = (if snap \<noteq> [] then snap else vol) in src \<noteq> [] \<longrightarrow> (\<exists>x. strings_Split src '':'' = [c, x])) \<and>
       (snap = [] \<longrightarrow> vol = [] \<longrightarrow> c = rp_configName ps \<and>
          createNewVolume L (rr_nsProvider r) path n sparse u = (Ret (), t)))"
proof -
  consider (snap) c src u where "snap \<noteq> []" "strings_Split snap '':'' = [c, src]"
      "resolveNS L (ps\<lparr>rp_configName := c\<rparr>) s = (Ret r, u)"
      "createNewVolumeFromSnapshot L (rr_nsProvider r) src path n u = (Ret (), t)"
      "path = filepath_Join [rr_volumeGroup r, name]"
    | (vol) c src u where "snap = []" "vol \<noteq> []" "strings_Split vol '':'' = [c, src]"
      "resolveNS L (ps\<lparr>rp_configName := c\<rparr>) s = (Ret r, u)"
      "createClonedVolume L (rr_nsProvider r) src path name n u = (Ret (), t)"
      "path = filepath_Join [rr_volumeGroup r, name]"
    | (new) u where "snap = []" "vol = []" "resolveNS L ps s = (Ret r, u)"
      "createNewVolume L (rr_nsProvider r) path n sparse u = (Ret (), t)"
      "path = filepath_Join [rr_volumeGroup r, name]"
    using assms by (auto simp: create_provision_def ran Let_def split: if_splits option.splits)
  then show ?thesis
  proof cases
    case snap
    with internal_D [OF resolveNS_frame(2) snap(3)] internal_D [OF making_internal(2) snap(4)]
    show ?thesis by auto
  next
    case vol
    with internal_D [OF resolveNS_frame(2) vol(4)] internal_D [OF making_internal(4) vol(5)]
    show ?thesis by auto
  next
    case new
    moreover have "ps\<lparr>rp_configName := rp_configName ps\<rparr> = ps" by simp
    ultimately show ?thesis
      using internal_D [OF resolveNS_frame(2) new(3)] internal_D [OF making_internal(1) new(4)]
      by metis
  qed
qed

abbreviation req_zone :: "CreateVolumeRequest \<Rightarrow> string" where
  "req_zone req \<equiv> pickAvailabilityZone (cv_AccessibilityRequirements req)"

abbreviation req_bytes :: "CreateVolumeRequest \<Rightarrow> int" where
  "req_bytes req \<equiv> requested_capacity (cv_CapacityRange req)"

abbreviation new_path :: "CreateVolumeRequest \<Rightarrow> ResolveNSResponse \<Rightarrow> string" where
  "new_path req r \<equiv> filepath_Join [rr_volumeGroup r, cv_Name req]"

text \<open>A successful \<open>CreateVolume\<close>, taken apart.\<close>

lemma CreateVolume_Ret:
  assumes "CreateVolume L req s = (Ret resp, t)"
  obtains u r vg cn sp snap vol cs where
    "ctrl_use_config L (cv_Secrets req) s = (Ret (), u)"
    and "create_params L (cv_Parameters req) u = (Ret (vg, cn, sp), u)"
    and "create_source (cv_VolumeContentSource req) u = (Ret (snap, vol, cs), u)"
    and "create_provision L \<lparr>rp_volumeGroup = vg, rp_zone = req_zone req,
        rp_configName = cn\<rparr> snap vol (cv_Name req) (req_bytes req) sp u =
        (Ret (r, new_path req r), t)"
    and "resp = create_response req (ns_data (conf t) (rr_configName r)) cs
        (req_zone req) (req_bytes req) r (new_path req r)"
proof -
  from assms obtain u vg cn sp u1 snap vol cs u2 r path where
    c: "ctrl_use_config L (cv_Secrets req) s = (Ret (), u)"
    and p: "create_params L (cv_Parameters req) u = (Ret (vg, cn, sp), u1)"
    and src: "create_source (cv_VolumeContentSource req) u1 = (Ret (snap, vol, cs), u2)"
    and prov: "create_provision L \<lparr>rp_volumeGroup = vg, rp_zone = req_zone req,
        rp_configName = cn\<rparr> snap vol (cv_Name req) (req_bytes req) sp u2 =
        (Ret (r, path), t)"
    and resp: "resp = create_response req (ns_data (conf t) (rr_configName r)) cs
        (req_zone req) (req_bytes req) r path"
    by (auto simp: CreateVolume_def bind_Ret_iff gets_run_iff ret_run_iff throw_run_iff Let_def
        split: if_splits option.splits prod.splits)
  have "u1 = u" using p by (auto simp: create_params_def ran Let_def split: option.splits sum.splits)
  moreover have "u2 = u1"
    using src by (auto simp: create_source_def ran split: option.splits content_source.splits)
  moreover have "path = new_path req r"
    using create_provision_Ret [OF prov] by simp
  ultimately show thesis using that c p src prov resp by blast
qed

text \<open>The whole answer, in terms of the request.\<close>

lemma CreateVolume_answer:
  assumes "CreateVolume L req s = (Ret resp, t)"
  obtains cn vg where
    "cr_VolumeId resp = cn @ '':'' @ filepath_Join [vg, cv_Name req]"
    and "cr_VolumeContext resp = volume_context (cv_Parameters req) (ns_data (conf t) cn) vg"
    and "cr_CapacityBytes resp = req_bytes req"
    and "cr_AccessibleTopology resp = (if req_zone req = [] then [] else [[(TopologyKeyZone, req_zone req)]])"
    and "req_zone req \<noteq> [] \<longrightarrow> Zone (ns_data (conf t) cn) = req_zone req"
    and "get_str (cv_Parameters req) ''volumeGroup'' \<noteq> [] \<longrightarrow>
      vg = get_str (cv_Parameters req) ''volumeGroup''"
proof -
  obtain u r vg cn sp snap vol cs where "ctrl_use_config L (cv_Secrets req) s = (Ret (), u)"
    and p: "create_params L (cv_Parameters req) u = (Ret (vg, cn, sp), u)"
    and "create_source (cv_VolumeContentSource req) u = (Ret (snap, vol, cs), u)"
    and prov: "create_provision L \<lparr>rp_volumeGroup = vg, rp_zone = req_zone req,
        rp_configName = cn\<rparr> snap vol (cv_Name req) (req_bytes req) sp u = (Ret (r, new_path req r), t)"
    and resp: "resp = create_response req (ns_data (conf t) (rr_configName r)) cs
        (req_zone req) (req_bytes req) r (new_path req r)"
    by (rule CreateVolume_Ret [OF assms])
  from create_provision_Ret [OF prov] obtain c v where
    res: "resolveNS L \<lparr>rp_volumeGroup = vg, rp_zone = req_zone req, rp_configName = c\<rparr> u = (Ret r, v)"
    and cf: "conf t = conf u" by auto
  have vg: "vg = get_str (cv_Parameters req) ''volumeGroup''"
    using p by (auto simp: create_params_def ran get_str_def split: option.splits sum.splits)
  from resolveNS_answers [OF res]
  have z: "req_zone req \<noteq> [] \<longrightarrow> Zone (ns_data (conf t) (rr_configName r)) = req_zone req"
    and g: "vg \<noteq> [] \<longrightarrow> rr_volumeGroup r = vg" by (simp_all add: cf)
  show thesis
    by (rule that [of "rr_configName r" "rr_volumeGroup r"])
      (use z g vg in \<open>simp_all add: resp create_response_def\<close>)
qed

text \<open>The ids of the sources of a request, and the appliance it asks for: the one in the id of its source, or that of
  the StorageClass.\<close>

definition snapshot_source :: "CreateVolumeRequest \<Rightarrow> string" where
  "snapshot_source req = (case cv_VolumeContentSource req of Some (SourceSnapshot i) \<Rightarrow> i | _ \<Rightarrow> [])"

definition volume_source :: "CreateVolumeRequest \<Rightarrow> string" where
  "volume_source req = (case cv_VolumeContentSource req of Some (SourceVolume i) \<Rightarrow> i | _ \<Rightarrow> [])"

definition asked_config :: "CreateVolumeRequest \<Rightarrow> string \<Rightarrow> bool" where
  "asked_config req c \<longleftrightarrow>
     (let src = snapshot_source req @ volume_source req
      in if src = [] then c = get_str (cv_Parameters req) ''configName''
         else \<exists>x. strings_Split src '':'' = [c, x])"

lemma create_params_gives:
  "gives (\<lambda>(vg, cn, sp). vg = get_str ps ''volumeGroup'' \<and> cn = get_str ps ''configName'') (create_params L ps)"
  by (auto simp: gives_def create_params_def get_str_def ran Let_def split: option.splits sum.splits)

lemma create_source_gives: "gives (\<lambda>(snap, vol, src). snap = snapshot_source req \<and> vol = volume_source req)
    (create_source (cv_VolumeContentSource req))"
  by (auto simp: gives_def create_source_def snapshot_source_def volume_source_def ran
      split: option.splits content_source.splits)

lemma CreateVolume_resolved:
  assumes "CreateVolume L req s = (Ret resp, t)"
  obtains u c r v where "ctrl_use_config L (cv_Secrets req) s = (Ret (), u)" and "asked_config req c"
    and "resolveNS L \<lparr>rp_volumeGroup = get_str (cv_Parameters req) ''volumeGroup'', rp_zone = req_zone req,
      rp_configName = c\<rparr> u = (Ret r, v)"
    and "cr_VolumeId resp = rr_configName r @ '':'' @ filepath_Join [rr_volumeGroup r, cv_Name req]"
    and "map_of (cr_VolumeContext resp) ''VolumeGroup'' = Some (rr_volumeGroup r)"
proof -
  obtain u r vg cn sp snap vol cs where c: "ctrl_use_config L (cv_Secrets req) s = (Ret (), u)"
    and p: "create_params L (cv_Parameters req) u = (Ret (vg, cn, sp), u)"
    and src: "create_source (cv_VolumeContentSource req) u = (Ret (snap, vol, cs), u)"
    and prov: "create_provision L \<lparr>rp_volumeGroup = vg, rp_zone = req_zone req,
        rp_configName = cn\<rparr> snap vol (cv_Name req) (req_bytes req) sp u = (Ret (r, new_path req r), t)"
    and resp: "resp = create_response req (ns_data (conf t) (rr_configName r)) cs
        (req_zone req) (req_bytes req) r (new_path req r)"
    by (rule CreateVolume_Ret [OF assms])
  have ps: "vg = get_str (cv_Parameters req) ''volumeGroup''" "cn = get_str (cv_Parameters req) ''configName''"
    using givesD [OF create_params_gives p] by simp_all
  from create_provision_Ret [OF prov] obtain k v where
    res: "resolveNS L \<lparr>rp_volumeGroup = vg, rp_zone = req_zone req, rp_configName = k\<rparr> u = (Ret r, v)"
    and k: "let src = (if snap \<noteq> [] then snap else vol) in src \<noteq> [] \<longrightarrow> (\<exists>x. strings_Split src '':'' = [k, x])"
      "snap = [] \<longrightarrow> vol = [] \<longrightarrow> k = cn" by auto
  have "asked_config req k"
    using givesD [OF create_source_gives src] k ps(2)
    by (auto simp: asked_config_def snapshot_source_def volume_source_def Let_def
        split: option.splits content_source.splits if_splits)
  then show thesis using that [OF c _ res [unfolded ps]]
    by (simp add: resp create_response_def volume_context_def)
qed

lemma volume_context_group: "map_of (volume_context ps cfg vg) ''VolumeGroup'' = Some vg"
  by (simp add: volume_context_def)

text \<open>A created volume is described truly: its id is the configuration name and the path of the
  group and the requested name, the context carries that group (the requested one when the
  StorageClass names one), the capacity is the requested one (1 GiB when none is given), and
  the topology, given exactly when a zone was picked, is the zone of that configuration.\<close>

theorem CreateVolume_response:
  assumes "CreateVolume L req s = (Ret resp, t)"
  shows "\<exists>cn vg. cr_VolumeId resp = cn @ '':'' @ filepath_Join [vg, cv_Name req] \<and>
    map_of (cr_VolumeContext resp) ''VolumeGroup'' = Some vg \<and>
    (get_str (cv_Parameters req) ''volumeGroup'' \<noteq> [] \<longrightarrow> vg = get_str (cv_Parameters req) ''volumeGroup'') \<and>
    cr_CapacityBytes resp = requested_capacity (cv_CapacityRange req) \<and>
    (let z = pickAvailabilityZone (cv_AccessibilityRequirements req) in
       if z = [] then cr_AccessibleTopology resp = []
       else cr_AccessibleTopology resp = [[(TopologyKeyZone, z)]] \<and> Zone (ns_data (conf t) cn) = z)"
proof (rule CreateVolume_answer [OF assms], goal_cases)
  case (1 cn vg)
  then show ?case
    by (intro exI [of _ cn] exI [of _ vg]) (simp add: volume_context_group Let_def)
qed

definition sim_create :: "string \<Rightarrow> CreateVolumeRequest" where
  "sim_create name = \<lparr>cv_Name = name, cv_CapacityRange = Some 5,
     cv_VolumeCapabilities = [\<lparr>vc_AccessMode = Some SINGLE_NODE_WRITER, vc_AccessType = AccessBlock\<rparr>],
     cv_Parameters = [], cv_Secrets = [], cv_VolumeContentSource = None,
     cv_AccessibilityRequirements = Some \<lparr>tr_Requisite = [], tr_Preferred = [[(TopologyKeyZone, ''z'')]]\<rparr>\<rparr>"

lemmas create_eval = CreateVolume_def ctrl_use_config_def pick_secret_def last_secret_def
  ctrl_refreshConfig_def create_params_def create_source_def create_provision_def createNewVolume_def
  create_response_def pickAvailabilityZone_def requested_capacity_def validateVolumeCapability_def
  GetMode_def supportedVolumeCapabilities_def resolveNS_def resolveNSWithZone_def resolveNSNoZone_def
  ns_ResolveFromVg_def ns_data_def Let_def

theorem CreateVolume_response_witness:
  "\<exists>resp t. CreateVolume sim_lib (sim_create ''v'') (sim_process [(''a'', sim_data\<lparr>Zone := ''z''\<rparr>)] ''good'' 7) =
      (Ret resp, t) \<and> cr_VolumeId resp = ''a:p/g/v'' \<and> cr_AccessibleTopology resp = [[(TopologyKeyZone, ''z'')]] \<and>
    cr_CapacityBytes resp = 5"
proof -
  obtain resp t where run: "CreateVolume sim_lib (sim_create ''v'')
      (sim_process [(''a'', sim_data\<lparr>Zone := ''z''\<rparr>)] ''good'' 7) = (Ret resp, t)"
    and i: "cr_VolumeId resp = ''a:p/g/v''"
    by (simp add: sim_create_def create_eval config_eval sim_defs filepath_Join_def filepath_Clean_def)
  from CreateVolume_response [OF run] have "cr_AccessibleTopology resp = [[(TopologyKeyZone, ''z'')]]"
    and "cr_CapacityBytes resp = 5"
    by (auto simp: sim_create_def pickAvailabilityZone_def requested_capacity_def Let_def)
  with run i show ?thesis by blast
qed

section \<open>The id of a volume finds the volume again\<close>

lemma strings_Split_id:
  assumes "CHR '':'' \<notin> set cn" and "CHR '':'' \<notin> set path"
  shows "strings_Split (cn @ '':'' @ path) '':'' = [cn, path]"
  using assms by (simp add: strings_Split_two)

lemma strings_Split_path:
  assumes "plain_elem a" and "plain_elem b" and "plain_elem n"
  shows "strings_Split (a @ ''/'' @ b @ ''/'' @ n) ''/'' = [a, b, n]"
  using assms by (simp add: strings_Split_three plain_elem_def)

text \<open>What \<open>DeleteVolume\<close> does with a well-formed id, and with any other.\<close>

lemma DeleteVolume_well_formed:
  assumes "strings_Split (dv_VolumeId req) '':'' = [cn, path]" and "strings_Split path ''/'' = [a, b, n]"
  shows "DeleteVolume L req = bind (ctrl_use_config L (dv_Secrets req)) (\<lambda>_.
    attempt (resolveNS L \<lparr>rp_volumeGroup = a @ ''/'' @ b, rp_zone = [], rp_configName = cn\<rparr>)
      (not_found_ok L ()) (\<lambda>r. delete_on L (rr_nsProvider r) path))"
proof -
  have "dv_VolumeId req \<noteq> []" using assms(1) by auto
  with assms show ?thesis by (simp add: DeleteVolume_def)
qed

lemma DeleteVolume_malformed:
  assumes "dv_VolumeId req \<noteq> []"
    and "length (strings_Split (dv_VolumeId req) '':'') \<noteq> 2 \<or>
      (\<exists>cn path. strings_Split (dv_VolumeId req) '':'' = [cn, path] \<and> length (strings_Split path ''/'') \<noteq> 3)"
  shows "DeleteVolume L req = bind (ctrl_use_config L (dv_Secrets req)) (\<lambda>_. ret ())"
  using assms by (auto simp: DeleteVolume_def two_None [THEN iffD2] three_None [THEN iffD2]
      simp flip: two_None three_None)

text \<open>C17: The id of a created volume leads back to the volume. The appliance asked for (in the id of the source,
  or in the StorageClass) has been resolved, and the id starts with the name of the resolved appliance, which
  is not the name asked for when that is empty. For a group \<open>pool/group\<close>, plain names without slashes and names
  without a colon, a delete request with the id asks for that appliance and exactly the group the
  volume was created in, and deletes exactly the path that was created.\<close>

theorem CreateVolume_id_roundtrip:
  assumes "CreateVolume L req s = (Ret resp, t)"
    and "map_of (cr_VolumeContext resp) ''VolumeGroup'' = Some (a @ ''/'' @ b)"
    and "plain_elem a" and "plain_elem b" and "plain_elem (cv_Name req)"
    and "CHR '':'' \<notin> set (a @ b @ cv_Name req)"
  shows "\<exists>u c r v. ctrl_use_config L (cv_Secrets req) s = (Ret (), u) \<and> asked_config req c \<and>
    resolveNS L \<lparr>rp_volumeGroup = get_str (cv_Parameters req) ''volumeGroup'', rp_zone = req_zone req,
      rp_configName = c\<rparr> u = (Ret r, v) \<and> rr_volumeGroup r = a @ ''/'' @ b \<and>
    cr_VolumeId resp = rr_configName r @ '':'' @ a @ ''/'' @ b @ ''/'' @ cv_Name req \<and>
    (CHR '':'' \<notin> set (rr_configName r) \<longrightarrow>
       DeleteVolume L' \<lparr>dv_VolumeId = cr_VolumeId resp, dv_Secrets = sec\<rparr> =
       bind (ctrl_use_config L' sec) (\<lambda>_.
         attempt (resolveNS L' \<lparr>rp_volumeGroup = rr_volumeGroup r, rp_zone = [], rp_configName = rr_configName r\<rparr>)
           (not_found_ok L' ())
           (\<lambda>r. delete_on L' (rr_nsProvider r) (a @ ''/'' @ b @ ''/'' @ cv_Name req))))"
proof (rule CreateVolume_resolved [OF assms(1)], goal_cases)
  case (1 u c r v)
  let ?path = "a @ ''/'' @ b @ ''/'' @ cv_Name req" and ?cn = "rr_configName r"
  have g: "rr_volumeGroup r = a @ ''/'' @ b" using 1(5) assms(2) by simp
  with 1(4) have i: "cr_VolumeId resp = ?cn @ '':'' @ ?path"
    using filepath_Join_volume [OF assms(3,4,5)] by simp
  have "DeleteVolume L' \<lparr>dv_VolumeId = cr_VolumeId resp, dv_Secrets = sec\<rparr> =
       bind (ctrl_use_config L' sec) (\<lambda>_.
         attempt (resolveNS L' \<lparr>rp_volumeGroup = rr_volumeGroup r, rp_zone = [], rp_configName = ?cn\<rparr>)
           (not_found_ok L' ()) (\<lambda>r. delete_on L' (rr_nsProvider r) ?path))" if "CHR '':'' \<notin> set ?cn"
  proof -
    have "strings_Split (dv_VolumeId \<lparr>dv_VolumeId = cr_VolumeId resp, dv_Secrets = sec\<rparr>) '':'' = [?cn, ?path]"
      using that assms(6) strings_Split_id [of ?cn ?path] i by simp
    from DeleteVolume_well_formed [OF this strings_Split_path [OF assms(3,4,5)]] show ?thesis by (simp add: g)
  qed
  with 1 g i show ?case by blast
qed

text \<open>A request to delete an id that has not the form \<open>config:pool/group/name\<close> succeeds without
  addressing any appliance: a volume whose id is not of that form (a colon in its name, a group
  that is not \<open>pool/group\<close>) is reported deleted and stays.\<close>

theorem DeleteVolume_malformed_is_noop:
  assumes "dv_VolumeId req \<noteq> []"
    and "length (strings_Split (dv_VolumeId req) '':'') \<noteq> 2 \<or>
      (\<exists>cn path. strings_Split (dv_VolumeId req) '':'' = [cn, path] \<and> length (strings_Split path ''/'') \<noteq> 3)"
    and "ctrl_use_config L (dv_Secrets req) s = (Ret (), u)"
  shows "DeleteVolume L req s = (Ret (), u) \<and> (\<exists>cs. trace u = trace s @ cs \<and> (\<forall>c \<in> set cs. is_config_call c))"
proof -
  have "keeps (emits is_config_call) (ctrl_use_config L (dv_Secrets req))" by (rule ctrl_use_config_emits)
  from emits_new_calls [OF this assms(3) refl] have "\<exists>cs. trace u = trace s @ cs \<and> (\<forall>c \<in> set cs. is_config_call c)"
    by metis
  moreover have "DeleteVolume L req s = (Ret (), u)"
    using assms(3) by (simp add: DeleteVolume_malformed [OF assms(1,2)] run_simps)
  ultimately show ?thesis by blast
qed

theorem CreateVolume_id_roundtrip_witness:
  "\<exists>resp t. CreateVolume sim_lib (sim_create ''v'') (sim_process [(''a'', sim_data\<lparr>Zone := ''z''\<rparr>)] ''good'' 7) =
      (Ret resp, t) \<and>
    DeleteVolume sim_lib \<lparr>dv_VolumeId = cr_VolumeId resp, dv_Secrets = []\<rparr> =
       bind (ctrl_use_config sim_lib []) (\<lambda>_.
         attempt (resolveNS sim_lib \<lparr>rp_volumeGroup = ''p/g'', rp_zone = [], rp_configName = ''a''\<rparr>)
           (not_found_ok sim_lib ())
           (\<lambda>r. delete_on sim_lib (rr_nsProvider r) ''p/g/v''))"
proof -
  obtain resp t where run: "CreateVolume sim_lib (sim_create ''v'')
      (sim_process [(''a'', sim_data\<lparr>Zone := ''z''\<rparr>)] ''good'' 7) = (Ret resp, t)"
    and i: "cr_VolumeId resp = ''a:p/g/v''"
    and g: "map_of (cr_VolumeContext resp) ''VolumeGroup'' = Some (''p'' @ ''/'' @ ''g'')"
    by (simp add: sim_create_def create_eval config_eval sim_defs filepath_Join_def filepath_Clean_def
        volume_context_def)
  have "plain_elem ''p''" "plain_elem ''g''" "plain_elem (cv_Name (sim_create ''v''))"
    "CHR '':'' \<notin> set (''p'' @ ''g'' @ cv_Name (sim_create ''v''))"
    by (simp_all add: plain_elem_def sim_create_def)
  from CreateVolume_id_roundtrip [OF run g this, of sim_lib "[]"] obtain r :: ResolveNSResponse where
    "rr_volumeGroup r = ''p/g''" and cn: "cr_VolumeId resp = rr_configName r @ '':'' @ ''p/g/v''"
    and del: "CHR '':'' \<notin> set (rr_configName r) \<longrightarrow>
       DeleteVolume sim_lib \<lparr>dv_VolumeId = cr_VolumeId resp, dv_Secrets = []\<rparr> =
       bind (ctrl_use_config sim_lib []) (\<lambda>_.
         attempt (resolveNS sim_lib \<lparr>rp_volumeGroup = rr_volumeGroup r, rp_zone = [], rp_configName = rr_configName r\<rparr>)
           (not_found_ok sim_lib ()) (\<lambda>r. delete_on sim_lib (rr_nsProvider r) ''p/g/v''))"
    by (auto simp: sim_create_def)
  moreover have "rr_configName r = ''a''" using cn i by auto
  ultimately show ?thesis using run by simp
qed

theorem DeleteVolume_malformed_is_noop_witness:
  "\<exists>u. DeleteVolume sim_lib \<lparr>dv_VolumeId = ''a:p/g/x:y'', dv_Secrets = []\<rparr>
      (sim_process [(''a'', sim_data)] ''good'' 7) = (Ret (), u)"
proof -
  obtain u where u: "ctrl_use_config sim_lib [] (sim_process [(''a'', sim_data)] ''good'' 7) = (Ret (), u)"
    by (simp add: create_eval config_eval sim_defs)
  then show ?thesis
    using DeleteVolume_malformed_is_noop [of "\<lparr>dv_VolumeId = ''a:p/g/x:y'', dv_Secrets = []\<rparr>" sim_lib] by auto
qed

section \<open>End to end on an appliance\<close>

lemma CreateVolume_effect:
  assumes "lookups_keep L vols" and "\<And>p. create_contract L p vols"
    and "cv_VolumeContentSource req = None"
    and "CreateVolume L req s = (Ret resp, t)"
  shows "\<exists>cn path. cr_VolumeId resp = cn @ '':'' @ path \<and>
    vols (world t) = (vols (world s))(path := Some (cr_CapacityBytes resp))"
proof -
  obtain u r vg cn sp snap vol cs where c: "ctrl_use_config L (cv_Secrets req) s = (Ret (), u)"
    and "create_params L (cv_Parameters req) u = (Ret (vg, cn, sp), u)"
    and src: "create_source (cv_VolumeContentSource req) u = (Ret (snap, vol, cs), u)"
    and prov: "create_provision L \<lparr>rp_volumeGroup = vg, rp_zone = req_zone req,
        rp_configName = cn\<rparr> snap vol (cv_Name req) (req_bytes req) sp u = (Ret (r, new_path req r), t)"
    and resp: "resp = create_response req (ns_data (conf t) (rr_configName r)) cs
        (req_zone req) (req_bytes req) r (new_path req r)"
    by (rule CreateVolume_Ret [OF assms(4)])
  have "snap = []" "vol = []" using src assms(3) by (simp_all add: create_source_def ran)
  with create_provision_Ret [OF prov] obtain ps v where
    res: "resolveNS L ps u = (Ret r, v)"
    and new: "createNewVolume L (rr_nsProvider r) (new_path req r) (req_bytes req) sp v = (Ret (), t)"
    by auto
  from new obtain p where p: "rr_nsProvider r = Some p"
    by (cases "rr_nsProvider r") (auto simp: createNewVolume_def run_simps)
  have n: "req_bytes req \<noteq> 0" by (simp add: requested_capacity_def Let_def)
  have v: "vols (world v) = vols (world s)"
    using view_D [OF ctrl_use_config_view [OF assms(1)] c] view_D [OF resolveNS_view [OF assms(1)] res]
    by simp
  have "vols (world t) = (vols (world v))(new_path req r := Some (req_bytes req))"
    using createNewVolume_spec [OF assms(2) n, where p = p and path = "new_path req r" and sparse = sp and s = v] new p
    by (auto simp: spec_create_def fun_upd_idem split: option.splits if_splits)
  then show ?thesis using v
    by (intro exI [of _ "rr_configName r"] exI [of _ "new_path req r"])
      (simp add: resp create_response_def)
qed

text \<open>C1: on an appliance that keeps the contract, a successful \<open>CreateVolume\<close> without a source ends
  with a volume of exactly the requested size at the path of the returned id, and with every
  other volume as it was.\<close>

theorem CreateVolume_makes_volume:
  assumes "lookups_keep L vols" and "\<And>p. create_contract L p vols"
    and "cv_VolumeContentSource req = None"
    and "CreateVolume L req s = (Ret resp, t)"
  shows "\<exists>cn path. cr_VolumeId resp = cn @ '':'' @ path \<and>
    vols (world t) = (vols (world s))(path := Some (cr_CapacityBytes resp))"
  by (rule CreateVolume_effect [OF assms])

lemma sim_create_contract_all: "create_contract sim_lib p (map_of \<circ> sim_vols)"
  using sim_create_contract by (simp add: create_contract_def sim_lib_def)

theorem CreateVolume_makes_volume_witness:
  "\<exists>resp t. CreateVolume sim_lib (sim_create ''v'') (sim_process [(''a'', sim_data\<lparr>Zone := ''z''\<rparr>)] ''good'' 7) =
      (Ret resp, t) \<and> map_of (sim_vols (world t)) ''p/g/v'' = Some 5"
proof -
  let ?s = "sim_process [(''a'', sim_data\<lparr>Zone := ''z''\<rparr>)] ''good'' 7"
  obtain resp t where run: "CreateVolume sim_lib (sim_create ''v'') ?s = (Ret resp, t)"
    and i: "cr_VolumeId resp = ''a:p/g/v''" and n: "cr_CapacityBytes resp = 5"
    by (simp add: sim_create_def create_eval config_eval sim_defs filepath_Join_def filepath_Clean_def)
  have "cv_VolumeContentSource (sim_create ''v'') = None" by (simp add: sim_create_def)
  from CreateVolume_makes_volume [OF sim_lookups_keep sim_create_contract_all this run]
  obtain cn path where e: "cr_VolumeId resp = cn @ '':'' @ path"
    "(map_of \<circ> sim_vols) (world t) = ((map_of \<circ> sim_vols) (world ?s))(path := Some 5)"
    by (auto simp: n)
  from e(1) i have "cn = ''a'' \<and> path = ''p/g/v'' " 
    by (auto simp: append_eq_Cons_conv Cons_eq_append_conv)
  with e(2) have "map_of (sim_vols (world t)) ''p/g/v'' = Some 5" by (metis comp_apply fun_upd_same)
  with run show ?thesis by blast
qed

lemma DeleteVolume_effect:
  assumes "lookups_keep L vols" and "lookups_keep L luns" and "\<And>p. destroy_contract L p vols luns"
    and "\<And>v. v \<noteq> path \<Longrightarrow> luns (world s) v \<inter> luns (world s) path = {}"
    and "strings_Split (dv_VolumeId req) '':'' = [cn, path]" and "strings_Split path ''/'' = [a, b, n]"
    and "DeleteVolume L req s = (Ret (), t)"
  shows "vols (world t) = (vols (world s))(path := None) \<and> luns (world t) = (luns (world s))(path := {}) \<or>
    vols (world t) = vols (world s) \<and> luns (world t) = luns (world s) \<and>
      (\<exists>e u. ctrl_use_config L (dv_Secrets req) s = (Ret (), u) \<and>
         resolveNS L \<lparr>rp_volumeGroup = a @ ''/'' @ b, rp_zone = [], rp_configName = cn\<rparr> u = (Fail e, t) \<and>
         statusCode L e = NotFound)"
proof -
  let ?ps = "\<lparr>rp_volumeGroup = a @ ''/'' @ b, rp_zone = [], rp_configName = cn\<rparr>"
  from assms(7) obtain u where c: "ctrl_use_config L (dv_Secrets req) s = (Ret (), u)"
    and d: "attempt (resolveNS L ?ps) (not_found_ok L ()) (\<lambda>r. delete_on L (rr_nsProvider r) path) u = (Ret (), t)"
    by (auto simp: DeleteVolume_well_formed [OF assms(5,6)] bind_Ret_iff)
  have vu: "vols (world u) = vols (world s)" "luns (world u) = luns (world s)"
    using view_D [OF ctrl_use_config_view [OF assms(1)] c] view_D [OF ctrl_use_config_view [OF assms(2)] c] .
  obtain res v where r: "resolveNS L ?ps u = (res, v)" by fastforce
  have vv: "vols (world v) = vols (world s)" "luns (world v) = luns (world s)"
    using view_D [OF resolveNS_view [OF assms(1)] r] view_D [OF resolveNS_view [OF assms(2)] r] vu by simp_all
  show ?thesis
  proof (cases res)
    case (Ret rr)
    with r d have del: "delete_on L (rr_nsProvider rr) path v = (Ret (), t)" by (simp add: run_simps)
    then obtain p where p: "rr_nsProvider rr = Some p"
      by (cases "rr_nsProvider rr") (auto simp: delete_on_def ns_GetLunMappings_def run_simps)
    have "path \<noteq> []" using assms(6) by auto
    moreover have "w \<noteq> path \<Longrightarrow> luns (world v) w \<inter> luns (world v) path = {}" for w
      using assms(4) vv by simp
    ultimately have "vols (world t) = (vols (world v))(path := None) \<and> luns (world t) = (luns (world v))(path := {})"
      using delete_on_spec [OF assms(3)] del unfolding p by blast
    then show ?thesis using vv by simp
  next
    case (Fail e)
    with r d have "statusCode L e = NotFound" "t = v"
      by (auto simp: run_simps not_found_ok_def split: if_splits)
    then show ?thesis using vv r Fail c by blast
  qed (use r d in \<open>simp_all add: run_simps\<close>)
qed

text \<open>C2: on an appliance that keeps the contract, a delete request for a well-formed id that
  succeeds leaves neither the volume nor a LUN mapping of it, and nothing else has changed; the
  one exception is that the group could not be resolved and the error was classified as
  "not found", where nothing at all has changed.\<close>

theorem DeleteVolume_removes:
  assumes "lookups_keep L vols" and "lookups_keep L luns" and "\<And>p. destroy_contract L p vols luns"
    and "\<And>v. v \<noteq> path \<Longrightarrow> luns (world s) v \<inter> luns (world s) path = {}"
    and "strings_Split (dv_VolumeId req) '':'' = [cn, path]" and "strings_Split path ''/'' = [a, b, n]"
    and "DeleteVolume L req s = (Ret (), t)"
  shows "vols (world t) = (vols (world s))(path := None) \<and> luns (world t) = (luns (world s))(path := {}) \<or>
    vols (world t) = vols (world s) \<and> luns (world t) = luns (world s) \<and>
      (\<exists>e u. ctrl_use_config L (dv_Secrets req) s = (Ret (), u) \<and>
         resolveNS L \<lparr>rp_volumeGroup = a @ ''/'' @ b, rp_zone = [], rp_configName = cn\<rparr> u = (Fail e, t) \<and>
         statusCode L e = NotFound)"
  by (rule DeleteVolume_effect [OF assms])

lemma sim_destroy_contract_all: "destroy_contract sim_lib p (map_of \<circ> sim_vols) sim_lun_ids"
proof -
  have "nsCommand sim_lib p c = nsCommand sim_lib 0 c" for c
    by (cases c; rule HOL.ext; simp add: sim_lib_def)
  moreover have "GetLunMappings sim_lib p = GetLunMappings sim_lib 0" by (simp add: sim_lib_def)
  ultimately show ?thesis using sim_destroy_contract by (simp add: destroy_contract_def)
qed

definition mapped_world :: sim where
  "mapped_world = sim_empty\<lparr>sim_vols := [(''p/g/v'', 4), (''p/g/w'', 4)],
     sim_luns := [\<lparr>sl_Id = ''7'', sl_Volume = ''p/g/v'', sl_TargetGroup = ''t'', sl_HostGroup = ''h''\<rparr>],
     sim_files := [(''/c.yaml'', (''good'', 7))]\<rparr>"

theorem DeleteVolume_removes_witness:
  "\<exists>t. DeleteVolume sim_lib \<lparr>dv_VolumeId = ''a:p/g/v'', dv_Secrets = []\<rparr>
      ((sim_process [(''a'', sim_data)] ''good'' 7)\<lparr>world := mapped_world\<rparr>) = (Ret (), t) \<and>
    map_of (sim_vols (world t)) ''p/g/v'' = None \<and> map_of (sim_vols (world t)) ''p/g/w'' = Some 4"
proof -
  let ?s = "(sim_process [(''a'', sim_data)] ''good'' 7)\<lparr>world := mapped_world\<rparr>"
  let ?req = "\<lparr>dv_VolumeId = ''a:p/g/v'', dv_Secrets = []\<rparr>"
  obtain t where run: "DeleteVolume sim_lib ?req ?s = (Ret (), t)" and l: "sim_luns (world t) = []"
    by (simp add: DeleteVolume_def delete_on_def destroy_luns_def create_eval config_eval sim_defs
        resolve_named_def ctrl_resolver_def mapped_world_def ns_GetLunMappings_def luns_of_volume_def)
  have "\<And>v. v \<noteq> ''p/g/v'' \<Longrightarrow> sim_lun_ids (world ?s) v \<inter> sim_lun_ids (world ?s) ''p/g/v'' = {}"
    by (auto simp: sim_lun_ids_def mapped_world_def)
  moreover have "strings_Split (dv_VolumeId ?req) '':'' = [''a'', ''p/g/v'']" by simp
  moreover have "strings_Split ''p/g/v'' ''/'' = [''p'', ''g'', ''v'']" by simp
  moreover have "sim_lun_ids (world ?s) \<noteq> sim_lun_ids (world t)"
    using l by (auto simp: sim_lun_ids_def mapped_world_def dest: fun_cong [where x = "''p/g/v''"])
  ultimately have "(map_of \<circ> sim_vols) (world t) = ((map_of \<circ> sim_vols) (world ?s))(''p/g/v'' := None)"
    using DeleteVolume_removes [OF sim_lookups_keep sim_lookups_keep sim_destroy_contract_all _ _ _ run]
    by metis
  from fun_cong [OF this, of "''p/g/v''"] fun_cong [OF this, of "''p/g/w''"] run show ?thesis
    by (simp add: mapped_world_def)
qed

theorem ValidateVolumeCapabilities_confirms_witness:
  "\<exists>t. ValidateVolumeCapabilities sim_lib \<lparr>vr_VolumeId = ''a:p/g/v'',
      vr_VolumeCapabilities = [\<lparr>vc_AccessMode = None, vc_AccessType = AccessBlock\<rparr>],
      vr_VolumeContext = [], vr_Secrets = []\<rparr> (sim_process [] ''good'' 7) = (Ret (NotConfirmed (unsupported_mode sim_lib
        \<lparr>vc_AccessMode = None, vc_AccessType = AccessBlock\<rparr>)), t)"
proof -
  let ?req = "\<lparr>vr_VolumeId = ''a:p/g/v'',
      vr_VolumeCapabilities = [\<lparr>vc_AccessMode = None, vc_AccessType = AccessBlock\<rparr>],
      vr_VolumeContext = [], vr_Secrets = []\<rparr>"
  obtain resp t where run: "ValidateVolumeCapabilities sim_lib ?req (sim_process [] ''good'' 7) = (Ret resp, t)"
    by (simp add: ValidateVolumeCapabilities_def create_eval config_eval sim_defs)
  from ValidateVolumeCapabilities_confirms [OF run]
  have "resp = NotConfirmed (unsupported_mode sim_lib \<lparr>vc_AccessMode = None, vc_AccessType = AccessBlock\<rparr>)"
    by (cases resp) (auto simp: GetMode_def supportedVolumeCapabilities_def)
  with run show ?thesis by blast
qed

section \<open>Growing a volume\<close>

lemma create_contract_update:
  "create_contract L p vols \<Longrightarrow> nsCommand L p (UpdateVolumeCmd path n) w = (e, w') \<Longrightarrow>
    (case e of None \<Rightarrow> vols w path \<noteq> None \<and> vols w' = (vols w)(path := Some n) | Some d \<Rightarrow> vols w' = vols w)"
  unfolding create_contract_def by blast

lemma create_contract_get:
  "create_contract L p vols \<Longrightarrow> GetVolume L p path w = (r, w') \<Longrightarrow> vols w' = vols w \<and>
    (\<forall>v. r = Inr v \<longrightarrow> vols w path = Some (vol_VolumeSize v))"
  unfolding create_contract_def by blast

text \<open>What growing may do to the table of volumes.\<close>

definition grown :: "string \<Rightarrow> int \<Rightarrow> (string \<Rightarrow> int option) \<Rightarrow> (string \<Rightarrow> int option) \<Rightarrow> bool" where
  "grown path n m m' \<longleftrightarrow> m' = m \<or> (\<exists>old. m path = Some old \<and> old < n \<and> m' = m(path := Some n))"

lemma expand_on_spec:
  assumes "\<And>p. create_contract L p vols" and "expand_on L p path n s = (res, t)"
  shows "grown path n (vols (world s)) (vols (world t)) \<and>
    (\<forall>resp. res = Ret resp \<longrightarrow> (\<exists>k. vols (world t) path = Some k \<and> n \<le> k) \<and>
       (er_NodeExpansionRequired resp \<longleftrightarrow> vols (world t) \<noteq> vols (world s)))"
proof (cases p)
  case None
  with assms(2) show ?thesis by (auto simp: expand_on_def ns_GetVolume_def run_simps grown_def)
next
  case (Some q)
  obtain g w where g: "GetVolume L q path (world s) = (g, w)" by fastforce
  obtain e w' where up: "nsCommand L q (UpdateVolumeCmd path n) w = (e, w')" by fastforce
  note gc = create_contract_get [OF assms(1) g] and uc = create_contract_update [OF assms(1) up]
  show ?thesis
  proof (cases g)
    case (Inl d)
    with assms(2) Some g gc show ?thesis
      by (auto simp: expand_on_def ns_GetVolume_def run_simps grown_def)
  next
    case (Inr vi)
    with gc have old: "vols (world s) path = Some (vol_VolumeSize vi)" and w: "vols w = vols (world s)"
      by simp_all
    show ?thesis
    proof (cases "vol_VolumeSize vi < n")
      case False
      with assms(2) Some g Inr old w show ?thesis
        by (auto simp: expand_on_def ns_GetVolume_def run_simps grown_def)
    next
      case True
      have "vols w \<noteq> (vols w)(path := Some n)" using True old w by (metis fun_upd_same option.inject order.irrefl)
      with True assms(2) Some g Inr old w up uc show ?thesis
        by (cases e) (auto simp: expand_on_def ns_GetVolume_def run_simps grown_def)
    qed
  qed
qed

lemma ControllerExpandVolume_well_formed:
  assumes "strings_Split (ex_VolumeId req) '':'' = [cn, path]" and "strings_Split path ''/'' = [a, b, d]"
    and "ex_CapacityRange req = Some n" and "n \<noteq> 0"
  shows "ControllerExpandVolume L req = bind (ctrl_use_config L (ex_Secrets req)) (\<lambda>_.
    bind (resolveNS L \<lparr>rp_volumeGroup = a @ ''/'' @ b, rp_zone = [], rp_configName = cn\<rparr>)
      (\<lambda>r. expand_on L (rr_nsProvider r) path n))"
proof -
  have "ex_VolumeId req \<noteq> []" using assms(1) by auto
  with assms show ?thesis by (simp add: ControllerExpandVolume_def)
qed

text \<open>C9: \<open>ControllerExpandVolume\<close> never shrinks a volume and touches no other: whatever its
  outcome, the volumes are as before, except that the volume of the request may have grown from
  a smaller size to the requested one; and when it answers, the volume has at least the
  requested size, with a node expansion asked for exactly when it grew just now.\<close>

theorem ControllerExpandVolume_grows:
  assumes "lookups_keep L vols" and "\<And>p. create_contract L p vols"
    and "strings_Split (ex_VolumeId req) '':'' = [cn, path]" and "strings_Split path ''/'' = [a, b, d]"
    and "ex_CapacityRange req = Some n" and "n \<noteq> 0"
    and "ControllerExpandVolume L req s = (res, t)"
  shows "grown path n (vols (world s)) (vols (world t)) \<and>
    (\<forall>resp. res = Ret resp \<longrightarrow> (\<exists>k. vols (world t) path = Some k \<and> n \<le> k) \<and>
       (er_NodeExpansionRequired resp \<longleftrightarrow> vols (world t) \<noteq> vols (world s)))"
proof -
  let ?ps = "\<lparr>rp_volumeGroup = a @ ''/'' @ b, rp_zone = [], rp_configName = cn\<rparr>"
  let ?m = "\<lambda>_. bind (resolveNS L ?ps) (\<lambda>r. expand_on L (rr_nsProvider r) path n)"
  obtain r0 u where c: "ctrl_use_config L (ex_Secrets req) s = (r0, u)" by fastforce
  have vu: "vols (world u) = vols (world s)" by (rule view_D [OF ctrl_use_config_view [OF assms(1)] c])
  obtain r1 v where r: "resolveNS L ?ps u = (r1, v)" by fastforce
  have vv: "vols (world v) = vols (world s)" using view_D [OF resolveNS_view [OF assms(1)] r] vu by simp
  have run: "bind (ctrl_use_config L (ex_Secrets req)) ?m s = (res, t)"
    using assms(7) ControllerExpandVolume_well_formed [OF assms(3-6)] by metis
  show ?thesis
  proof (cases "\<exists>q. expand_on L q path n v = (res, t)")
    case True
    then obtain q where "expand_on L q path n v = (res, t)" by blast
    from expand_on_spec [OF assms(2) this] vv show ?thesis by simp
  next
    case False
    with run c r vu vv have "vols (world t) = vols (world s) \<and> (\<forall>x. res \<noteq> Ret x)"
      by (cases r0; cases r1) (auto simp: run_bind)
    then show ?thesis by (simp add: grown_def)
  qed
qed

theorem ControllerExpandVolume_grows_witness:
  "\<exists>resp t. ControllerExpandVolume sim_lib \<lparr>ex_VolumeId = ''a:p/g/v'', ex_CapacityRange = Some 9, ex_Secrets = []\<rparr>
      ((sim_process [(''a'', sim_data)] ''good'' 7)\<lparr>world := mapped_world\<rparr>) = (Ret resp, t) \<and>
    (\<exists>k. map_of (sim_vols (world t)) ''p/g/v'' = Some k \<and> 9 \<le> k)"
proof -
  let ?s = "(sim_process [(''a'', sim_data)] ''good'' 7)\<lparr>world := mapped_world\<rparr>"
  let ?req = "\<lparr>ex_VolumeId = ''a:p/g/v'', ex_CapacityRange = Some 9, ex_Secrets = []\<rparr>"
  obtain resp t where run: "ControllerExpandVolume sim_lib ?req ?s = (Ret resp, t)"
    by (simp add: ControllerExpandVolume_def expand_on_def create_eval config_eval sim_defs
        resolve_named_def ctrl_resolver_def mapped_world_def ns_GetVolume_def)
  have "strings_Split (ex_VolumeId ?req) '':'' = [''a'', ''p/g/v'']"
    "strings_Split ''p/g/v'' ''/'' = [''p'', ''g'', ''v'']" "ex_CapacityRange ?req = Some 9" "(9::int) \<noteq> 0"
    by simp_all
  from ControllerExpandVolume_grows [OF sim_lookups_keep sim_create_contract_all this run] run
  show ?thesis by auto
qed

text \<open>A path that is not \<open>pool/group/name\<close> is answered with success and an empty response: the
  requested size is not looked at, nothing grows, and the capacity of the answer is 0.\<close>

theorem ControllerExpandVolume_malformed_path:
  assumes "strings_Split (ex_VolumeId req) '':'' = [cn, path]" and "length (strings_Split path ''/'') \<noteq> 3"
    and "ex_CapacityRange req = Some n" and "n \<noteq> 0"
    and "ctrl_use_config L (ex_Secrets req) s = (Ret (), u)"
  shows "ControllerExpandVolume L req s = (Ret \<lparr>er_CapacityBytes = 0, er_NodeExpansionRequired = False\<rparr>, u)"
proof -
  have "ex_VolumeId req \<noteq> []" using assms(1) by auto
  with assms show ?thesis by (simp add: ControllerExpandVolume_def run_simps three_None [THEN iffD2])
qed

theorem ControllerExpandVolume_malformed_path_witness:
  "\<exists>u. ControllerExpandVolume sim_lib \<lparr>ex_VolumeId = ''a:p/v'', ex_CapacityRange = Some 9, ex_Secrets = []\<rparr>
      (sim_process [(''a'', sim_data)] ''good'' 7) =
      (Ret \<lparr>er_CapacityBytes = 0, er_NodeExpansionRequired = False\<rparr>, u)"
proof -
  obtain u where u: "ctrl_use_config sim_lib [] (sim_process [(''a'', sim_data)] ''good'' 7) = (Ret (), u)"
    by (simp add: create_eval config_eval sim_defs)
  then show ?thesis
    using ControllerExpandVolume_malformed_path [of "\<lparr>ex_VolumeId = ''a:p/v'', ex_CapacityRange = Some 9,
      ex_Secrets = []\<rparr>" "''a''" "''p/v''" 9 sim_lib] by auto
qed

section \<open>Volumes from a source\<close>

text \<open>C39: The size of a volume made from a snapshot or from another volume does not depend on the
  requested size: changing the request changes nothing but the number in the answer.\<close>

theorem CreateVolume_source_ignores_size:
  assumes "cv_VolumeContentSource req = Some (SourceSnapshot i) \<or> cv_VolumeContentSource req = Some (SourceVolume i)"
    and "i \<noteq> []"
  shows "CreateVolume L (req\<lparr>cv_CapacityRange := rng\<rparr>) s =
    map_prod (map_outcome (\<lambda>resp. resp\<lparr>cr_CapacityBytes := requested_capacity rng\<rparr>)) id (CreateVolume L req s)"
proof -
  have prov: "create_provision L ps snap vol name n sp = create_provision L ps snap vol name m sp"
    if "snap \<noteq> [] \<or> vol \<noteq> []" for ps snap vol name n m sp
    using that unfolding create_provision_def createNewVolumeFromSnapshot_def createClonedVolume_def
    by (cases "snap = []") simp_all
  show ?thesis
    using assms prov [of i "[]" _ _ "req_bytes req" _ "requested_capacity rng"]
      prov [of "[]" i _ _ "req_bytes req" _ "requested_capacity rng"]
    by (auto simp: CreateVolume_def run_simps create_source_def create_response_def Let_def
        split: prod.splits outcome.splits option.splits)
qed


theorem CreateVolume_source_ignores_size_witness:
  "\<exists>resp t. CreateVolume sim_lib (sim_create ''u''\<lparr>cv_VolumeContentSource := Some (SourceSnapshot ''a:p/g/w@s''),
        cv_CapacityRange := Some 77\<rparr>)
      ((sim_process [(''a'', sim_data\<lparr>Zone := ''z''\<rparr>)] ''good'' 7)\<lparr>world := mapped_world\<lparr>
         sim_snaps := [snapshot_of ''p/g/w@s'']\<rparr>\<rparr>) = (Ret resp, t) \<and> cr_CapacityBytes resp = 77 \<and>
    map_of (sim_vols (world t)) ''p/g/u'' = Some 4"
proof -
  let ?req = "sim_create ''u''\<lparr>cv_VolumeContentSource := Some (SourceSnapshot ''a:p/g/w@s'')\<rparr>"
  let ?s = "(sim_process [(''a'', sim_data\<lparr>Zone := ''z''\<rparr>)] ''good'' 7)\<lparr>world := mapped_world\<lparr>
         sim_snaps := [snapshot_of ''p/g/w@s'']\<rparr>\<rparr>"
  obtain resp t where run: "CreateVolume sim_lib ?req ?s = (Ret resp, t)"
    and v: "map_of (sim_vols (world t)) ''p/g/u'' = Some 4"
    by (simp add: sim_create_def create_eval config_eval sim_defs filepath_Join_def filepath_Clean_def
        createNewVolumeFromSnapshot_def ns_GetSnapshot_def resolve_named_def ctrl_resolver_def mapped_world_def)
  have "cv_VolumeContentSource ?req = Some (SourceSnapshot ''a:p/g/w@s'') \<or>
      cv_VolumeContentSource ?req = Some (SourceVolume ''a:p/g/w@s'')" and "''a:p/g/w@s'' \<noteq> []" by simp_all
  from CreateVolume_source_ignores_size [OF this, of sim_lib "Some 77" ?s] run v
  show ?thesis by (auto simp: requested_capacity_def Let_def)
qed

section \<open>The commands of CreateVolume\<close>

text \<open>The commands a request to create may lead to: nothing is destroyed, resized or mapped, and a
  volume is only made under the requested name.\<close>

text \<open>What the appliance may answer to a question about one snapshot.\<close>

definition snapshot_answer :: "'w lib \<Rightarrow> provider \<Rightarrow> string \<Rightarrow> ns_Snapshot \<Rightarrow> bool" where
  "snapshot_answer L p path x \<longleftrightarrow> (\<exists>w w'. GetSnapshot L p path w = (Inr x, w'))"

text \<open>The path of a volume made for a request: under its name, in the group of the StorageClass if it names one.\<close>

definition requested_path :: "CreateVolumeRequest \<Rightarrow> string \<Rightarrow> bool" where
  "requested_path req path \<longleftrightarrow> (\<exists>vg. path = filepath_Join [vg, cv_Name req] \<and>
     (get_str (cv_Parameters req) ''volumeGroup'' \<noteq> [] \<longrightarrow> vg = get_str (cv_Parameters req) ''volumeGroup''))"

text \<open>
  The commands \<open>CreateVolume\<close> may send to provider \<open>p\<close>: to create a volume of the requested size, when the request has
  no source; to clone the snapshot of the appliance the request names, or the snapshot made for the volume it
  names; and to make that snapshot.
\<close>

definition creates :: "'w lib \<Rightarrow> CreateVolumeRequest \<Rightarrow> provider \<Rightarrow> ns_cmd \<Rightarrow> bool" where
  "creates L req p cmd \<longleftrightarrow> (case cmd of
     CreateVolumeCmd path n _ \<Rightarrow> snapshot_source req = [] \<and> volume_source req = [] \<and>
       n = requested_capacity (cv_CapacityRange req) \<and> requested_path req path
   | CloneSnapshotCmd snap path \<Rightarrow> requested_path req path \<and>
       ((\<exists>c src x. strings_Split (snapshot_source req) '':'' = [c, src] \<and> snapshot_answer L p src x \<and> snap = snap_Path x) \<or>
        (\<exists>c src. strings_Split (volume_source req) '':'' = [c, src] \<and> snap = src @ ''@k8s-clone-snapshot-'' @ cv_Name req))
   | CreateSnapshotCmd path \<Rightarrow>
       \<exists>c src. strings_Split (volume_source req) '':'' = [c, src] \<and> path = src @ ''@k8s-clone-snapshot-'' @ cv_Name req
   | _ \<Rightarrow> False)"

definition creates_call :: "'w lib \<Rightarrow> CreateVolumeRequest \<Rightarrow> call \<Rightarrow> bool" where
  "creates_call L req c \<longleftrightarrow> (case c of NsCmd p cmd \<Rightarrow> creates L req p cmd | NsQuery _ _ \<Rightarrow> True | _ \<Rightarrow> is_lookup c)"

lemma config_call_creates: "is_config_call c \<Longrightarrow> creates_call L req c"
  by (cases c) (auto simp: creates_call_def)

lemma CreateSnapshotOnNS_emits:
  assumes "\<And>p q. P (NsQuery p q)" and "\<And>p. P (NsCmd p (CreateSnapshotCmd (path @ ''@'' @ name)))"
  shows "keeps (emits P) (CreateSnapshotOnNS L p path name)"
  unfolding CreateSnapshotOnNS_def Let_def
  by (intro emits_rules keeps_cases assms)

lemma ns_GetSnapshot_gives:
  "gives (\<lambda>x. \<forall>q. p = Some q \<longrightarrow> snapshot_answer L q path x) (ns_GetSnapshot L p path)"
  by (rule givesI) (auto simp: ns_GetSnapshot_def snapshot_answer_def ns_ask_Ret)

lemma making_emits:
  assumes "\<And>p q. P (NsQuery p q)"
  shows "(\<And>p. P (NsCmd p (CreateVolumeCmd path n sp))) \<Longrightarrow> keeps (emits P) (createNewVolume L p path n sp)"
    and "(\<And>p x. snapshot_answer L p src x \<Longrightarrow> P (NsCmd p (CloneSnapshotCmd (snap_Path x) path))) \<Longrightarrow>
      keeps (emits P) (createNewVolumeFromSnapshot L p src path n)"
    and "(\<And>p. P (NsCmd p (CreateSnapshotCmd (src @ ''@k8s-clone-snapshot-'' @ name)))) \<Longrightarrow>
      (\<And>p. P (NsCmd p (CloneSnapshotCmd (src @ ''@k8s-clone-snapshot-'' @ name) path))) \<Longrightarrow>
      keeps (emits P) (createClonedVolume L p src path name n)"
proof -
  show "keeps (emits P) (createNewVolume L p path n sp)" if "\<And>p. P (NsCmd p (CreateVolumeCmd path n sp))" for p
    unfolding createNewVolume_def by (intro emits_rules keeps_cases assms that)
  show "keeps (emits P) (createNewVolumeFromSnapshot L p src path n)"
    if "\<And>p x. snapshot_answer L p src x \<Longrightarrow> P (NsCmd p (CloneSnapshotCmd (snap_Path x) path))" for p
    unfolding createNewVolumeFromSnapshot_def Let_def
    by (intro emitting.keeps_attempt_gives [OF ns_query_emits(4) ns_GetSnapshot_gives] emits_rules keeps_cases assms that)
      blast
  show "keeps (emits P) (createClonedVolume L p src path name n)"
    if "\<And>p. P (NsCmd p (CreateSnapshotCmd (src @ ''@k8s-clone-snapshot-'' @ name)))"
      "\<And>p. P (NsCmd p (CloneSnapshotCmd (src @ ''@k8s-clone-snapshot-'' @ name) path))" for p
    unfolding createClonedVolume_def Let_def
    by (intro emits_rules keeps_cases CreateSnapshotOnNS_emits assms) (use that in simp_all)
qed

lemma resolveNS_gives_group:
  "gives (\<lambda>r. rp_volumeGroup ps \<noteq> [] \<longrightarrow> rr_volumeGroup r = rp_volumeGroup ps) (resolveNS L ps)"
  by (rule givesI) (auto dest: resolveNS_answers)

lemma create_provision_emits:
  assumes "n = req_bytes req" and "name = cv_Name req" and "snap = snapshot_source req" and "vol = volume_source req"
    and "rp_volumeGroup ps = get_str (cv_Parameters req) ''volumeGroup''"
  shows "keeps (emits (creates_call L req)) (create_provision L ps snap vol name n sp)"
proof -
  have res: "keeps (emits (creates_call L req)) (bind (resolveNS L (ps\<lparr>rp_configName := c\<rparr>)) k)"
    if "\<And>r. requested_path req (new_path req r) \<Longrightarrow> keeps (emits (creates_call L req)) (k r)"
    for c and k :: "ResolveNSResponse \<Rightarrow> ('a st, ResolveNSResponse \<times> string) M"
  proof (rule emitting.keeps_bind_gives [OF _ resolveNS_gives_group])
    show "keeps (emits (creates_call L req)) (resolveNS L (ps\<lparr>rp_configName := c\<rparr>))"
      by (intro emits_rules) (simp add: creates_call_def)
  qed (use assms(5) that in \<open>auto simp: requested_path_def\<close>)
  have ps: "ps\<lparr>rp_configName := rp_configName ps\<rparr> = ps" by simp
  show ?thesis
    unfolding create_provision_def Let_def
    by (intro keeps_cases res res [where c = "rp_configName ps", unfolded ps])
      (use assms(1-4) in \<open>auto intro!: emits_rules making_emits simp: creates_call_def creates_def\<close>)
qed

lemma CreateVolume_emits: "keeps (emits (creates_call L req)) (CreateVolume L req)"
proof -
  have ps: "keeps (emits (creates_call L req)) (create_params L (cv_Parameters req))"
    and src: "keeps (emits (creates_call L req)) (create_source (cv_VolumeContentSource req))"
    unfolding create_params_def create_source_def Let_def
    by (auto intro!: emits_rules keeps_cases split: option.split content_source.split)
  show ?thesis
    unfolding CreateVolume_def Let_def
    by (intro emitting.keeps_bind_gives [OF ps create_params_gives] emitting.keeps_bind_gives [OF src create_source_gives]
        emits_rules keeps_cases create_provision_emits)
      (auto simp: config_call_creates)
qed

text \<open>Whatever its outcome, \<open>CreateVolume\<close> issues no other commands than to create a volume of
  the requested size, to clone a snapshot, or to make the snapshot a clone needs; volumes are
  only made under the requested name. It destroys, resizes and maps nothing.\<close>

theorem CreateVolume_only_creates:
  assumes "CreateVolume L req s = (res, t)"
  shows "\<exists>cs. trace t = trace s @ cs \<and> (\<forall>c \<in> set cs. creates_call L req c)"
  using emits_new_calls [OF CreateVolume_emits assms refl] by metis

theorem CreateVolume_only_creates_witness:
  "\<exists>res t. CreateVolume sim_lib (sim_create ''v'') (sim_process [(''a'', sim_data\<lparr>Zone := ''z''\<rparr>)] ''good'' 7) =
     (res, t) \<and> NsCmd 0 (CreateVolumeCmd ''p/g/v'' 5 True) \<in> set (trace t) \<and>
     (\<forall>c \<in> set (trace t). creates_call sim_lib (sim_create ''v'') c)"
proof -
  let ?s = "sim_process [(''a'', sim_data\<lparr>Zone := ''z''\<rparr>)] ''good'' 7"
  obtain res t where run: "CreateVolume sim_lib (sim_create ''v'') ?s = (res, t)"
    and c: "NsCmd 0 (CreateVolumeCmd ''p/g/v'' 5 True) \<in> set (trace t)"
    by (simp add: sim_create_def create_eval config_eval sim_defs filepath_Join_def filepath_Clean_def
        DefaultSparseVolume_def)
  have "trace ?s = []" by (simp add: sim_process_def)
  with CreateVolume_only_creates [OF run] run c show ?thesis by auto
qed

end
