(* ===== verification/NodeIscsiProps.thy ===== *)
theory NodeIscsiProps
  imports NodePublish ControllerVolumeProps
begin

text \<open>
  Properties of attaching a volume on the node: the node server as a client of the configuration
  (it answers to the same interface as the controller, and the two starve each other), the host group
  of the node, the choice of a target, CHAP, the volume context that the controller hands over, and the
  names of devices.
\<close>

section \<open>The node server as a client of the configuration\<close>

lemma keeps_node_step_conf: "keeps (same conf) (node_refresh_step L e)"
proof -
  have "keeps (same conf) (ns_NewResolver L a)" for a
    by (intro internal_conf internal_rules)
  then show ?thesis unfolding node_refresh_step_def
    by (intro unchanged.frame_rules keeps_cases unchanged.keeps_modify) (simp_all add: same_def)
qed

lemma node_refresh_after:
  assumes "Refresh L secret s = (Ret True, u)"
  shows "conf (snd (node_refreshConfig L secret s)) = conf u"
proof -
  have g: "keeps (same conf) (goRange L m)" for m :: "NsData gomap"
    by (intro internal_conf internal_rules)
  have "keeps (same conf) (bind (gets (\<lambda>s. NsMap (conf s))) (\<lambda>m.
       bind (goRange L m) (\<lambda>es. forM es (node_refresh_step L))))"
    by (intro unchanged.frame_rules g keeps_node_step_conf)
  then show ?thesis using assms
    by (simp add: node_refreshConfig_def run_bind [of "Refresh L secret"] keeps_def same_def)
qed

interpretation node: config_client node_refreshConfig
proof
  fix L :: "'w lib" and secret s e u t
  show "Refresh L secret s = (Fail e, u) \<Longrightarrow> node_refreshConfig L secret s = (Fail e, u)"
    by (simp add: node_refreshConfig_def run_simps)
  show "Refresh L secret s = (Ret False, u) \<Longrightarrow> node_refreshConfig L secret s = (Ret (), u)"
    by (simp add: node_refreshConfig_def run_simps)
  show "Refresh L secret s = (Ret True, u) \<Longrightarrow> conf (snd (node_refreshConfig L secret s)) = conf u"
    by (rule node_refresh_after)
  show "node_refreshConfig L secret s = (Ret (), t) \<Longrightarrow> \<exists>b u. Refresh L secret s = (Ret b, u)"
    by (auto simp: node_refreshConfig_def bind_Ret_iff)
qed

text \<open>C36: when one process runs both servers, the first of them that is called after a change of the
  configuration file hides the change from the other: after any refresh by the controller, the
  node server's refresh finds nothing to do and keeps its resolvers.\<close>

theorem ctrl_refresh_starves_node:
  assumes "filePath (conf s) \<noteq> []"
    and "osStat L (filePath (conf s)) (world s) = (Inr m, w)"
    and "ctrl_refreshConfig L [] s = (Ret (), t)"
    and "osStat L (filePath (conf s)) (world t) = (Inr m, w')"
  shows "\<exists>u. node_refreshConfig L [] t = (Ret (), u) \<and> conf u = conf t \<and> nodeResolvers u = nodeResolvers t"
proof -
  obtain b v where R: "Refresh L [] s = (Ret b, v)" using ctrl.only_if_refreshed [OF assms(3)] by blast
  have "conf t = conf v"
  proof (cases b)
    case True
    with ctrl.on_changed [of L "[]" s v] R assms(3) show ?thesis by simp
  next
    case False
    with ctrl.on_unchanged [of L "[]" s v] R assms(3) show ?thesis by simp
  qed
  moreover have "refresh_view v = (filePath (conf s), m, False)"
    by (rule Refresh_file_rest [OF assms(1,2) R])
  ultimately have "Refresh L [] t = (Ret False, t\<lparr>world := w', trace := trace t @ [StatCall (filePath (conf t))]\<rparr>)"
    using assms(1,4) by (simp add: Refresh_unchanged)
  from node.on_unchanged [OF this] show ?thesis by simp
qed

theorem ctrl_refresh_starves_node_witness:
  "\<exists>t u. ctrl_refreshConfig sim_lib [] (sim_process [] ''good'' 0) = (Ret (), t) \<and> ctrlResolvers t = [(''a'', 0)] \<and>
     node_refreshConfig sim_lib [] t = (Ret (), u) \<and> nodeResolvers u = []"
proof -
  let ?s = "sim_process [] ''good'' 0"
  obtain t where c: "ctrl_refreshConfig sim_lib [] ?s = (Ret (), t)" and r: "ctrlResolvers t = [(''a'', 0)]"
    and n: "nodeResolvers t = []" and w: "world t = world ?s"
    by (simp add: ctrl_refreshConfig_def ctrl_refresh_step_def ns_NewResolver_def config_eval sim_defs)
  have "filePath (conf ?s) \<noteq> []" by (simp add: sim_process_def)
  moreover have "osStat sim_lib (filePath (conf ?s)) (world ?s) = (Inr 7, world ?s)"
    by (simp add: sim_defs)
  ultimately show ?thesis
    using ctrl_refresh_starves_node [OF _ _ c, of 7 "world ?s" "world ?s"] c r n w by auto
qed

section \<open>The host group of the node\<close>

text \<open>What is relied on from the host groups: listing changes nothing, creating adds the group.\<close>

definition group_contract :: "'w lib \<Rightarrow> provider \<Rightarrow> ('w \<Rightarrow> ns_HostGroup set) \<Rightarrow> bool" where
  "group_contract L p groups \<longleftrightarrow>
     (\<forall>w r w'. GetHostGroups L p w = (r, w') \<longrightarrow> groups w' = groups w \<and>
        (\<forall>gs. r = Inr gs \<longrightarrow> set gs = groups w)) \<and>
     (\<forall>w name ms e w'. nsCommand L p (CreateHostGroupCmd name ms) w = (e, w') \<longrightarrow>
        (case e of None \<Rightarrow> groups w' = insert \<lparr>hg_Name = name, hg_Members = ms\<rparr> (groups w)
         | Some d \<Rightarrow> groups w' = groups w))"

lemma group_with_member_Some:
  "group_with_member gs iqn = Some name \<Longrightarrow> \<exists>g \<in> set gs. hg_Name g = name \<and> iqn \<in> set (hg_Members g)"
  by (induction gs) (auto split: if_splits)

lemma group_with_member_None: "group_with_member gs iqn = None \<longleftrightarrow> (\<forall>g \<in> set gs. iqn \<notin> set (hg_Members g))"
  by (induction gs) auto

text \<open>C28: \<open>CreateUpdateHostGroup\<close> answers with a host group the node is a member of. When there is
  one already it is found and nothing is created, so repeated calls do not pile up groups;
  otherwise one group with the node as its only member is created.\<close>

theorem CreateUpdateHostGroup_member:
  assumes "group_contract L p groups" and "\<And>path w. groups (snd (osReadFile L path w)) = groups w"
    and "\<And>w. groups (snd (uuidNew L w)) = groups w"
    and "CreateUpdateHostGroup L (Some p) s = (Ret name, t)"
  shows "\<exists>iqn u. GetNodeIQN L s = (Ret iqn, u) \<and>
    (\<exists>g \<in> groups (world t). hg_Name g = name \<and> iqn \<in> set (hg_Members g)) \<and>
    (if \<exists>g \<in> groups (world s). iqn \<in> set (hg_Members g) then groups (world t) = groups (world s)
     else groups (world t) = insert \<lparr>hg_Name = name, hg_Members = [iqn]\<rparr> (groups (world s)))"
proof -
  from assms(4) obtain iqn u gs v where iqn: "GetNodeIQN L s = (Ret iqn, u)"
    and l: "ns_GetHostGroups L (Some p) u = (Ret gs, v)"
    and k: "(case group_with_member gs iqn of Some name \<Rightarrow> ret name
       | None \<Rightarrow> bind (uuid_New L) (\<lambda>x. let name = HostGroupPrefix @ ''-'' @ x in
           bind (ns_do L (Some p) (CreateHostGroupCmd name [iqn])) (\<lambda>_. ret name))) v = (Ret name, t)"
    by (auto simp: CreateUpdateHostGroup_def bind_Ret_iff)
  have u: "groups (world u) = groups (world s)"
    using iqn assms(2) by (auto simp: GetNodeIQN_def os_ReadFile_def ran Let_def split: if_splits sum.splits)
  from l obtain w' where "GetHostGroups L p (world u) = (Inr gs, w')" "world v = w'"
    by (auto simp: ns_GetHostGroups_def ns_ask_Ret)
  with assms(1) have gs: "set gs = groups (world s)" and v: "groups (world v) = groups (world s)"
    unfolding group_contract_def u [symmetric] by blast+
  show ?thesis
  proof (cases "group_with_member gs iqn")
    case (Some n)
    with k have "n = name" "t = v" by (simp_all add: ran)
    with group_with_member_Some [OF Some] gs v iqn show ?thesis by auto
  next
    case None
    define w' where "w' = snd (uuidNew L (world v))"
    define v' where "v' = v\<lparr>world := w', trace := trace v @ [UuidCall]\<rparr>"
    define n where "n = HostGroupPrefix @ ''-'' @ fst (uuidNew L (world v))"
    have "bind (ns_do L (Some p) (CreateHostGroupCmd n [iqn])) (\<lambda>_. ret n) v' = (Ret name, t)"
      using k None unfolding n_def v'_def w'_def by (simp add: uuid_New_def run_bind [of "ext_call c f" for c f] run_ext_call Let_def)
    then obtain w where "n = name" and c: "nsCommand L p (CreateHostGroupCmd n [iqn]) (world v') = (None, w)"
      and t: "world t = w"
      unfolding bind_Ret_iff ns_do_Ret ret_run_iff by auto
    then have "groups (world t) = insert \<lparr>hg_Name = name, hg_Members = [iqn]\<rparr> (groups (world v'))"
      using assms(1) unfolding group_contract_def by fastforce
    then have "groups (world t) = insert \<lparr>hg_Name = name, hg_Members = [iqn]\<rparr> (groups (world s))"
      using assms(3) v by (simp add: v'_def w'_def)
    moreover have "\<not> (\<exists>g \<in> groups (world s). iqn \<in> set (hg_Members g))"
      using None gs by (simp add: group_with_member_None)
    ultimately show ?thesis using iqn by auto
  qed
qed


lemma sim_group_contract: "group_contract sim_lib p (set \<circ> sim_hgs)"
  by (auto simp: group_contract_def sim_lib_def)

definition node_world :: sim where
  "node_world = mapped_world\<lparr>sim_files := [(''/c.yaml'', (''good'', 7)),
     (PathToInitiatorName, (''InitiatorName=iqn.n1'', 1))]\<rparr>"

lemmas node_eval = node_world_def mapped_world_def GetNodeIQN_def os_ReadFile_def PathToInitiatorName_def
  newline_def strings_HasPrefix_def ns_GetHostGroups_def uuid_New_def HostGroupPrefix_def

theorem CreateUpdateHostGroup_member_witness:
  "\<exists>name t g. CreateUpdateHostGroup sim_lib (Some 0)
      ((sim_process [(''a'', sim_data)] ''good'' 7)\<lparr>world := node_world\<rparr>) = (Ret name, t) \<and>
    g \<in> set (sim_hgs (world t)) \<and> hg_Name g = name \<and> ''iqn.n1'' \<in> set (hg_Members g)"
proof -
  let ?s = "(sim_process [(''a'', sim_data)] ''good'' 7)\<lparr>world := node_world\<rparr>"
  obtain name t where run: "CreateUpdateHostGroup sim_lib (Some 0) ?s = (Ret name, t)"
    by (simp add: CreateUpdateHostGroup_def node_eval run_simps sim_defs Let_def)
  have i: "GetNodeIQN sim_lib ?s = (Ret iqn, u) \<Longrightarrow> iqn = ''iqn.n1''" for iqn u
    by (simp add: node_eval run_simps sim_defs Let_def)
  have "(set \<circ> sim_hgs) (snd (osReadFile sim_lib path w)) = (set \<circ> sim_hgs) w"
    "(set \<circ> sim_hgs) (snd (uuidNew sim_lib w)) = (set \<circ> sim_hgs) w" for path w
    by (simp_all add: sim_lib_def)
  from CreateUpdateHostGroup_member [OF sim_group_contract this run] run i show ?thesis by fastforce
qed

section \<open>The choice of a target\<close>

text \<open>A target that may be used: it is listed in the group, has the prefix, the group had room when it
  was asked, and the target's authentication fits.\<close>

definition eligible :: "'w lib \<Rightarrow> provider \<Rightarrow> ISCSIVolumeContext \<Rightarrow> (string \<times> string) list \<Rightarrow> string \<Rightarrow> string \<Rightarrow> bool" where
  "eligible L q ctx cands tg target \<longleftrightarrow>
     (tg, target) \<in> set cands \<and> prefix (ic_ISCSITargetPrefix ctx) target \<and>
     (\<exists>w ls w'. GetLunMappings L q (luns_of_group tg) w = (Inr ls, w') \<and>
        int (length ls) < ic_NumOfLunsPerTarget ctx) \<and>
     (\<exists>w a w'. GetISCSITarget L q target w = (Inr a, w') \<and> (a = ''chap'' \<longleftrightarrow> ic_UseChapAuth ctx))"

lemma eligible_mono: "eligible L q ctx cs tg target \<Longrightarrow> set cs \<subseteq> set cs' \<Longrightarrow> eligible L q ctx cs' tg target"
  by (auto simp: eligible_def)

text \<open>One round of the loop that goes on: the choice is kept or becomes the current target.\<close>

lemma target_loop_round:
  assumes "target_loop L ctx (Some q) n mtg tgt ((tg, cur) # cs) s = (Ret (target, g, None), t)"
  shows "g = [] \<or> (\<exists>u. target_loop L ctx (Some q) n mtg tgt cs u = (Ret (target, g, None), t)) \<or>
    (\<exists>k u. target_loop L ctx (Some q) k tg cur cs u = (Ret (target, g, None), t) \<and>
       eligible L q ctx [(tg, cur)] tg cur)"
proof (cases "prefix (ic_ISCSITargetPrefix ctx) cur")
  case False
  with assms show ?thesis by (auto simp: strings_HasPrefix_def)
next
  case True
  obtain r w where g: "GetLunMappings L q (luns_of_group tg) (world s) = (r, w)" by fastforce
  show ?thesis
  proof (cases r)
    case (Inl e)
    with assms True g show ?thesis
      by (auto simp: strings_HasPrefix_def ns_GetLunMappings_def run_simps)
  next
    case (Inr ls)
    let ?v = "s\<lparr>world := w, trace := trace s @ [NsQuery q (QLunMappings (luns_of_group tg))]\<rparr>"
    show ?thesis
    proof (cases "(n = 0 \<or> int (length ls) < n) \<and> int (length ls) < ic_NumOfLunsPerTarget ctx")
      case False
      with assms True g Inr have "target_loop L ctx (Some q) n mtg tgt cs ?v = (Ret (target, g, None), t)"
        by (simp add: strings_HasPrefix_def ns_GetLunMappings_def run_simps Let_def)
      then show ?thesis by blast
    next
      case room: True
      obtain a w1 where a: "GetISCSITarget L q cur w = (a, w1)" by fastforce
      show ?thesis
      proof (cases a)
        case (Inl e)
        with assms True g Inr room a show ?thesis
          by (auto simp: strings_HasPrefix_def ns_GetLunMappings_def ns_GetISCSITarget_def run_simps Let_def)
      next
        case (Inr auth)
        let ?w = "?v\<lparr>world := w1, trace := trace ?v @ [NsQuery q (QISCSITarget cur)]\<rparr>"
        have el: "auth = ''chap'' \<longleftrightarrow> ic_UseChapAuth ctx \<Longrightarrow> eligible L q ctx [(tg, cur)] tg cur"
          using True g \<open>r = Inr ls\<close> room a Inr by (force simp: eligible_def)
        from assms True g \<open>r = Inr ls\<close> room a Inr have run:
          "(if ic_UseChapAuth ctx then
              if auth \<noteq> ''chap'' then target_loop L ctx (Some q) n mtg tgt cs
              else attempt (GetNodeIQN L) (\<lambda>err. ret (tgt, [], Some err)) (\<lambda>nodeIQN.
                attempt (SetChapAuth L nodeIQN (ic_ChapUser ctx) (ic_ChapSecret ctx) (Some q))
                  (\<lambda>err. ret (tgt, [], Some err)) (\<lambda>_.
                target_loop L ctx (Some q) (int (length ls)) tg cur cs))
            else if auth = ''chap'' then target_loop L ctx (Some q) n mtg tgt cs
            else target_loop L ctx (Some q) (int (length ls)) tg cur cs) ?w = (Ret (target, g, None), t)"
          by (simp add: strings_HasPrefix_def ns_GetLunMappings_def ns_GetISCSITarget_def
              run_attempt run_ns_ask Let_def)
        show ?thesis
        proof (cases "auth = ''chap'' \<longleftrightarrow> ic_UseChapAuth ctx")
          case False
          with run show ?thesis by (auto split: if_splits)
        next
          case True
          have "\<exists>u. target_loop L ctx (Some q) (int (length ls)) tg cur cs u = (Ret (target, g, None), t)"
            using run True by (auto simp: attempt_Ret_iff ret_run_iff split: if_splits)
          with el [OF True] show ?thesis by blast
        qed
      qed
    qed
  qed
qed

lemma target_loop_sound:
  "target_loop L ctx (Some q) n mtg tgt cs s = (Ret (target, g, None), t) \<Longrightarrow>
    mtg = [] \<or> eligible L q ctx cands mtg tgt \<Longrightarrow> set cs \<subseteq> set cands \<Longrightarrow>
    g = [] \<or> eligible L q ctx cands g target \<or>
    (\<exists>u. CreateNewTargetTg L ctx (Some q) u = (Ret (target, g, None), t))"
proof (induction cs arbitrary: n mtg tgt s)
  case Nil
  then show ?case by (auto simp: ran split: if_splits)
next
  case (Cons c cs)
  obtain tg cur where c: "c = (tg, cur)" by (cases c)
  from target_loop_round [OF Cons.prems(1) [unfolded c]]
  consider "g = []" | u where "target_loop L ctx (Some q) n mtg tgt cs u = (Ret (target, g, None), t)"
    | k u where "target_loop L ctx (Some q) k tg cur cs u = (Ret (target, g, None), t)"
        "eligible L q ctx [(tg, cur)] tg cur" by blast
  then show ?case
  proof cases
    case 2
    show ?thesis by (rule Cons.IH [OF 2]) (use Cons.prems in auto)
  next
    case 3
    have "eligible L q ctx cands tg cur" using eligible_mono [OF 3(2)] Cons.prems(3) c by auto
    then show ?thesis by (intro Cons.IH [OF 3(1)]) (use Cons.prems in auto)
  qed simp
qed

text \<open>A target group that \<open>ResolveTargetGroup\<close> answers with is fit for use: it is an existing one
  whose listed target has the configured prefix, which had room below the limit, and whose
  authentication is CHAP exactly when CHAP is asked for, or it was created just now. The exception
  is an empty answer without an error, which is what an error of a listing becomes.\<close>

theorem ResolveTargetGroup_sound:
  assumes "ResolveTargetGroup L ctx (Some q) s = (Ret (target, tg, None), t)" and "tg \<noteq> []"
  shows "(\<exists>tgs. (\<exists>w w'. GetTargetGroups L q w = (Inr tgs, w')) \<and>
      eligible L q ctx (target_candidates tgs) tg target) \<or>
    (\<exists>u. CreateNewTargetTg L ctx (Some q) u = (Ret (target, tg, None), t))"
proof -
  from assms obtain tgs u where l: "ns_GetTargetGroups L (Some q) s = (Ret tgs, u)"
    and run: "target_loop L ctx (Some q) 0 [] [] (target_candidates tgs) u = (Ret (target, tg, None), t)"
    by (auto simp: ResolveTargetGroup_def attempt_Ret_iff ret_run_iff)
  from l obtain w w' where "GetTargetGroups L q w = (Inr tgs, w')"
    by (auto simp: ns_GetTargetGroups_def ns_ask_Ret)
  moreover from target_loop_sound [OF run, of "target_candidates tgs"] assms(2)
  have "eligible L q ctx (target_candidates tgs) tg target \<or>
      (\<exists>u. CreateNewTargetTg L ctx (Some q) u = (Ret (target, tg, None), t))" by simp
  ultimately show ?thesis by blast
qed

text \<open>What the appliance answers about the candidates while the choice is made, and the candidates
  that pass the checks of the loop.\<close>

definition answers_targets :: "'w lib \<Rightarrow> provider \<Rightarrow> 'w \<Rightarrow> (string \<Rightarrow> ns_LunMapping list) \<Rightarrow>
    (string \<Rightarrow> string) \<Rightarrow> (string \<times> string) list \<Rightarrow> bool" where
  "answers_targets L q w ls au cs \<longleftrightarrow> (\<forall>(g, x) \<in> set cs.
     g \<noteq> [] \<and> GetLunMappings L q (luns_of_group g) w = (Inr (ls g), w) \<and>
     GetISCSITarget L q x w = (Inr (au x), w))"

definition fit_targets :: "ISCSIVolumeContext \<Rightarrow> (string \<Rightarrow> ns_LunMapping list) \<Rightarrow> (string \<Rightarrow> string) \<Rightarrow>
    (string \<times> string) list \<Rightarrow> (string \<times> string) set" where
  "fit_targets ctx ls au cs = {(g, x) \<in> set cs. prefix (ic_ISCSITargetPrefix ctx) x \<and>
     int (length (ls g)) < ic_NumOfLunsPerTarget ctx \<and> au x \<noteq> ''chap''}"

lemma fit_targets_Cons: "fit_targets ctx ls au ((g, x) # cs) =
    (if prefix (ic_ISCSITargetPrefix ctx) x \<and> int (length (ls g)) < ic_NumOfLunsPerTarget ctx \<and> au x \<noteq> ''chap''
     then insert (g, x) (fit_targets ctx ls au cs) else fit_targets ctx ls au cs)"
  by (auto simp: fit_targets_def)

text \<open>Without CHAP the loop only looks, so it is a fold over the candidates.\<close>

lemma target_loop_step:
  assumes "answers_targets L q (world s) ls au ((g, x) # cs)" and "\<not> ic_UseChapAuth ctx"
  shows "\<exists>u. world u = world s \<and> target_loop L ctx (Some q) n mtg tgt ((g, x) # cs) s =
    (if (g, x) \<in> fit_targets ctx ls au [(g, x)] \<and> (n = 0 \<or> int (length (ls g)) < n)
     then target_loop L ctx (Some q) (int (length (ls g))) g x cs u
     else target_loop L ctx (Some q) n mtg tgt cs u)"
proof (cases "prefix (ic_ISCSITargetPrefix ctx) x")
  case False
  then show ?thesis by (intro exI [of _ s]) (simp add: strings_HasPrefix_def fit_targets_def)
next
  case p: True
  have l: "GetLunMappings L q (luns_of_group g) (world s) = (Inr (ls g), world s)"
    and a: "GetISCSITarget L q x (world s) = (Inr (au x), world s)"
    using assms(1) by (auto simp: answers_targets_def)
  let ?v = "s\<lparr>trace := trace s @ [NsQuery q (QLunMappings (luns_of_group g))]\<rparr>"
  show ?thesis
  proof (cases "(n = 0 \<or> int (length (ls g)) < n) \<and> int (length (ls g)) < ic_NumOfLunsPerTarget ctx")
    case False
    then show ?thesis using p l
      by (intro exI [of _ ?v]) (auto simp: strings_HasPrefix_def ns_GetLunMappings_def fit_targets_def
          run_attempt run_ns_ask Let_def)
  next
    case True
    then show ?thesis using p l a assms(2)
      by (intro exI [of _ "?v\<lparr>trace := trace ?v @ [NsQuery q (QISCSITarget x)]\<rparr>"])
        (auto simp: strings_HasPrefix_def ns_GetLunMappings_def ns_GetISCSITarget_def fit_targets_def
          run_attempt run_ns_ask Let_def)
  qed
qed

definition chosen :: "ISCSIVolumeContext \<Rightarrow> (string \<Rightarrow> ns_LunMapping list) \<Rightarrow> (string \<times> string) set \<Rightarrow>
    'a outcome \<times> 's \<Rightarrow> (string \<Rightarrow> string \<Rightarrow> 'a) \<Rightarrow> bool" where
  "chosen ctx ls C rt ans \<longleftrightarrow> (\<exists>g x. (g, x) \<in> C \<and> fst rt = Ret (ans x g) \<and>
     (\<forall>(g', x') \<in> C. length (ls g) \<le> length (ls g')))"

lemma target_loop_least:
  assumes "\<not> ic_UseChapAuth ctx"
  shows "answers_targets L q (world s) ls au cs \<Longrightarrow>
    \<forall>(g, x) \<in> fit_targets ctx ls au cs. ls g \<noteq> [] \<Longrightarrow>
    (if mtg = [] then n = 0 \<and> fit_targets ctx ls au cs \<noteq> {} else n = int (length (ls mtg)) \<and> 0 < n) \<Longrightarrow>
    chosen ctx ls ((if mtg = [] then {} else {(mtg, tgt)}) \<union> fit_targets ctx ls au cs)
      (target_loop L ctx (Some q) n mtg tgt cs s) (\<lambda>x g. (x, g, None))"
proof (induction cs arbitrary: n mtg tgt s)
  case Nil
  then show ?case by (auto simp: fit_targets_def chosen_def run_simps split: if_splits)
next
  case (Cons c cs)
  obtain g x where c: "c = (g, x)" by (cases c)
  let ?new = "(g, x) \<in> fit_targets ctx ls au [(g, x)] \<and> (n = 0 \<or> int (length (ls g)) < n)"
  obtain u where u: "world u = world s" and
    run: "target_loop L ctx (Some q) n mtg tgt (c # cs) s =
      (if ?new then target_loop L ctx (Some q) (int (length (ls g))) g x cs u
       else target_loop L ctx (Some q) n mtg tgt cs u)"
    using target_loop_step [OF Cons.prems(1) [unfolded c] assms] c by blast
  have ans: "answers_targets L q (world u) ls au cs" and g: "g \<noteq> []"
    using Cons.prems(1) u c by (auto simp: answers_targets_def)
  have fit: "\<forall>(g, x) \<in> fit_targets ctx ls au cs. ls g \<noteq> []"
    using Cons.prems(2) by (auto simp: c fit_targets_Cons split: if_splits)
  show ?case
  proof (cases ?new)
    case True
    then have "ls g \<noteq> []" and m: "fit_targets ctx ls au (c # cs) = insert (g, x) (fit_targets ctx ls au cs)"
      using Cons.prems(2) by (auto simp: c fit_targets_Cons fit_targets_def)
    with Cons.IH [OF ans fit, of g "int (length (ls g))" x] g
    have "chosen ctx ls (insert (g, x) (fit_targets ctx ls au cs))
        (target_loop L ctx (Some q) (int (length (ls g))) g x cs u) (\<lambda>x g. (x, g, None))" by simp
    then show ?thesis using True run m Cons.prems(3) unfolding chosen_def
      by (auto split: if_splits)
  next
    case False
    have "fit_targets ctx ls au (c # cs) = fit_targets ctx ls au cs \<or>
        mtg \<noteq> [] \<and> fit_targets ctx ls au (c # cs) = insert (g, x) (fit_targets ctx ls au cs) \<and>
        length (ls mtg) \<le> length (ls g)"
      using False Cons.prems(3) by (auto simp: c fit_targets_Cons fit_targets_def split: if_splits)
    moreover have "chosen ctx ls ((if mtg = [] then {} else {(mtg, tgt)}) \<union> fit_targets ctx ls au cs)
        (target_loop L ctx (Some q) n mtg tgt cs u) (\<lambda>x g. (x, g, None))"
      by (rule Cons.IH [OF ans fit]) (use Cons.prems(3) calculation in \<open>auto split: if_splits\<close>)
    ultimately show ?thesis using False run unfolding chosen_def
      by (auto split: if_splits)
  qed
qed

text \<open>C5: without CHAP, \<open>ResolveTargetGroup\<close> answers with the usable target whose group has the fewest
  LUNs, provided that no group of a usable target is empty: of all targets with the configured
  prefix, room below the limit and no authentication, none belongs to a smaller group.\<close>

theorem ResolveTargetGroup_least_loaded:
  assumes "GetTargetGroups L q (world s) = (Inr tgs, world s)"
    and "answers_targets L q (world s) ls au (target_candidates tgs)" and "\<not> ic_UseChapAuth ctx"
    and "fit_targets ctx ls au (target_candidates tgs) \<noteq> {}"
    and "\<forall>(g, x) \<in> fit_targets ctx ls au (target_candidates tgs). ls g \<noteq> []"
  shows "\<exists>g x. (g, x) \<in> fit_targets ctx ls au (target_candidates tgs) \<and>
    fst (ResolveTargetGroup L ctx (Some q) s) = Ret (x, g, None) \<and>
    (\<forall>(g', x') \<in> fit_targets ctx ls au (target_candidates tgs). length (ls g) \<le> length (ls g'))"
proof -
  let ?u = "s\<lparr>trace := trace s @ [NsQuery q QTargetGroups]\<rparr>"
  have "ResolveTargetGroup L ctx (Some q) s =
      target_loop L ctx (Some q) 0 [] [] (target_candidates tgs) ?u"
    using assms(1) by (simp add: ResolveTargetGroup_def ns_GetTargetGroups_def run_attempt run_ns_ask)
  moreover have "chosen ctx ls ({} \<union> fit_targets ctx ls au (target_candidates tgs))
      (target_loop L ctx (Some q) 0 [] [] (target_candidates tgs) ?u) (\<lambda>x g. (x, g, None))"
    using target_loop_least [OF assms(3), of L q ?u ls au "target_candidates tgs" "[]" 0 "[]"]
      assms(2,4,5) by simp
  ultimately show ?thesis by (simp add: chosen_def)
qed

text \<open>An appliance with three target groups of one target each; the group names tell how many LUNs
  they hold.\<close>

definition tg_world :: "string list \<Rightarrow> string list \<Rightarrow> sim" where
  "tg_world names luns = sim_empty\<lparr>
     sim_tgs := map (\<lambda>n. \<lparr>tg_Name = n, tg_Members = [''iqn.'' @ n]\<rparr>) names,
     sim_targets := map (\<lambda>n. (''iqn.'' @ n, ''none'')) names,
     sim_luns := map (\<lambda>n. \<lparr>sl_Id = n, sl_Volume = ''p/g/v'', sl_TargetGroup = n, sl_HostGroup = ''h''\<rparr>) luns\<rparr>"

definition tg_process :: "string list \<Rightarrow> string list \<Rightarrow> sim st" where
  "tg_process names luns = (sim_process [] ''good'' 7)\<lparr>world := tg_world names luns\<rparr>"

definition tg_ctx :: ISCSIVolumeContext where
  "tg_ctx = \<lparr>ic_Address = ''10.0.0.1'', ic_Port = ''3260'', ic_ISCSITarget = [], ic_ISCSITargetPrefix = ''iqn'',
     ic_TargetGroup = [], ic_HostGroup = ''h'', ic_ChapUser = [], ic_ChapSecret = [],
     ic_NumOfLunsPerTarget = 256, ic_UseChapAuth = False, ic_ISCSITimeout = 300\<rparr>"

lemmas target_eval = tg_world_def tg_process_def tg_ctx_def target_candidates_def luns_of_group_def

theorem ResolveTargetGroup_least_loaded_witness:
  "fst (ResolveTargetGroup sim_lib tg_ctx (Some 0) (tg_process [''b'', ''a''] [''b'', ''a'', ''b'']))
    = Ret (''iqn.a'', ''a'', None)"
proof -
  let ?s = "tg_process [''b'', ''a''] [''b'', ''a'', ''b'']"
  let ?tgs = "map (\<lambda>n. \<lparr>tg_Name = n, tg_Members = [''iqn.'' @ n]\<rparr>) [''b'', ''a'']"
  let ?ls = "\<lambda>g. if g = ''a'' then [\<lparr>lun_Id = ''a'', lun_Lun = 0\<rparr>] else
     replicate 2 \<lparr>lun_Id = ''b'', lun_Lun = 0\<rparr>"
  have fit: "fit_targets tg_ctx ?ls (\<lambda>_. ''none'') (target_candidates ?tgs) =
      {(''b'', ''iqn.b''), (''a'', ''iqn.a'')}"
    by (auto simp: fit_targets_def target_eval)
  have "GetTargetGroups sim_lib 0 (world ?s) = (Inr ?tgs, world ?s)"
    by (simp add: target_eval sim_defs)
  moreover have "answers_targets sim_lib 0 (world ?s) ?ls (\<lambda>_. ''none'') (target_candidates ?tgs)"
    by (simp add: answers_targets_def target_eval sim_defs numeral_2_eq_2)
  moreover have "\<not> ic_UseChapAuth tg_ctx" by (simp add: tg_ctx_def)
  ultimately have "\<exists>g x. (g, x) \<in> {(''b'', ''iqn.b''), (''a'', ''iqn.a'')} \<and>
      fst (ResolveTargetGroup sim_lib tg_ctx (Some 0) ?s) = Ret (x, g, None) \<and>
      (\<forall>(g', x') \<in> {(''b'', ''iqn.b''), (''a'', ''iqn.a'')}. length (?ls g) \<le> length (?ls g'))"
    using ResolveTargetGroup_least_loaded [of sim_lib 0 ?s ?tgs ?ls "\<lambda>_. ''none''" tg_ctx] unfolding fit
    by simp
  then show ?thesis by auto
qed

text \<open>An empty group defeats the choice. \<open>minLuns\<close> is 0 both before the first choice and after
  the choice of an empty group, so the group after an empty one always replaces it: with an empty
  group first and a group of two LUNs after it, the group with the LUNs is answered.\<close>

theorem ResolveTargetGroup_not_least:
  "fst (ResolveTargetGroup sim_lib tg_ctx (Some 0) (tg_process [''a'', ''b''] [''b'', ''b''])) =
    Ret (''iqn.b'', ''b'', None)"
  by (simp add: ResolveTargetGroup_def ns_GetTargetGroups_def ns_GetLunMappings_def ns_GetISCSITarget_def
      target_eval run_simps sim_defs Let_def strings_HasPrefix_def)

section \<open>The volume context\<close>

lemma parse_host_group_given: "get_str ctx ''HostGroup'' \<noteq> [] \<Longrightarrow>
    parse_host_group L ctx cfg p = ret (get_str ctx ''HostGroup'')"
  by (simp add: parse_host_group_def)

lemma context_get:
  "get_str (volume_context ps cfg vg) ''HostGroup'' = param_or ps ''hostGroup'' (DefaultHostGroup cfg)"
  "get_str (volume_context ps cfg vg) ''Target'' = param_or ps ''target'' (DefaultTarget cfg)"
  "get_str (volume_context ps cfg vg) ''TargetGroup'' = param_or ps ''targetGroup'' (DefaultTargetGroup cfg)"
  "get_str (volume_context ps cfg vg) ''iSCSIPort'' = param_or ps ''iSCSIPort'' (DefaultISCSIPort cfg)"
  "get_str (volume_context ps cfg vg) ''useChapAuth'' = param_or ps ''useChapAuth'' (UseChapAuth cfg)"
  "get_str (volume_context ps cfg vg) ''dataIP'' = []"
  by (simp_all add: volume_context_def get_str_def)

text \<open>C40: what the node makes of the volume context that \<open>CreateVolume\<close> has written. Target, target
  group, host group, port and the number of LUNs are the ones of the controller; the data address
  and the target prefix are not: they are read under another key (\<open>dataIP\<close> for \<open>DataIP\<close>) or not at
  all, so that the parameters of the storage class are lost and the node's own configuration is used.\<close>

theorem ParseVolumeContext_of_created:
  assumes "ParseVolumeContext L (volume_context ps cfg vg) p name s = (Ret ctx, t)"
    and "param_or ps ''hostGroup'' (DefaultHostGroup cfg) \<noteq> []"
  shows "ic_ISCSITarget ctx = param_or ps ''target'' (DefaultTarget cfg) \<and>
    ic_TargetGroup ctx = param_or ps ''targetGroup'' (DefaultTargetGroup cfg) \<and>
    ic_HostGroup ctx = param_or ps ''hostGroup'' (DefaultHostGroup cfg) \<and>
    (param_or ps ''iSCSIPort'' (DefaultISCSIPort cfg) \<noteq> [] \<longrightarrow>
       ic_Port ctx = param_or ps ''iSCSIPort'' (DefaultISCSIPort cfg)) \<and>
    ic_Address ctx = DefaultDataIP (ns_data (conf s) name) \<and>
    ic_ISCSITargetPrefix ctx = (if ISCSITargetPrefix (ns_data (conf s) name) = []
      then DefaultISCSITargetPrefix else ISCSITargetPrefix (ns_data (conf s) name)) \<and> t = s"
proof -
  let ?c = "volume_context ps cfg vg" and ?d = "ns_data (conf s) name"
  have h: "parse_host_group L ?c ?d p = ret (get_str ?c ''HostGroup'')"
    using assms(2) by (intro parse_host_group_given) (simp add: context_get)
  obtain b where b: "b = (case strconv_ParseBool (get_str ?c ''useChapAuth'') of
      Inl _ \<Rightarrow> DefaultUseChapAuth | Inr b \<Rightarrow> b)" by blast
  obtain u k where "parse_chap ?c b = Inr (u, k)"
    using assms(1) unfolding ParseVolumeContext_def
    by (cases "parse_chap ?c b") (auto simp: run_simps h Let_def simp flip: b)
  with assms(1) show ?thesis unfolding ParseVolumeContext_def
    by (auto simp: run_simps h Let_def context_get parse_port_def simp flip: b [unfolded context_get])
qed

theorem ParseVolumeContext_of_created_witness:
  "\<exists>ctx. fst (ParseVolumeContext sim_lib (volume_context [(''dataIP'', ''10.9.9.9''), (''target'', ''iqn.x'')] sim_data ''p/g'')
      (Some 0) ''a'' (sim_process [(''a'', sim_data)] ''good'' 7)) = Ret ctx \<and>
    ic_ISCSITarget ctx = ''iqn.x'' \<and> ic_Address ctx = ''10.0.0.1''"
proof -
  let ?s = "sim_process [(''a'', sim_data)] ''good'' 7"
    and ?ps = "[(''dataIP'', ''10.9.9.9''), (''target'', ''iqn.x'')]"
  obtain ctx t where run: "ParseVolumeContext sim_lib (volume_context ?ps sim_data ''p/g'') (Some 0) ''a'' ?s = (Ret ctx, t)"
    by (simp add: ParseVolumeContext_def parse_host_group_def parse_chap_def context_get run_simps
        sim_defs Let_def ns_data_def param_or_def strconv_ParseBool_def DefaultUseChapAuth_def)
  from ParseVolumeContext_of_created [OF run]
  have "ic_ISCSITarget ctx = ''iqn.x'' \<and> ic_Address ctx = ''10.0.0.1''"
    by (simp add: param_or_def sim_defs ns_data_def)
  with run show ?thesis by auto
qed

section \<open>Names of devices\<close>

lemma parse_digits_zeros: "2 \<le> b \<Longrightarrow> parse_digits b 0 (replicate n (CHR ''0'') @ s) = parse_digits b 0 s"
  by (induction n) (simp_all add: digit_val_def)

lemma pad_zero_inj: "2 \<le> b \<Longrightarrow> b \<le> 36 \<Longrightarrow> pad_zero w (digits b m) = pad_zero w (digits b n) \<longleftrightarrow> m = n"
  unfolding pad_zero_def by (metis option.inject parse_digits_digits parse_digits_zeros)

lemma strconv_Itoa_inj: "strconv_Itoa i = strconv_Itoa j \<longleftrightarrow> i = j"
proof
  have *: "hd (digits 10 n) \<noteq> CHR ''-''" for n
    using digits_set [of 10 n] digit_char_no_sign hd_in_set [OF digits_ne [of 10 n]] by fastforce
  assume "strconv_Itoa i = strconv_Itoa j"
  moreover have "CHR ''-'' # u \<noteq> digits 10 n" for u n using * [of n] by (metis list.sel(1))
  ultimately show "i = j"
    by (auto simp: strconv_Itoa_def digits_inj split: if_splits) (metis)+
qed simp

lemma digit_chars:
  "char_of (49::nat) = CHR ''1''" "char_of (50::nat) = CHR ''2''" "char_of (53::nat) = CHR ''5''"
  "char_of (102::nat) = CHR ''f''"
  by code_simp+

text \<open>The LUN as \<open>udev\<close> writes it in the name of a device.\<close>

definition dev_lun :: "int \<Rightarrow> string" where
  "dev_lun n = (if n > 255 then ''0x'' @ pad_zero 4 (digits 16 (nat n)) @ replicate 12 (CHR ''0'')
     else strconv_Itoa n)"

lemma strings_TrimSuffix_append: "strings_TrimSuffix (a @ b) b = a"
  by (simp add: strings_TrimSuffix_def)

lemma dev_lun_255: "dev_lun 255 = ''255''"
  by (simp add: dev_lun_def strconv_Itoa_def digits.simps [of 10 255] digits.simps [of 10 25]
      digits.simps [of 10 2] digit_char_def digit_chars)

lemma dev_lun_large:
  assumes "digits 16 n = h" and "length h \<le> 4" and "n > 255"
  shows "dev_lun (int n) = ''0x'' @ replicate (4 - length h) (CHR ''0'') @ h @ ''000000000000''"
proof -
  have "replicate 12 (CHR ''0'') = ''000000000000''" by (simp add: numeral_eq_Suc)
  with assms show ?thesis by (simp add: dev_lun_def pad_zero_def)
qed

lemma dev_lun_256: "dev_lun 256 = ''0x0100000000000000''"
proof -
  have zero: "char_of (48::nat) = CHR ''0''" by code_simp
  have "digits 16 256 = ''100''"
    by (simp add: digits.simps [of 16 256] digits.simps [of 16 16] digits.simps [of 16 "Suc 0"] digit_char_def digit_chars zero)
  from dev_lun_large [OF this] show ?thesis by simp
qed

lemma dev_lun_65535: "dev_lun 65535 = ''0xffff000000000000''"
proof -
  have "digits 16 65535 = ''ffff''"
    by (simp add: digits.simps [of 16 65535] digits.simps [of 16 4095] digits.simps [of 16 255]
        digits.simps [of 16 15] digit_char_def digit_chars)
  from dev_lun_large [OF this] show ?thesis by simp
qed

lemma ConstructDevByPath_eq: "ConstructDevByPath portal target n =
    ''/dev/disk/by-path/ip-'' @ portal @ ''-iscsi-'' @ target @ ''-lun-'' @ dev_lun n"
proof -
  have "pad_zero 13 (digits 10 1) = replicate 12 (CHR ''0'') @ ''1''"
    by (simp add: pad_zero_def digits.simps [of 10 "Suc 0"] digit_char_def digit_chars)
  then have "strings_TrimSuffix (''0x'' @ pad_zero 4 (digits 16 (nat n)) @ pad_zero 13 (digits 10 1)) ''1'' =
      ''0x'' @ pad_zero 4 (digits 16 (nat n)) @ replicate 12 (CHR ''0'')"
    using strings_TrimSuffix_append [of "''0x'' @ pad_zero 4 (digits 16 (nat n)) @ replicate 12 (CHR ''0'')" "''1''"]
    by (simp only: append_assoc)
  then show ?thesis by (simp add: ConstructDevByPath_def dev_lun_def Let_def)
qed

lemma dev_lun_inj: "dev_lun m = dev_lun n \<longleftrightarrow> m = n"
proof
  have small: "CHR ''x'' \<notin> set (strconv_Itoa k)" for k
  proof
    assume "CHR ''x'' \<in> set (strconv_Itoa k)"
    then obtain d where "d < 10" "CHR ''x'' = digit_char d"
      using digits_set [of 10 "nat k"] digits_set [of 10 "nat (- k)"]
      by (auto simp: strconv_Itoa_def split: if_splits)
    then have "of_char CHR ''x'' = (48 + d :: nat)" by (simp add: digit_char_def of_char_of)
    with \<open>d < 10\<close> show False by simp
  qed
  assume eq: "dev_lun m = dev_lun n"
  consider "m > 255" "n > 255" | "m > 255" "\<not> n > 255" | "\<not> m > 255" "n > 255" | "\<not> m > 255" "\<not> n > 255"
    by blast
  then show "m = n"
  proof cases
    case 1
    with eq show ?thesis by (simp add: dev_lun_def pad_zero_inj)
  next
    case 2
    with eq have "strconv_Itoa n = ''0x'' @ pad_zero 4 (digits 16 (nat m)) @ replicate 12 (CHR ''0'')"
      by (simp add: dev_lun_def)
    then have "CHR ''x'' \<in> set (strconv_Itoa n)" by simp
    with small show ?thesis by blast
  next
    case 3
    with eq have "strconv_Itoa m = ''0x'' @ pad_zero 4 (digits 16 (nat n)) @ replicate 12 (CHR ''0'')"
      by (simp add: dev_lun_def)
    then have "CHR ''x'' \<in> set (strconv_Itoa m)" by simp
    with small show ?thesis by blast
  next
    case 4
    with eq show ?thesis by (simp add: dev_lun_def strconv_Itoa_inj)
  qed
qed simp

text \<open>C30: for one portal and target, \<open>ConstructDevByPath\<close> gives different LUNs different device names. The
  name ends in the LUN as \<open>udev\<close> writes it: a decimal number up to 255, and above it, in hexadecimal with at least 4
  digits and 12 zeros after them. The names on both sides of the change, and that of the last 16-bit LUN, are spelled out.\<close>

theorem ConstructDevByPath_unique:
  "ConstructDevByPath portal target n = ''/dev/disk/by-path/ip-'' @ portal @ ''-iscsi-'' @ target @ ''-lun-'' @
     (if n > 255 then ''0x'' @ pad_zero 4 (digits 16 (nat n)) @ replicate 12 (CHR ''0'') else strconv_Itoa n) \<and>
   (ConstructDevByPath portal target m = ConstructDevByPath portal target n) = (m = n) \<and>
   ConstructDevByPath portal target 255 = ''/dev/disk/by-path/ip-'' @ portal @ ''-iscsi-'' @ target @ ''-lun-255'' \<and>
   ConstructDevByPath portal target 256 =
     ''/dev/disk/by-path/ip-'' @ portal @ ''-iscsi-'' @ target @ ''-lun-0x0100000000000000'' \<and>
   ConstructDevByPath portal target 65535 =
     ''/dev/disk/by-path/ip-'' @ portal @ ''-iscsi-'' @ target @ ''-lun-0xffff000000000000''"
proof (intro conjI)
  show "ConstructDevByPath portal target n = ''/dev/disk/by-path/ip-'' @ portal @ ''-iscsi-'' @ target @ ''-lun-'' @
     (if n > 255 then ''0x'' @ pad_zero 4 (digits 16 (nat n)) @ replicate 12 (CHR ''0'') else strconv_Itoa n)"
    by (simp add: ConstructDevByPath_eq dev_lun_def)
qed (simp_all add: ConstructDevByPath_eq dev_lun_inj dev_lun_255 dev_lun_256 dev_lun_65535)

section \<open>The device under a path\<close>

text \<open>The device \<open>DeviceFromTargetPath\<close> answers with is the one \<open>findmnt\<close> reports for the path and
  is never the device of the root file system, so what follows (flushing, deleting, growing) cannot hit
  the root device of the node through an unmounted path.\<close>

theorem DeviceFromTargetPath_not_root:
  assumes "DeviceFromTargetPath L path s = (Ret dev, t)"
  shows "\<exists>w out w' root.
    osExec L [''findmnt'', ''-o'', ''source'', ''--noheadings'', ''--target'', path] (world s) = ((out, None), w) \<and>
    dev = strings_TrimSpace out \<and>
    osExec L [''findmnt'', ''-o'', ''source'', ''--noheadings'', ''--target'', ''/''] w = ((root, None), w') \<and>
    dev \<noteq> strings_TrimSpace root"
proof -
  let ?c = "[''findmnt'', ''-o'', ''source'', ''--noheadings'', ''--target'', path]"
    and ?r = "[''findmnt'', ''-o'', ''source'', ''--noheadings'', ''--target'', ''/'']"
  obtain out e w where c: "osExec L ?c (world s) = ((out, e), w)" by (metis prod.exhaust)
  obtain root e' w' where r: "osExec L ?r w = ((root, e'), w')" by (metis prod.exhaust)
  from assms c r have "e = None \<and> e' = None \<and> dev = strings_TrimSpace out \<and> dev \<noteq> strings_TrimSpace root"
    by (cases e; cases e') (auto simp: DeviceFromTargetPath_def os_exec_def run_simps Let_def split: if_splits)
  with c r show ?thesis by blast
qed

text \<open>A node on which \<open>/stage\<close> is the mount point of \<open>/dev/sdb\<close> and the root is \<open>/dev/sda1\<close>.\<close>

definition mounted_process :: "(string list \<times> string) list \<Rightarrow> sim st" where
  "mounted_process out = (sim_process [(''a'', sim_data)] ''good'' 7)\<lparr>world := sim_empty\<lparr>
     sim_files := [(''/c.yaml'', (''good'', 7)), (''/stage'', ([], 1))], sim_mounts := [''/stage''],
     sim_out := [([''findmnt'', ''-o'', ''source'', ''--noheadings'', ''--target'', ''/stage''], ''/dev/sdb ''),
       ([''findmnt'', ''-o'', ''source'', ''--noheadings'', ''--target'', ''/''], ''/dev/sda1 '')] @ out\<rparr>\<rparr>"

lemmas trim_eval = strings_TrimSpace_def is_space_def

theorem DeviceFromTargetPath_not_root_witness:
  "\<exists>t. DeviceFromTargetPath sim_lib ''/stage'' (mounted_process []) = (Ret ''/dev/sdb'', t)"
proof -
  obtain t where run: "DeviceFromTargetPath sim_lib ''/stage'' (mounted_process []) = (Ret ''/dev/sdb'', t)"
    by (simp add: DeviceFromTargetPath_def os_exec_def mounted_process_def run_simps sim_defs Let_def trim_eval)
  from DeviceFromTargetPath_not_root [OF run] run show ?thesis by blast
qed

section \<open>CHAP\<close>

text \<open>A successful \<open>SetChapAuth\<close> has asked for the initiator once and then sent exactly one command
  for it, with the given user and secret: an update when the initiator is known to the appliance, a
  creation when it is not. Any other error of the question is passed on and nothing is sent, and
  without a name or a secret nothing is asked either.\<close>

theorem SetChapAuth_one_command:
  "case SetChapAuth L name u k (Some q) s of
     (Ret _, t) \<Rightarrow> name \<noteq> [] \<and> k \<noteq> [] \<and> trace t = trace s @ [NsQuery q (QRemoteInitiator name),
       NsCmd q (if fst (GetRemoteInitiator L q name (world s)) = None
                then UpdateRemoteInitiatorCmd name u k else CreateRemoteInitiatorCmd name u k)]
   | (Fail e, t) \<Rightarrow> if name = [] \<or> k = [] then trace t = trace s
       else case fst (GetRemoteInitiator L q name (world s)) of
         Some d \<Rightarrow> if IsNotExistNefError L d then length (trace t) = length (trace s) + 2
                   else e = d \<and> trace t = trace s @ [NsQuery q (QRemoteInitiator name)]
       | None \<Rightarrow> length (trace t) = length (trace s) + 2
   | _ \<Rightarrow> False"
  by (auto simp: SetChapAuth_def ns_GetRemoteInitiator_def run_simps
      split: prod.splits outcome.splits option.splits if_splits)

section \<open>Logging in\<close>

text \<open>\<open>ISCSILogInRescan\<close> succeeds only after a successful discovery at the portal and either a
  successful login or, when the node is logged in already, a successful rescan of the session.\<close>

theorem ISCSILogInRescan_logged_in:
  "case ISCSILogInRescan L target portal s of
     (Ret _, t) \<Rightarrow> \<exists>out w out' err w'.
       osExec L [''iscsiadm'', ''-m'', ''discovery'', ''-t'', ''sendtargets'', ''-p'', portal] (world s) = ((out, None), w) \<and>
       osExec L [''iscsiadm'', ''-m'', ''node'', ''-T'', target, ''-p'', portal, ''-l''] w = ((out', err), w') \<and>
       (err = None \<or> strings_Contains out' ''already present'' \<and>
          (\<exists>o' w''. osExec L [''iscsiadm'', ''-m'', ''node'', ''-T'', target, ''-p'', portal, ''--rescan''] w' = ((o', None), w'')))
   | (Fail e, t) \<Rightarrow> True
   | _ \<Rightarrow> False"
proof -
  obtain out e w where d: "osExec L [''iscsiadm'', ''-m'', ''discovery'', ''-t'', ''sendtargets'', ''-p'', portal] (world s) =
    ((out, e), w)" by (metis prod.exhaust)
  obtain out' e' w' where l: "osExec L [''iscsiadm'', ''-m'', ''node'', ''-T'', target, ''-p'', portal, ''-l''] w =
    ((out', e'), w')" by (metis prod.exhaust)
  obtain o' e'' w'' where r: "osExec L [''iscsiadm'', ''-m'', ''node'', ''-T'', target, ''-p'', portal, ''--rescan''] w' =
    ((o', e''), w'')" by (metis prod.exhaust)
  show ?thesis using d l r
    by (cases e; cases e'; cases e''; cases "strings_Contains out' ''already present''")
      (simp_all add: ISCSILogInRescan_def os_exec_def run_simps)
qed

section \<open>The initiator name\<close>

lemma iqn_loop_skip: "\<forall>l \<in> set ls. \<not> strings_HasPrefix l ''InitiatorName='' \<Longrightarrow> iqn_loop n ls = n"
  by (induction ls arbitrary: n) auto

lemma iqn_loop_append: "iqn_loop n (a @ b) = iqn_loop (iqn_loop n a) b"
  by (induction n a rule: iqn_loop.induct) auto

text \<open>Comment lines and other settings of the file are passed over, and the last name counts.\<close>

lemma iqn_loop_last:
  assumes "\<forall>l \<in> set b. \<not> strings_HasPrefix l ''InitiatorName=''"
  shows "iqn_loop n (a @ (''InitiatorName='' @ x) # b) = strings_Split (''InitiatorName='' @ x) ''InitiatorName='' ! 1"
  using iqn_loop_skip [OF assms] by (simp add: iqn_loop_append strings_HasPrefix_def del: strings_Split.simps)

end
