(* ===== verification/ControllerPublish.thy ===== *)
theory ControllerPublish
  imports ControllerVolumes
begin

text \<open>
  The rest of \<open>pkg/driver/controllerServer.go\<close>: \<open>ListVolumes\<close>, \<open>ControllerPublishVolume\<close>,
  \<open>ControllerUnpublishVolume\<close> with its wait for the LUN mappings to go, and the capabilities.
\<close>

record ListVolumesRequest =
  lv_StartingToken :: string
  lv_MaxEntries :: "32 word"

record ListVolumesResponse =
  lo_Entries :: "string list"       \<comment> \<open>volume ids\<close>
  lo_NextToken :: string

record ControllerPublishVolumeRequest =
  pb_VolumeId :: string
  pb_NodeId :: string
  pb_VolumeCapability :: "VolumeCapability option"

record ControllerUnpublishVolumeRequest =
  up_VolumeId :: string
  up_Secrets :: "string gomap"

section \<open>ListVolumes\<close>

text \<open>The loop over the configurations: \<open>nextToken\<close> is the one of the last answer, and the error of
  \<open>GetVolumesWithStartingToken\<close> is assigned to a variable nobody reads.\<close>

fun list_volumes_loop :: "'w lib \<Rightarrow> string \<Rightarrow> int \<Rightarrow> string list \<Rightarrow> string \<Rightarrow> (string \<times> NsData) list \<Rightarrow>
    ('w st, string list \<times> string) M" where
  "list_volumes_loop L startingToken maxEntries acc nextToken [] = ret (acc, nextToken)"
| "list_volumes_loop L startingToken maxEntries acc nextToken ((configName, cfg) # es) =
     bind (resolveNS L (no_params\<lparr>rp_configName := configName\<rparr>)) (\<lambda>r.
     bind (ns_GetVolumesWithStartingToken L (rr_nsProvider r) (rr_volumeGroup r) startingToken maxEntries)
       (\<lambda>(volumes, next, err).
     list_volumes_loop L startingToken maxEntries
       (acc @ map (\<lambda>v. configName @ '':'' @ vol_Path v) volumes) next es))"

text \<open>In the last message \<open>err\<close> is the (nil) error of the refresh, printed with \<open>%s\<close>.\<close>

definition ListVolumes :: "'w lib \<Rightarrow> ListVolumesRequest \<Rightarrow> ('w st, ListVolumesResponse) M" where
  "ListVolumes L req =
     (let startingToken = lv_StartingToken req; maxEntries = sint (lv_MaxEntries req) in
      if maxEntries < 0 then
        throw (StatusErr InvalidArgument (''req.MaxEntries must be 0 or greater, got: '' @ strconv_Itoa maxEntries))
      else
        attempt (ctrl_refreshConfig L [])
          (\<lambda>e. throw (StatusErr Aborted (cannot_use_config L e))) (\<lambda>_.
        bind (gets (\<lambda>s. NsMap (conf s))) (\<lambda>m.
        bind (goRange L m) (\<lambda>es.
        bind (list_volumes_loop L startingToken maxEntries [] [] es) (\<lambda>(entries, nextToken).
        if startingToken \<noteq> [] \<and> length entries = 0 then
          throw (StatusErr Aborted (sprintf0 L (''Failed to find filesystem started from token '' @
            sq startingToken @ '': %!s(<nil>)'')))
        else ret \<lparr>lo_Entries = entries, lo_NextToken = nextToken\<rparr>)))))"

section \<open>ControllerPublishVolume\<close>

definition ControllerPublishVolume :: "'w lib \<Rightarrow> ControllerPublishVolumeRequest \<Rightarrow> ('w st, unit) M" where
  "ControllerPublishVolume L req =
     (if pb_VolumeCapability req = None then
        throw (StatusErr InvalidArgument ''Volume capability not provided'')
      else if length (pb_VolumeId req) = 0 then
        throw (StatusErr InvalidArgument ''Volume ID not provided'')
      else if length (pb_NodeId req) = 0 then
        throw (StatusErr InvalidArgument ''Node ID not provided'')
      else case two (strings_Split (pb_VolumeId req) '':'') of
        None \<Rightarrow> throw (StatusErr NotFound (''VolumeId is in wrong format: '' @ pb_VolumeId req))
      | Some (configName, volumePath) \<Rightarrow>
      bind (gets (\<lambda>s. ns_data (conf s) configName)) (\<lambda>cfg.
      bind (resolveNS L \<lparr>rp_volumeGroup = DefaultVolumeGroup cfg, rp_zone = [],
                         rp_configName = configName\<rparr>) (\<lambda>r.
      attempt (ns_GetVolume L (rr_nsProvider r) volumePath)
        (\<lambda>_. throw (StatusErr NotFound (''Volume '' @ volumePath @ '' not found on NexentaStor'')))
        (\<lambda>_.
          if strings_Contains (pb_NodeId req) ''fake-node'' then
            throw (StatusErr NotFound (''Incorrect node: '' @ pb_NodeId req))
          else ret ()))))"

section \<open>ControllerUnpublishVolume\<close>

text \<open>The wait: ask again after 3, 4, 5, ... seconds as long as mappings are left; \<open>sleepTime\<close> is an
  \<open>int\<close> that stays below 62.\<close>

function wait_luns_gone :: "'w lib \<Rightarrow> provider option \<Rightarrow> string \<Rightarrow> int \<Rightarrow> ns_LunMapping list \<Rightarrow>
    ('w st, unit) M" where
  "wait_luns_gone L nsProvider volumePath sleepTime luns =
     (if luns = [] then ret ()
      else if sleepTime > 60 then
        throw (StatusErr DeadlineExceeded (''Luns did not get deleted in '' @ strconv_Itoa sleepTime @ '' seconds''))
      else
        bind (time_Sleep L (word_of_int (1000000000 * (sleepTime + 1)))) (\<lambda>_.
        bind (ns_GetLunMappings L nsProvider (luns_of_volume volumePath)) (\<lambda>luns'.
        wait_luns_gone L nsProvider volumePath (sleepTime + 1) luns')))"
  by pat_completeness auto
termination by (relation "measure (\<lambda>(_, _, _, n, _). nat (61 - n))") auto

declare wait_luns_gone.simps [simp del]

definition unpublish_on :: "'w lib \<Rightarrow> provider option \<Rightarrow> string \<Rightarrow> ('w st, unit) M" where
  "unpublish_on L nsProvider volumePath =
     bind (ns_GetLunMappings L nsProvider (luns_of_volume volumePath)) (\<lambda>luns.
     bind (destroy_luns L nsProvider luns) (\<lambda>_.
     bind (ns_GetLunMappings L nsProvider (luns_of_volume volumePath)) (\<lambda>luns'.
     wait_luns_gone L nsProvider volumePath 2 luns')))"

definition ControllerUnpublishVolume :: "'w lib \<Rightarrow> ControllerUnpublishVolumeRequest \<Rightarrow> ('w st, unit) M" where
  "ControllerUnpublishVolume L req =
     bind (ctrl_use_config L (up_Secrets req)) (\<lambda>_.
     if length (up_VolumeId req) = 0 then
       throw (StatusErr InvalidArgument ''Volume ID must be provided'')
     else case two (strings_Split (up_VolumeId req) '':'') of
       None \<Rightarrow> ret ()
     | Some (configName, volumePath) \<Rightarrow>
     case three (strings_Split volumePath ''/'') of
       None \<Rightarrow> ret ()
     | Some (p0, p1, _) \<Rightarrow>
     attempt (resolveNS L \<lparr>rp_volumeGroup = strings_Join [p0, p1] ''/'', rp_zone = [],
                           rp_configName = configName\<rparr>)
       (not_found_ok L ())
       (\<lambda>r. unpublish_on L (rr_nsProvider r) volumePath))"

section \<open>Capabilities\<close>

datatype ControllerRPC = LIST_VOLUMES | CREATE_DELETE_VOLUME | CREATE_DELETE_SNAPSHOT | LIST_SNAPSHOTS
  | CLONE_VOLUME | GET_CAPACITY | EXPAND_VOLUME | PUBLISH_UNPUBLISH_VOLUME

datatype ControllerServiceCapability = Controller_Rpc ControllerRPC

definition supportedControllerCapabilities :: "ControllerRPC list" where
  "supportedControllerCapabilities = [LIST_VOLUMES, CREATE_DELETE_VOLUME, CREATE_DELETE_SNAPSHOT,
     LIST_SNAPSHOTS, CLONE_VOLUME, GET_CAPACITY, EXPAND_VOLUME, PUBLISH_UNPUBLISH_VOLUME]"

definition newControllerServiceCapability :: "ControllerRPC \<Rightarrow> ControllerServiceCapability" where
  "newControllerServiceCapability c = Controller_Rpc c"

definition ControllerGetCapabilities :: "('w st, ControllerServiceCapability list) M" where
  "ControllerGetCapabilities = ret (map newControllerServiceCapability supportedControllerCapabilities)"

end
