(* ===== verification/EndingRuns.thy ===== *)
theory EndingRuns
  imports ControllerVolumes
begin

text \<open>
  Operations that come to an end: the fuel of a loop is never used up. The rules follow the way the operations are
  put together, and the calls of the outside come back.
\<close>

section \<open>Operations that end\<close>

text \<open>\<open>returns m\<close>: no run of \<open>m\<close> uses up its fuel.\<close>

definition returns :: "('s, 'a) M \<Rightarrow> bool" where
  "returns m \<longleftrightarrow> (\<forall>s. fst (m s) \<noteq> NoFuel)"

named_theorems returns_rules \<open>operations that end\<close>

lemma returnsD: "returns m \<Longrightarrow> m s \<noteq> (NoFuel, t)"
  unfolding returns_def by (metis fst_conv)

lemma returns_basic [returns_rules]:
  "returns (ret x)" "returns (throw e)" "returns panic" "returns (gets f)" "returns (modify g)"
  "returns (lift_err err)" "returns (lift_sum r)" "returns (ext_call c h)" "returns (goRange L m)"
  by (simp_all add: returns_def run_simps split: option.splits sum.splits prod.splits)

lemma returns_attempt [returns_rules]:
  "returns m \<Longrightarrow> (\<And>e. returns (h e)) \<Longrightarrow> (\<And>x. returns (k x)) \<Longrightarrow> returns (attempt m h k)"
  unfolding returns_def by (auto simp: attempt_def split: prod.splits outcome.splits) (metis fst_conv)+

lemma returns_bind [returns_rules]: "returns m \<Longrightarrow> (\<And>x. returns (k x)) \<Longrightarrow> returns (bind m k)"
  unfolding bind_def by (intro returns_attempt returns_basic)

lemma returns_deref [returns_rules]: "(\<And>x. p = Some x \<Longrightarrow> returns (k x)) \<Longrightarrow> returns (deref p k)"
  by (cases p) (simp_all add: deref_def returns_basic)

lemma returns_if [returns_rules]:
  "(c \<Longrightarrow> returns a) \<Longrightarrow> (\<not> c \<Longrightarrow> returns b) \<Longrightarrow> returns (if c then a else b)"
  by simp

lemma returns_case_option [returns_rules]:
  "returns a \<Longrightarrow> (\<And>x. p = Some x \<Longrightarrow> returns (f x)) \<Longrightarrow>
    returns (case p of None \<Rightarrow> a | Some x \<Rightarrow> f x)"
  by (cases p) simp_all

lemma returns_case_prod [returns_rules]:
  "(\<And>a b. p = (a, b) \<Longrightarrow> returns (f a b)) \<Longrightarrow> returns (case p of (a, b) \<Rightarrow> f a b)"
  by (cases p) simp

lemma returns_case_sum [returns_rules]:
  "(\<And>x. p = Inl x \<Longrightarrow> returns (f x)) \<Longrightarrow> (\<And>x. p = Inr x \<Longrightarrow> returns (g x)) \<Longrightarrow>
    returns (case p of Inl x \<Rightarrow> f x | Inr x \<Rightarrow> g x)"
  by (cases p) simp_all

lemma returns_case_access [returns_rules]:
  "returns a \<Longrightarrow> returns b \<Longrightarrow> (\<And>m. returns (f m)) \<Longrightarrow>
    returns (case x of AccessBlock \<Rightarrow> a | AccessMount m \<Rightarrow> f m | AccessUnset \<Rightarrow> b)"
  by (cases x) simp_all

lemma returns_Let [returns_rules]: "(\<And>y. y = x \<Longrightarrow> returns (f y)) \<Longrightarrow> returns (Let x f)"
  by simp

lemma returns_forM [returns_rules]: "(\<And>x. returns (f x)) \<Longrightarrow> returns (forM xs f)"
  by (induction xs) (simp_all add: returns_basic returns_bind)

lemma returns_foldM [returns_rules]: "(\<And>b x. returns (f b x)) \<Longrightarrow> returns (foldM f b xs)"
  by (induction xs arbitrary: b) (simp_all add: returns_basic returns_bind)

lemma returns_boundary [returns_rules]:
  "returns (ns_do L p c)" "returns (ns_ask p q f)" "returns (ns_GetLunMappings L p ps)"
  "returns (ns_GetTargetGroups L p)" "returns (ns_GetISCSITarget L p path)"
  "returns (ns_GetRemoteInitiator L p path)" "returns (ns_GetHostGroups L p)"
  "returns (ns_NewResolver L a)" "returns (ns_ResolveFromVg L r vg)" "returns (os_do L oc)"
  "returns (os_exec L argv)" "returns (os_Stat L path)" "returns (os_ReadFile L path)"
  "returns (os_EvalSymlinks L path)" "returns (mounter_IsLikelyNotMountPoint L path)"
  "returns (uuid_New L)" "returns (time_Sleep L m)" "returns (backoff_retries L)"
  unfolding boundary_defs by (intro returns_rules)+

lemma returns_query [returns_rules]:
  "returns (ns_GetVolume L p path)" "returns (ns_GetVolumeGroup L p path)" "returns (ns_GetSnapshot L p path)"
  "returns (ns_GetSnapshots L p path rec)" "returns (ns_GetVolumesWithStartingToken L p path tok n)"
  "returns (ns_GetFilesystemAvailableCapacity L p path)"
  unfolding boundary_defs by (intro returns_rules)+

end
