(* ===== verification/ControllerPublishProps.thy ===== *)
theory ControllerPublishProps
  imports ControllerPublish ControllerVolumeProps EndingRuns
begin

text \<open>
  Properties of \<open>ControllerPublish\<close>: the wait of \<open>ControllerUnpublishVolume\<close> for the LUN mappings,
  round by round, and what it ends in; and what \<open>ListVolumes\<close> answers.
\<close>

section \<open>Waiting\<close>

text \<open>The durations slept in a list of calls, in nanoseconds.\<close>

fun sleeps :: "call list \<Rightarrow> int list" where
  "sleeps [] = []"
| "sleeps (SleepCall d # cs) = sint d # sleeps cs"
| "sleeps (_ # cs) = sleeps cs"

lemma sleeps_append [simp]: "sleeps (a @ b) = sleeps a @ sleeps b"
  by (induction a rule: sleeps.induct) auto

lemma sint_seconds: "0 \<le> n \<Longrightarrow> n \<le> 100 \<Longrightarrow> sint (word_of_int (1000000000 * n) :: duration) = 1000000000 * n"
  by (subst sint_sbintrunc', subst signed_take_bit_int_eq_self) auto

text \<open>The seconds waited from a sleep time of \<open>n\<close> on, \<open>k\<close> times.\<close>

definition unpublish_waits :: "int \<Rightarrow> nat \<Rightarrow> int list" where
  "unpublish_waits n k = map (\<lambda>i. 1000000000 * (n + 1 + int i)) [0..<k]"

lemma unpublish_waits_Suc:
  "unpublish_waits n (Suc k) = (1000000000 * (n + 1)) # unpublish_waits (n + 1) k"
  by (simp add: unpublish_waits_def upt_conv_Cons map_Suc_upt [symmetric] o_def algebra_simps del: upt_Suc)

text \<open>One round of the loop.\<close>

text \<open>The last step was to ask the appliance for the LUN mappings of the volume, with this answer.\<close>

definition answered :: "'w lib \<Rightarrow> provider option \<Rightarrow> string \<Rightarrow> ns_LunMapping list \<Rightarrow> 'w st \<Rightarrow> bool" where
  "answered L p path luns t \<longleftrightarrow>
     (\<exists>s. ns_GetLunMappings L p (luns_of_volume path) s = (Ret luns, t))"

lemma ns_GetLunMappings_answered:
  "ns_GetLunMappings L p (luns_of_volume path) s = (Ret luns, t) \<Longrightarrow> answered L p path luns t"
  by (auto simp: answered_def)

lemma wait_luns_gone_round:
  assumes "wait_luns_gone L p path n luns s = (res, t)" and "luns \<noteq> []" and "0 \<le> n" and "n \<le> 60"
  obtains (stop) cs where "trace t = trace s @ cs" and "sleeps cs = [1000000000 * (n + 1)]" and "res \<noteq> Ret ()"
  | (again) luns' v cs where "wait_luns_gone L p path (n + 1) luns' v = (res, t)"
      and "trace v = trace s @ cs" and "sleeps cs = [1000000000 * (n + 1)]"
      and "answered L p path luns' v"
proof -
  define d :: duration where "d = word_of_int (1000000000 * (n + 1))"
  define u where "u = s\<lparr>world := snd (sleepFor L d (world s)), trace := trace s @ [SleepCall d]\<rparr>"
  have run: "bind (ns_GetLunMappings L p (luns_of_volume path)) (wait_luns_gone L p path (n + 1)) u = (res, t)"
    using assms
    by (subst (asm) wait_luns_gone.simps) (simp add: time_Sleep_def run_bind run_ext_call d_def u_def)
  have d: "sleeps [SleepCall d] = [1000000000 * (n + 1)]" "trace u = trace s @ [SleepCall d]"
    using sint_seconds [of "n + 1"] assms(3,4) by (simp_all add: d_def u_def)
  show thesis
  proof (cases p)
    case None
    with run have "t = u" "res \<noteq> Ret ()" by (auto simp: ns_GetLunMappings_def run_simps)
    with d stop show thesis by blast
  next
    case (Some q)
    obtain r w where g: "GetLunMappings L q (luns_of_volume path) (world u) = (r, w)" by fastforce
    let ?v = "u\<lparr>world := w, trace := trace u @ [NsQuery q (QLunMappings (luns_of_volume path))]\<rparr>"
    have tr: "trace ?v = trace s @ [SleepCall d, NsQuery q (QLunMappings (luns_of_volume path))]"
      "sleeps [SleepCall d, NsQuery q (QLunMappings (luns_of_volume path))] = [1000000000 * (n + 1)]"
      using d by simp_all
    show thesis
    proof (cases r)
      case (Inl e)
      with run Some g have "t = ?v" "res \<noteq> Ret ()" by (auto simp: ns_GetLunMappings_def run_simps)
      with tr stop show thesis by blast
    next
      case (Inr luns')
      with run Some g have "wait_luns_gone L p path (n + 1) luns' ?v = (res, t)"
        by (simp add: ns_GetLunMappings_def run_simps)
      moreover have "answered L p path luns' ?v"
        using g Inr Some by (auto simp: answered_def ns_GetLunMappings_def ns_ask_Ret)
      ultimately show thesis using tr again by blast
    qed
  qed
qed

lemma wait_luns_gone_done:
  assumes "wait_luns_gone L p path n luns s = (res, t)" and "luns = [] \<or> 60 < n"
  shows "t = s \<and> (res = Ret () \<longrightarrow> luns = [])"
  using assms by (subst (asm) wait_luns_gone.simps) (auto simp: ran split: if_splits)

lemma wait_luns_gone_sleeps:
  "wait_luns_gone L p path n luns s = (res, t) \<Longrightarrow> 0 \<le> n \<Longrightarrow> n \<le> 61 \<Longrightarrow>
    \<exists>cs k. trace t = trace s @ cs \<and> k \<le> nat (61 - n) \<and> sleeps cs = unpublish_waits n k"
proof (induction "nat (61 - n)" arbitrary: n luns s)
  case 0
  then have "t = s" using wait_luns_gone_done by fastforce
  then show ?case by (intro exI [of _ "[]"] exI [of _ 0]) (simp add: unpublish_waits_def)
next
  case (Suc m)
  show ?case
  proof (cases "luns = []")
    case True
    then have "t = s" using wait_luns_gone_done Suc.prems(1) by blast
    then show ?thesis by (intro exI [of _ "[]"] exI [of _ 0]) (simp add: unpublish_waits_def)
  next
    case False
    have n60: "n \<le> 60" using Suc.hyps(2) by linarith
    show ?thesis
    proof (rule wait_luns_gone_round [OF Suc.prems(1) False Suc.prems(2) n60], goal_cases)
      case stop: (1 cs)
      then show ?thesis using n60
        by (intro exI [of _ cs] exI [of _ 1]) (simp add: unpublish_waits_def)
    next
      case again: (2 luns' v cs)
      obtain cs' k where "trace t = trace v @ cs'" "k \<le> nat (61 - (n + 1))" "sleeps cs' = unpublish_waits (n + 1) k"
        using Suc.hyps(1) [OF _ again(1)] Suc.hyps(2) Suc.prems(2) n60 by fastforce
      then show ?thesis using again n60
        by (intro exI [of _ "cs @ cs'"] exI [of _ "Suc k"]) (auto simp: unpublish_waits_Suc)
    qed
  qed
qed

lemma wait_luns_gone_Ret:
  "wait_luns_gone L p path n luns s = (Ret (), t) \<Longrightarrow> 0 \<le> n \<Longrightarrow> n \<le> 61 \<Longrightarrow>
    answered L p path luns s \<Longrightarrow> answered L p path [] t"
proof (induction "nat (61 - n)" arbitrary: n luns s)
  case 0
  then have "t = s \<and> luns = []" using wait_luns_gone_done [of L p path n luns s "Ret ()" t] by fastforce
  with 0 show ?case by simp
next
  case (Suc m)
  show ?case
  proof (cases "luns = []")
    case True
    then show ?thesis using wait_luns_gone_done [OF Suc.prems(1)] Suc.prems(4) by simp
  next
    case False
    have n60: "n \<le> 60" using Suc.hyps(2) by linarith
    show ?thesis
    proof (rule wait_luns_gone_round [OF Suc.prems(1) False Suc.prems(2) n60], goal_cases)
      case again: (2 luns' v cs)
      then show ?thesis using Suc.hyps(1) [OF _ again(1)] Suc.hyps(2) Suc.prems(2) n60 by fastforce
    qed simp
  qed
qed

text \<open>When the mappings never go, the loop waits to the end and gives up.\<close>

definition luns_stay :: "'w lib \<Rightarrow> provider \<Rightarrow> string \<Rightarrow> bool" where
  "luns_stay L q path \<longleftrightarrow> (\<forall>w. \<exists>l ls w'. GetLunMappings L q (luns_of_volume path) w = (Inr (l # ls), w'))"

lemma wait_luns_gone_deadline:
  "luns_stay L q path \<Longrightarrow> luns \<noteq> [] \<Longrightarrow> 0 \<le> n \<Longrightarrow> n \<le> 61 \<Longrightarrow>
    \<exists>m t cs. wait_luns_gone L (Some q) path n luns s = (Fail (StatusErr DeadlineExceeded m), t) \<and>
      trace t = trace s @ cs \<and> sleeps cs = unpublish_waits n (nat (61 - n))"
proof (induction "nat (61 - n)" arbitrary: n luns s)
  case 0
  then show ?case by (subst wait_luns_gone.simps) (auto simp: run_simps unpublish_waits_def)
next
  case (Suc m)
  have n: "n \<le> 60" using Suc.hyps(2) by linarith
  define d :: duration where "d = word_of_int (1000000000 * (n + 1))"
  define u where "u = s\<lparr>world := snd (sleepFor L d (world s)), trace := trace s @ [SleepCall d]\<rparr>"
  obtain l ls w' where g: "GetLunMappings L q (luns_of_volume path) (world u) = (Inr (l # ls), w')"
    using Suc.prems(1) unfolding luns_stay_def by blast
  define v where "v = u\<lparr>world := w', trace := trace u @ [NsQuery q (QLunMappings (luns_of_volume path))]\<rparr>"
  have eq: "wait_luns_gone L (Some q) path n luns s = wait_luns_gone L (Some q) path (n + 1) (l # ls) v"
    using Suc.prems n g by (subst wait_luns_gone.simps)
      (simp add: time_Sleep_def ns_GetLunMappings_def run_bind run_ext_call run_ns_ask d_def u_def v_def)
  have "sint d = 1000000000 * (n + 1)" using sint_seconds [of "n + 1"] Suc.prems n by (simp add: d_def)
  then have tr: "\<exists>cs. trace v = trace s @ cs \<and> sleeps cs = [1000000000 * (n + 1)]"
    by (intro exI [of _ "[SleepCall d, NsQuery q (QLunMappings (luns_of_volume path))]"]) (simp add: u_def v_def)
  obtain m' t cs where "wait_luns_gone L (Some q) path (n + 1) (l # ls) v = (Fail (StatusErr DeadlineExceeded m'), t)"
    "trace t = trace v @ cs" "sleeps cs = unpublish_waits (n + 1) (nat (61 - (n + 1)))"
    using Suc.hyps(1) [of "n + 1" "l # ls" v] Suc.hyps(2) Suc.prems n by fastforce
  moreover have "nat (61 - n) = Suc (nat (61 - (n + 1)))" using n by linarith
  moreover obtain cs' where "trace v = trace s @ cs'" "sleeps cs' = [1000000000 * (n + 1)]" using tr by blast
  ultimately show ?case using eq
    by (intro exI [of _ m'] exI [of _ t] exI [of _ "cs' @ cs"]) (auto simp: unpublish_waits_Suc)
qed

fun no_sleep :: "call \<Rightarrow> bool" where
  "no_sleep (SleepCall _) = False"
| "no_sleep _ = True"

lemma sleeps_none: "\<forall>c \<in> set cs. no_sleep c \<Longrightarrow> sleeps cs = []"
  by (induction cs rule: sleeps.induct) auto

lemma no_sleep_new:
  assumes "keeps (emits no_sleep) m" and "m s = (r, t)"
  obtains cs where "trace t = trace s @ cs" and "sleeps cs = []"
  using emits_new_calls [OF assms refl] sleeps_none by metis

lemma config_call_no_sleep: "is_config_call c \<Longrightarrow> no_sleep c"
  by (cases c) auto

lemma destroy_luns_no_sleep: "keeps (emits no_sleep) (destroy_luns L p ls)"
  unfolding destroy_luns_def by (intro emits_rules) auto

lemma unpublish_on_split:
  assumes "unpublish_on L p path s = (res, t)"
  obtains (early) cs where "trace t = trace s @ cs" and "sleeps cs = []" and "res \<noteq> Ret ()"
  | (wait) luns v cs where "wait_luns_gone L p path 2 luns v = (res, t)" and "trace v = trace s @ cs"
      and "sleeps cs = []" and "answered L p path luns v"
proof -
  let ?pre = "bind (ns_GetLunMappings L p (luns_of_volume path)) (\<lambda>luns.
     bind (destroy_luns L p luns) (\<lambda>_. ns_GetLunMappings L p (luns_of_volume path)))"
  have run: "bind ?pre (wait_luns_gone L p path 2) s = (res, t)"
    using assms by (simp add: unpublish_on_def bind_assoc)
  have "keeps (emits no_sleep) ?pre" by (intro emits_rules destroy_luns_no_sleep) auto
  obtain r v where pre: "?pre s = (r, v)" by fastforce
  obtain cs where cs: "trace v = trace s @ cs" "sleeps cs = []"
    by (rule no_sleep_new [OF \<open>keeps (emits no_sleep) ?pre\<close> pre])
  show thesis
  proof (cases r)
    case (Ret luns)
    with pre obtain u where "ns_GetLunMappings L p (luns_of_volume path) u = (Ret luns, v)"
      by (auto simp: bind_Ret_iff)
    then have "answered L p path luns v" by (rule ns_GetLunMappings_answered)
    moreover have "wait_luns_gone L p path 2 luns v = (res, t)"
      using run pre Ret by (simp add: run_bind [of ?pre])
    ultimately show thesis using wait cs by blast
  qed (use run pre cs early in \<open>auto simp: run_bind [of ?pre]\<close>)
qed

lemma unpublish_on_sleeps:
  assumes "unpublish_on L p path s = (res, t)"
  shows "\<exists>cs k. trace t = trace s @ cs \<and> k \<le> 59 \<and> sleeps cs = unpublish_waits 2 k"
proof (rule unpublish_on_split [OF assms], goal_cases)
  case (1 cs)
  then show ?case by (intro exI [of _ cs] exI [of _ 0]) (simp add: unpublish_waits_def)
next
  case (2 luns v cs)
  obtain cs' k where "trace t = trace v @ cs'" "k \<le> nat (61 - 2)" "sleeps cs' = unpublish_waits 2 k"
    using wait_luns_gone_sleeps [OF 2(1)] by auto
  then show ?case using 2 by (intro exI [of _ "cs @ cs'"] exI [of _ k]) simp
qed

lemma destroy_luns_returns [returns_rules]: "returns (destroy_luns L p ls)"
  unfolding destroy_luns_def by (intro returns_rules)

lemma wait_luns_gone_returns [returns_rules]: "returns (wait_luns_gone L p path n luns)"
proof (induction "nat (61 - n)" arbitrary: n luns rule: less_induct)
  case less
  show ?case
  proof (subst wait_luns_gone.simps, intro returns_rules)
    fix luns' assume "\<not> n > 60"
    then show "returns (wait_luns_gone L p path (n + 1) luns')" by (intro less) simp
  qed
qed

lemma unpublish_on_returns [returns_rules]: "returns (unpublish_on L p path)"
  unfolding unpublish_on_def by (intro returns_rules)

lemma ControllerUnpublishVolume_well_formed:
  assumes "strings_Split (up_VolumeId req) '':'' = [cn, path]" and "strings_Split path ''/'' = [a, b, n]"
  shows "ControllerUnpublishVolume L req = bind (ctrl_use_config L (up_Secrets req)) (\<lambda>_.
    attempt (resolveNS L \<lparr>rp_volumeGroup = a @ ''/'' @ b, rp_zone = [], rp_configName = cn\<rparr>)
      (not_found_ok L ()) (\<lambda>r. unpublish_on L (rr_nsProvider r) path))"
proof -
  have "up_VolumeId req \<noteq> []" using assms(1) by auto
  with assms show ?thesis by (simp add: ControllerUnpublishVolume_def)
qed

text \<open>C19: A well-formed unpublish request that succeeds has resolved the appliance of the id, and the last
  thing that happened is that this appliance answered that no LUN mapping of the volume is left; unless the
  group could not be resolved and the error was classified as "not found".\<close>

theorem ControllerUnpublishVolume_unmaps:
  assumes "strings_Split (up_VolumeId req) '':'' = [cn, path]" and "strings_Split path ''/'' = [a, b, n]"
    and "ControllerUnpublishVolume L req s = (Ret (), t)"
  shows "\<exists>u res v. ctrl_use_config L (up_Secrets req) s = (Ret (), u) \<and>
    resolveNS L \<lparr>rp_volumeGroup = a @ ''/'' @ b, rp_zone = [], rp_configName = cn\<rparr> u = (res, v) \<and>
    (case res of
       Ret r \<Rightarrow> answered L (rr_nsProvider r) path [] t
     | Fail e \<Rightarrow> statusCode L e = NotFound \<and> t = v
     | _ \<Rightarrow> False)"
proof -
  let ?ps = "\<lparr>rp_volumeGroup = a @ ''/'' @ b, rp_zone = [], rp_configName = cn\<rparr>"
  from assms(3) obtain u where c: "ctrl_use_config L (up_Secrets req) s = (Ret (), u)"
    and d: "attempt (resolveNS L ?ps) (not_found_ok L ()) (\<lambda>r. unpublish_on L (rr_nsProvider r) path) u = (Ret (), t)"
    by (auto simp: ControllerUnpublishVolume_well_formed [OF assms(1,2)] bind_Ret_iff)
  obtain res v where r: "resolveNS L ?ps u = (res, v)" by fastforce
  have "case res of Ret r \<Rightarrow> answered L (rr_nsProvider r) path [] t | Fail e \<Rightarrow> statusCode L e = NotFound \<and> t = v
     | _ \<Rightarrow> False"
  proof (cases res)
    case (Ret q)
    with r d have "unpublish_on L (rr_nsProvider q) path v = (Ret (), t)" by (simp add: run_simps)
    then have "answered L (rr_nsProvider q) path [] t"
    proof (rule unpublish_on_split, goal_cases)
      case (2 luns v cs)
      then show ?case using wait_luns_gone_Ret [OF 2(1) _ _ 2(4)] by simp
    qed simp
    with Ret show ?thesis by simp
  qed (use r d in \<open>auto simp: run_simps not_found_ok_def split: if_splits\<close>)
  with c r show ?thesis by blast
qed

definition unpub_req :: ControllerUnpublishVolumeRequest where
  "unpub_req = \<lparr>up_VolumeId = ''a:p/g/v'', up_Secrets = []\<rparr>"

lemmas unpublish_eval = ControllerUnpublishVolume_def unpublish_on_def destroy_luns_def wait_luns_gone.simps
  create_eval config_eval sim_defs resolve_named_def ctrl_resolver_def mapped_world_def
  ns_GetLunMappings_def luns_of_volume_def unpub_req_def

theorem ControllerUnpublishVolume_unmaps_witness:
  "\<exists>t (r :: ResolveNSResponse). ControllerUnpublishVolume sim_lib unpub_req
      ((sim_process [(''a'', sim_data)] ''good'' 7)\<lparr>world := mapped_world\<rparr>) = (Ret (), t) \<and>
    answered sim_lib (rr_nsProvider r) ''p/g/v'' [] t"
proof -
  let ?s = "(sim_process [(''a'', sim_data)] ''good'' 7)\<lparr>world := mapped_world\<rparr>"
  obtain t u r v where run: "ControllerUnpublishVolume sim_lib unpub_req ?s = (Ret (), t)"
    and c: "ctrl_use_config sim_lib (up_Secrets unpub_req) ?s = (Ret (), u)"
    and r: "resolveNS sim_lib \<lparr>rp_volumeGroup = ''p/g'', rp_zone = [], rp_configName = ''a''\<rparr> u = (Ret r, v)"
    by (simp add: unpublish_eval)
  have "strings_Split (up_VolumeId unpub_req) '':'' = [''a'', ''p/g/v'']"
    "strings_Split ''p/g/v'' ''/'' = [''p'', ''g'', ''v'']" by (simp_all add: unpub_req_def)
  from ControllerUnpublishVolume_unmaps [OF this run] c r have "answered sim_lib (rr_nsProvider r) ''p/g/v'' [] t"
    by auto
  with run show ?thesis by blast
qed

lemma unpublish_total: "sum_list (unpublish_waits 2 59) = 1888 * 1000000000"
  by (simp add: unpublish_waits_def upt_conv_Cons)

text \<open>When the mappings never go, the wait goes on to the end.\<close>

lemma unpublish_on_deadline:
  assumes "luns_stay L q path" and "\<And>i w. fst (nsCommand L q (DestroyLunMappingCmd i) w) = None"
  shows "\<exists>m t cs. unpublish_on L (Some q) path s = (Fail (StatusErr DeadlineExceeded m), t) \<and>
    trace t = trace s @ cs \<and> sleeps cs = unpublish_waits 2 59"
proof -
  obtain l ls w where g: "GetLunMappings L q (luns_of_volume path) (world s) = (Inr (l # ls), w)"
    using assms(1) unfolding luns_stay_def by blast
  let ?s = "s\<lparr>world := w, trace := trace s @ [NsQuery q (QLunMappings (luns_of_volume path))]\<rparr>"
  have d: "\<exists>u. destroy_luns L (Some q) ls' s' = (Ret (), u)" for ls' and s'
  proof (induction ls' arbitrary: s')
    case Nil
    show ?case by (simp add: destroy_luns_def run_simps)
  next
    case (Cons x xs)
    obtain w' where "nsCommand L q (DestroyLunMappingCmd (lun_Id x)) (world s') = (None, w')"
      using assms(2) by (metis prod.collapse)
    with Cons show ?case by (simp add: destroy_luns_def run_simps)
  qed
  obtain u where u: "destroy_luns L (Some q) (l # ls) ?s = (Ret (), u)" using d by blast
  obtain cs where cs: "trace u = trace ?s @ cs" "sleeps cs = []"
    by (rule no_sleep_new [OF destroy_luns_no_sleep u])
  obtain l' ls' w' where g': "GetLunMappings L q (luns_of_volume path) (world u) = (Inr (l' # ls'), w')"
    using assms(1) unfolding luns_stay_def by blast
  let ?u = "u\<lparr>world := w', trace := trace u @ [NsQuery q (QLunMappings (luns_of_volume path))]\<rparr>"
  have eq: "unpublish_on L (Some q) path s = wait_luns_gone L (Some q) path 2 (l' # ls') ?u"
    using g u g' by (simp add: unpublish_on_def ns_GetLunMappings_def run_bind run_ns_ask)
  obtain m t cs' where run: "wait_luns_gone L (Some q) path 2 (l' # ls') ?u = (Fail (StatusErr DeadlineExceeded m), t)"
    and tr: "trace t = trace ?u @ cs'" "sleeps cs' = unpublish_waits 2 (nat (61 - 2))"
    using wait_luns_gone_deadline [OF assms(1), of "l' # ls'" 2 ?u] by auto
  have "sleeps cs' = unpublish_waits 2 59" using tr(2) by simp
  then show ?thesis using eq run tr(1) cs
    by (intro exI [of _ m] exI [of _ t]
        exI [of _ "[NsQuery q (QLunMappings (luns_of_volume path))] @ cs @
          [NsQuery q (QLunMappings (luns_of_volume path))] @ cs'"]) auto
qed

text \<open>C20: Unpublishing always ends, after at most 59 pauses of 3, 4, 5, ... seconds, whatever the appliance
  answers. When the mappings never go although they can be destroyed without an error, it gives up with
  \<open>DeadlineExceeded\<close> after all 59 pauses, which are 1888 seconds, although its limit is a timeout of 60 and its
  message says 61 seconds.\<close>

theorem unpublish_on_bounded:
  "\<exists>res t cs k. unpublish_on L p path s = (res, t) \<and> res \<noteq> NoFuel \<and> trace t = trace s @ cs \<and> k \<le> 59 \<and>
    sleeps cs = map (\<lambda>i. (3 + int i) * 1000000000) [0..<k] \<and>
    ((\<exists>q. p = Some q \<and> luns_stay L q path \<and> (\<forall>i w. fst (nsCommand L q (DestroyLunMappingCmd i) w) = None)) \<longrightarrow>
      (\<exists>m. res = Fail (StatusErr DeadlineExceeded m)) \<and> k = 59 \<and> sum_list (sleeps cs) = 1888 * 1000000000)"
proof -
  obtain res t where run: "unpublish_on L p path s = (res, t)" by fastforce
  have ends: "res \<noteq> NoFuel" using returnsD [OF unpublish_on_returns] run by blast
  have waits: "unpublish_waits 2 k = map (\<lambda>i. (3 + int i) * 1000000000) [0..<k]" for k
    by (simp add: unpublish_waits_def algebra_simps)
  show ?thesis
  proof (cases "\<exists>q. p = Some q \<and> luns_stay L q path \<and> (\<forall>i w. fst (nsCommand L q (DestroyLunMappingCmd i) w) = None)")
    case True
    then obtain m u cs where "unpublish_on L p path s = (Fail (StatusErr DeadlineExceeded m), u)"
      "trace u = trace s @ cs" "sleeps cs = unpublish_waits 2 59" using unpublish_on_deadline by blast
    then show ?thesis using unpublish_total
      by (intro exI [of _ "Fail (StatusErr DeadlineExceeded m)"] exI [of _ u] exI [of _ cs] exI [of _ 59])
        (simp add: waits)
  next
    case False
    obtain cs k where "trace t = trace s @ cs" "k \<le> 59" "sleeps cs = unpublish_waits 2 k"
      using unpublish_on_sleeps [OF run] by blast
    with False run ends waits show ?thesis by auto
  qed
qed

theorem unpublish_on_bounded_witness:
  "\<exists>m t cs. unpublish_on (sim_lib\<lparr>GetLunMappings := \<lambda>p ps w. (Inr [\<lparr>lun_Id = ''1'', lun_Lun = 1\<rparr>], w)\<rparr>) (Some 0)
      ''p/g/v'' (sim_process [] [] 0) = (Fail (StatusErr DeadlineExceeded m), t) \<and>
    trace t = trace (sim_process [] [] 0) @ cs \<and> length (sleeps cs) = 59 \<and>
    sum_list (sleeps cs) = 1888 * 1000000000"
proof -
  let ?L = "sim_lib\<lparr>GetLunMappings := \<lambda>p ps w. (Inr [\<lparr>lun_Id = ''1'', lun_Lun = 1\<rparr>], w)\<rparr>"
  have "\<exists>q. Some 0 = Some q \<and> luns_stay ?L q ''p/g/v'' \<and> (\<forall>i w. fst (nsCommand ?L q (DestroyLunMappingCmd i) w) = None)"
    by (auto simp: luns_stay_def sim_lib_def)
  with unpublish_on_bounded [of ?L "Some 0" "''p/g/v''" "sim_process [] [] 0"] show ?thesis by fastforce
qed

section \<open>Listing volumes\<close>

text \<open>An appliance of the configuration was asked for its volumes and gave this answer (the error is dropped by the
  code): the resolver of the appliance provided the provider for its default group.\<close>

definition listed :: "'w lib \<Rightarrow> 'w st \<Rightarrow> string \<Rightarrow> int \<Rightarrow> string \<Rightarrow> ns_Volume list \<times> string \<Rightarrow> bool" where
  "listed L s tok n name a \<longleftrightarrow> (\<exists>r p w err. rr_configName r = name \<and>
     rr_volumeGroup r = DefaultVolumeGroup (ns_data (conf s) name) \<and> rr_nsProvider r = Some p \<and>
     provided L (ctrl_resolver L s name) r \<and>
     fst (GetVolumesWithStartingToken L p (rr_volumeGroup r) tok n w) = (fst a, snd a, err))"

definition volume_ids :: "string \<times> NsData \<Rightarrow> ns_Volume list \<times> string \<Rightarrow> string list" where
  "volume_ids = (\<lambda>(name, cfg) (vs, tok). map (\<lambda>v. name @ '':'' @ vol_Path v) vs)"

lemma listed_cong: "conf s = conf s' \<Longrightarrow> ctrlResolvers s = ctrlResolvers s' \<Longrightarrow> listed L s = listed L s'"
  by (intro HOL.ext) (simp add: listed_def ctrl_resolver_def)

lemma list_volumes_loop_Ret:
  "list_volumes_loop L tok n acc nxt es s = (Ret (ids, nxt'), t) \<Longrightarrow> [] \<notin> fst ` set es \<Longrightarrow>
    \<exists>as. list_all2 (\<lambda>e. listed L s tok n (fst e)) es as \<and> ids = acc @ concat (map2 volume_ids es as) \<and>
      nxt' = (if as = [] then nxt else snd (last as)) \<and> conf t = conf s"
proof (induction es arbitrary: acc nxt s)
  case Nil
  then show ?case by (simp add: ran)
next
  case (Cons e es)
  obtain name cfg where e: "e = (name, cfg)" by (cases e)
  from Cons.prems(1) obtain r u vs nx err v where
    r: "resolveNS L (no_params\<lparr>rp_configName := name\<rparr>) s = (Ret r, u)"
    and q: "ns_GetVolumesWithStartingToken L (rr_nsProvider r) (rr_volumeGroup r) tok n u = (Ret (vs, nx, err), v)"
    and rest: "list_volumes_loop L tok n (acc @ map (\<lambda>v. name @ '':'' @ vol_Path v) vs) nx es v = (Ret (ids, nxt'), t)"
    unfolding e list_volumes_loop.simps by (auto simp: bind_Ret_iff)
  have keep: "conf v = conf s" "ctrlResolvers v = ctrlResolvers s"
    using internal_D [OF resolveNS_frame(2) r] internal_D [OF boundary_internal(5) q] by simp_all
  have "name \<noteq> []" using Cons.prems(2) by (auto simp: e)
  with resolveNS_answers [OF r] have ans: "rr_configName r = name"
    "rr_volumeGroup r = DefaultVolumeGroup (ns_data (conf s) name)" "provided L (ctrl_resolver L s name) r"
    by (auto simp: no_params_def)
  from q obtain p where "rr_nsProvider r = Some p"
    "fst (GetVolumesWithStartingToken L p (rr_volumeGroup r) tok n (world u)) = (vs, nx, err)"
    by (auto simp: ns_GetVolumesWithStartingToken_def deref_run_iff run_ext_call split: prod.splits)
  with ans have first: "listed L s tok n name (vs, nx)" unfolding listed_def
    by (intro exI [of _ r] exI [of _ p] exI [of _ "world u"] exI [of _ err]) simp
  from Cons.IH [OF rest] Cons.prems(2) obtain as where as: "list_all2 (\<lambda>e. listed L v tok n (fst e)) es as"
    "ids = (acc @ map (\<lambda>v. name @ '':'' @ vol_Path v) vs) @ concat (map2 volume_ids es as)"
    "nxt' = (if as = [] then nx else snd (last as))" "conf t = conf v" by auto
  show ?case
  proof (intro exI conjI)
    show "list_all2 (\<lambda>e. listed L s tok n (fst e)) (e # es) ((vs, nx) # as)"
      using as(1) first listed_cong [OF keep] by (simp add: e)
  qed (use as keep in \<open>auto simp: e volume_ids_def\<close>)
qed

lemma list_volumes_loop_internal [internal_rules]:
  "keeps (same internal_state) (list_volumes_loop L tok n acc nxt es)"
  by (induction L tok n acc nxt es rule: list_volumes_loop.induct) (auto intro!: internal_rules keeps_cases)

text \<open>C29: \<open>ListVolumes\<close> lists, for every appliance of the configuration once, in some order, the volumes the appliance
  answers for its default group, with their ids; the appliance asked for a name is the one the server has as the
  resolver of that name. The token for the next page is the one of the appliance that happens
  to be asked last: when another appliance had more volumes, its token is lost, and so are those volumes. No
  appliance has an empty name.\<close>

theorem ListVolumes_lists:
  assumes "ListVolumes L req s = (Ret resp, t)" and "map_of (NsMap (conf t)) [] = None"
  shows "\<exists>es as. distinct (map fst es) \<and> map_of es = map_of (NsMap (conf t)) \<and>
    list_all2 (\<lambda>e. listed L t (lv_StartingToken req) (sint (lv_MaxEntries req)) (fst e)) es as \<and>
    lo_Entries resp = concat (map2 volume_ids es as) \<and>
    lo_NextToken resp = (if as = [] then [] else snd (last as))"
proof -
  from assms(1) obtain u es v ids nxt where
    es: "goRange L (NsMap (conf u)) u = (Ret es, v)"
    and l: "list_volumes_loop L (lv_StartingToken req) (sint (lv_MaxEntries req)) [] [] es v = (Ret (ids, nxt), t)"
    and resp: "resp = \<lparr>lo_Entries = ids, lo_NextToken = nxt\<rparr>"
    by (auto simp: ListVolumes_def attempt_Ret_iff bind_Ret_iff gets_run_iff ret_run_iff throw_run_iff Let_def
        split: if_splits)
  have uv: "conf v = conf u" using internal_D [OF keeps_goRange_internal es] by simp
  have e: "es = entries (fst (mapSeed L (world u))) (NsMap (conf u))"
    using es by (auto simp: run_goRange split: prod.splits)
  have tv: "conf t = conf v" "ctrlResolvers t = ctrlResolvers v" using internal_D [OF list_volumes_loop_internal l] by simp_all
  with uv e assms(2) have keys: "map_of es = map_of (NsMap (conf t))" by (intro HOL.ext) simp
  then have "[] \<notin> fst ` set es" using assms(2) by (metis map_of_eq_None_iff)
  from list_volumes_loop_Ret [OF l this] obtain as where
    "list_all2 (\<lambda>e. listed L v (lv_StartingToken req) (sint (lv_MaxEntries req)) (fst e)) es as"
    "ids = concat (map2 volume_ids es as)" "nxt = (if as = [] then [] else snd (last as))" by auto
  then show ?thesis using listed_cong [OF tv] keys e distinct_entries resp
    by (intro exI [of _ es] exI [of _ as]) simp
qed


text \<open>Two appliances with one volume each; the first has more to list.\<close>

definition two_appliances :: "sim lib" where
  "two_appliances = sim_lib\<lparr>
     ResolveFromVg := (\<lambda>r vg w. (Some (r, None), w)),
     GetVolumesWithStartingToken := (\<lambda>p vg tok n w.
       (([\<lparr>vol_Path = ''p/g/v'', vol_VolumeSize = 4\<rparr>], if p = 0 then ''more'' else [], None), w))\<rparr>"

definition two_process :: "sim st" where
  "two_process = (sim_process [(''a'', sim_data), (''b'', sim_data)] ''good'' 7)
     \<lparr>ctrlResolvers := [(''a'', 0), (''b'', 1)]\<rparr>"

definition list_req :: ListVolumesRequest where
  "list_req = \<lparr>lv_StartingToken = [], lv_MaxEntries = 1\<rparr>"

lemmas two_eval = ListVolumes_def ctrl_refreshConfig_def resolveNS_def resolveNSNoZone_def resolve_named_def
  ctrl_resolver_def no_params_def ns_data_def ns_ResolveFromVg_def ns_GetVolumesWithStartingToken_def
  two_appliances_def two_process_def list_req_def config_eval sim_defs Let_def

text \<open>The limit of one entry is exceeded, and the token of the first appliance is lost.\<close>

theorem ListVolumes_loses_token:
  "\<exists>t. ListVolumes two_appliances list_req two_process =
      (Ret \<lparr>lo_Entries = [''a:p/g/v'', ''b:p/g/v''], lo_NextToken = []\<rparr>, t)"
  by (simp add: two_eval)

theorem ListVolumes_lists_witness:
  "\<exists>resp t es as. ListVolumes two_appliances list_req two_process = (Ret resp, t) \<and> map_of es = map_of (NsMap (conf t)) \<and>
    list_all2 (\<lambda>e. listed two_appliances t [] 1 (fst e)) es as \<and> lo_Entries resp = concat (map2 volume_ids es as)"
proof -
  obtain resp t where run: "ListVolumes two_appliances list_req two_process = (Ret resp, t)"
    and m: "map_of (NsMap (conf t)) [] = None"
    by (simp add: two_eval)
  have "lv_StartingToken list_req = []" "sint (lv_MaxEntries list_req) = 1" by (simp_all add: list_req_def)
  with ListVolumes_lists [OF run m] run show ?thesis by metis
qed

end
