(* ===== verification/BlkidFormat.thy ===== *)
theory BlkidFormat
  imports NodeIscsi
begin

text \<open>
  What \<open>blkid <device>\<close> prints, described without the parser of the driver: one line with the device, a colon
  and tags \<open>KEY="value"\<close>, each after a space. The lemmas say what \<open>getFSType\<close> (\<open>pkg/driver/nodeServer.go\<close>) reads
  in such a line: \<open>blkid_type\<close> is the value of its loop.
\<close>

section \<open>The output of blkid\<close>

definition blkid_tag :: "string \<times> string \<Rightarrow> string" where
  "blkid_tag t = fst t @ ''='' @ [CHR 0x22] @ snd t @ [CHR 0x22]"

definition blkid_line :: "string \<Rightarrow> (string \<times> string) list \<Rightarrow> string" where
  "blkid_line dev tags = dev @ '':'' @ concat (map (\<lambda>t. '' '' @ blkid_tag t) tags) @ newline"

text \<open>The names of tags, file systems and partition tables: no white space, no quotes and no equals sign.\<close>

definition blkid_word :: "string \<Rightarrow> bool" where
  "blkid_word s \<longleftrightarrow> s \<noteq> [] \<and> (\<forall>c \<in> set s. \<not> is_space c \<and> c \<noteq> CHR ''='' \<and> c \<noteq> CHR 0x22)"

text \<open>
  A line that names a file system or a partition table, in a tag whose key ends in \<open>TYPE\<close> (\<open>TYPE\<close>, \<open>SEC_TYPE\<close>,
  \<open>PTTYPE\<close>). Other values, such as labels, may contain anything but the text \<open>TYPE=\<close>.
\<close>

definition finds_content :: "string \<Rightarrow> bool" where
  "finds_content out \<longleftrightarrow> (\<exists>dev tags. out = blkid_line dev tags \<and>
     (\<exists>t \<in> set tags. suffix ''TYPE'' (fst t)) \<and>
     (\<forall>t \<in> set tags. strings_Contains (blkid_tag t) ''TYPE='' \<longrightarrow> blkid_word (fst t) \<and> blkid_word (snd t)))"

text \<open>A line in which \<open>TYPE="fs"\<close> is the last such tag.\<close>

definition finds_fs :: "string \<Rightarrow> string \<Rightarrow> bool" where
  "finds_fs out fs \<longleftrightarrow> blkid_word fs \<and> (\<exists>dev before after. out = blkid_line dev (before @ (''TYPE'', fs) # after) \<and>
     (\<forall>t \<in> set after. \<not> strings_Contains (blkid_tag t) ''TYPE=''))"

section \<open>What the driver reads in it\<close>

definition blkid_type :: "string \<Rightarrow> string" where
  "blkid_type out = (if strings_Contains out ''TYPE='' then fs_type_loop [] (strings_Split out '' '') else [])"

definition word_type :: "string \<Rightarrow> string" where
  "word_type v = strings_TrimSpace (strings_Replace (strings_Split v ''='' ! 1) [CHR 0x22] [])"

lemma fs_type_loop_append: "fs_type_loop fs (xs @ ys) = fs_type_loop (fs_type_loop fs xs) ys"
  by (induction fs xs rule: fs_type_loop.induct) simp_all

lemma fs_type_loop_none: "(\<And>v. v \<in> set vs \<Longrightarrow> \<not> strings_Contains v ''TYPE='') \<Longrightarrow> fs_type_loop fs vs = fs"
  by (induction fs vs rule: fs_type_loop.induct) simp_all

lemma fs_type_loop_found:
  assumes "\<And>v. v \<in> set vs \<Longrightarrow> strings_Contains v ''TYPE='' \<Longrightarrow> word_type v \<noteq> []"
    and "fs \<noteq> [] \<or> (\<exists>v \<in> set vs. strings_Contains v ''TYPE='')"
  shows "fs_type_loop fs vs \<noteq> []"
  using assms
proof (induction vs arbitrary: fs)
  case (Cons v vs)
  show ?case
  proof (cases "strings_Contains v ''TYPE=''")
    case True
    then have "word_type v \<noteq> []" by (intro Cons.prems(1)) simp_all
    then have "fs_type_loop (word_type v) vs \<noteq> []" using Cons.prems(1) by (intro Cons.IH) auto
    with True show ?thesis by (simp add: word_type_def)
  next
    case False
    then have "fs_type_loop fs vs \<noteq> []" using Cons.prems by (intro Cons.IH) auto
    with False show ?thesis by simp
  qed
qed simp

lemma strings_Split_at: "strings_Split (a @ d # b) [d] = strings_Split a [d] @ strings_Split b [d]"
proof (induction a)
  case (Cons c cs)
  obtain p ps where p: "strings_Split cs [d] = p # ps" by (cases "strings_Split cs [d]") auto
  show ?case
  proof (cases "c = d")
    case False
    then show ?thesis by (simp add: strings_Split_Cons_other Cons p)
  qed (simp add: Cons)
qed simp

text \<open>The words of a line, tag by tag; the newline belongs to the last one.\<close>

fun tag_words :: "(string \<times> string) list \<Rightarrow> string list" where
  "tag_words [] = []"
| "tag_words [t] = strings_Split (blkid_tag t @ newline) '' ''"
| "tag_words (t # ts) = strings_Split (blkid_tag t) '' '' @ tag_words ts"

lemma tags_split: "ts \<noteq> [] \<Longrightarrow>
    strings_Split (x @ concat (map (\<lambda>t. '' '' @ blkid_tag t) ts) @ newline) '' '' = strings_Split x '' '' @ tag_words ts"
proof (induction ts arbitrary: x rule: tag_words.induct)
  case (2 t)
  then show ?case using strings_Split_at [where d = "CHR '' ''" and a = x and b = "blkid_tag t @ newline"] by simp
next
  case (3 t u us)
  have "strings_Split (blkid_tag t @ concat (map (\<lambda>t. '' '' @ blkid_tag t) (u # us)) @ newline) '' '' =
      strings_Split (blkid_tag t) '' '' @ tag_words (u # us)" by (rule "3.IH") simp
  then show ?case
    using strings_Split_at [where d = "CHR '' ''" and a = x and
        b = "blkid_tag t @ concat (map (\<lambda>t. '' '' @ blkid_tag t) (u # us)) @ newline"] by simp
qed simp

lemma tag_words_append: "ys \<noteq> [] \<Longrightarrow> \<exists>ws. tag_words (xs @ ys) = ws @ tag_words ys"
proof (induction xs)
  case (Cons x xs)
  then obtain z zs where "xs @ ys = z # zs" by (cases "xs @ ys") auto
  with Cons show ?case by auto
qed simp

lemma in_tag_words:
  "w \<in> set (tag_words ts) \<Longrightarrow> \<exists>t \<in> set ts. \<exists>e \<in> {[], newline}. w \<in> set (strings_Split (blkid_tag t @ e) '' '')"
  by (induction ts rule: tag_words.induct) auto

text \<open>A tag without \<open>TYPE=\<close> has no word with it, and a tag made of plain words is one word, with the value read.\<close>

lemma Contains_of_piece: "w \<in> set (strings_Split s [d]) \<Longrightarrow> strings_Contains w sub \<Longrightarrow> strings_Contains s sub"
proof -
  assume w: "w \<in> set (strings_Split s [d])" and c: "strings_Contains w sub"
  then obtain us vs where "strings_Split s [d] = us @ w # vs" by (meson split_list)
  then have "s = strings_Join (us @ w # vs) [d]" using strings_Join_Split [of s d] by simp
  moreover have "\<exists>x y. strings_Join (us @ w # vs) [d] = x @ w @ y"
  proof (induction us)
    case Nil
    show ?case by (cases vs) (auto intro: exI [of _ "[]"])
  next
    case (Cons u us)
    then obtain x y where "strings_Join (us @ w # vs) [d] = x @ w @ y" by blast
    then have "strings_Join ((u # us) @ w # vs) [d] = (u @ d # x) @ w @ y" by (cases "us @ w # vs") auto
    then show ?case by blast
  qed
  ultimately obtain x y where "s = x @ w @ y" by auto
  with c show ?thesis unfolding strings_Contains_iff by (metis append.assoc)
qed

lemma Contains_newline: "strings_Contains (s @ newline) ''TYPE='' \<Longrightarrow> strings_Contains s ''TYPE=''"
proof -
  assume "strings_Contains (s @ newline) ''TYPE=''"
  then obtain a b where "s @ newline = a @ ''TYPE='' @ b" unfolding strings_Contains_iff by blast
  then obtain b' where "s = a @ ''TYPE='' @ b'"
    by (cases b rule: rev_cases) (auto simp: newline_def)
  then show ?thesis unfolding strings_Contains_iff by blast
qed

lemma tag_without:
  "\<not> strings_Contains (blkid_tag t) ''TYPE='' \<Longrightarrow> e \<in> {[], newline} \<Longrightarrow>
    w \<in> set (strings_Split (blkid_tag t @ e) '' '') \<Longrightarrow> \<not> strings_Contains w ''TYPE=''"
  using Contains_of_piece [of w "blkid_tag t @ e"] Contains_newline by fastforce

lemma tag_plain:
  assumes "blkid_word (fst t)" and "blkid_word (snd t)" and "e \<in> {[], newline}"
  shows "strings_Split (blkid_tag t @ e) '' '' = [blkid_tag t @ e]" and "word_type (blkid_tag t @ e) = snd t"
proof -
  obtain k v where t: "t = (k, v)" by (cases t)
  have no: "CHR '' '' \<notin> set k" "CHR '' '' \<notin> set v" "CHR ''='' \<notin> set k" "CHR ''='' \<notin> set v" "CHR 0x22 \<notin> set v"
    using assms by (auto simp: t blkid_word_def is_space_def)
  have e: "CHR '' '' \<notin> set e" "CHR ''='' \<notin> set e" "CHR 0x22 \<notin> set e" "\<And>c. c \<in> set e \<Longrightarrow> is_space c"
    using assms(3) by (auto simp: newline_def is_space_def)
  show "strings_Split (blkid_tag t @ e) '' '' = [blkid_tag t @ e]"
    using no e by (intro strings_Split_single) (simp add: t blkid_tag_def)
  have "strings_Split (blkid_tag t @ e) ''='' ! 1 = [CHR 0x22] @ v @ [CHR 0x22] @ e"
    using no e strings_Split_at [where a = k and d = "CHR ''=''"] by (simp add: t blkid_tag_def strings_Split_single)
  moreover have "strings_Replace ([CHR 0x22] @ v @ [CHR 0x22] @ e) [CHR 0x22] [] = v @ e"
    using no e strings_Split_at [where a = v and d = "CHR 0x22" and b = e] by (simp add: strings_Replace_def strings_Split_single)
  moreover have "strings_TrimSpace (v @ e) = v"
  proof -
    have "v \<noteq> []" "\<not> is_space (hd v)" "\<not> is_space (last v)" using assms(2) by (auto simp: t blkid_word_def)
    then have "dropWhile is_space (v @ e) = v @ e" by (cases v) simp_all
    moreover have "dropWhile is_space (rev e @ rev v) = dropWhile is_space (rev v)"
      using e by (intro dropWhile_append2) simp
    moreover have "dropWhile is_space (rev v) = rev v"
      using \<open>v \<noteq> []\<close> \<open>\<not> is_space (last v)\<close> by (cases v rule: rev_cases) simp_all
    ultimately show ?thesis by (simp add: strings_TrimSpace_def)
  qed
  ultimately show "word_type (blkid_tag t @ e) = snd t" by (simp add: word_type_def t)
qed

text \<open>Content that \<open>blkid\<close> names is found, and the file system it names last is the one read.\<close>

lemma tag_TYPE: "suffix ''TYPE'' (fst t) \<Longrightarrow> strings_Contains (blkid_tag t) ''TYPE=''"
  unfolding suffix_def strings_Contains_iff blkid_tag_def by force

lemma line_contains: "t \<in> set tags \<Longrightarrow> strings_Contains (blkid_tag t) sub \<Longrightarrow> strings_Contains (blkid_line dev tags) sub"
proof -
  assume "t \<in> set tags" and c: "strings_Contains (blkid_tag t) sub"
  then obtain us vs where "tags = us @ t # vs" by (meson split_list)
  then have "\<exists>x y. blkid_line dev tags = x @ blkid_tag t @ y" 
    by (intro exI [of _ "dev @ '':'' @ concat (map (\<lambda>t. '' '' @ blkid_tag t) us) @ '' ''"]
        exI [of _ "concat (map (\<lambda>t. '' '' @ blkid_tag t) vs) @ newline"]) (simp add: blkid_line_def)
  with c show ?thesis unfolding strings_Contains_iff by (metis append.assoc)
qed

lemma blkid_type_line:
  assumes "tags \<noteq> []" and "strings_Contains (blkid_line dev tags) ''TYPE=''"
  shows "blkid_type (blkid_line dev tags) = fs_type_loop (fs_type_loop [] (strings_Split (dev @ '':'') '' '')) (tag_words tags)"
  using assms tags_split [OF assms(1), of "dev @ '':''"]
  by (simp add: blkid_type_def blkid_line_def fs_type_loop_append)

lemma blkid_type_content:
  assumes "finds_content out"
  shows "blkid_type out \<noteq> []"
proof -
  obtain dev tags t where out: "out = blkid_line dev tags" and t: "t \<in> set tags" "suffix ''TYPE'' (fst t)"
    and plain: "\<And>t. t \<in> set tags \<Longrightarrow> strings_Contains (blkid_tag t) ''TYPE='' \<Longrightarrow> blkid_word (fst t) \<and> blkid_word (snd t)"
    using assms unfolding finds_content_def by blast
  have c: "strings_Contains (blkid_tag t) ''TYPE=''" by (rule tag_TYPE [OF t(2)])
  obtain us vs where tags: "tags = us @ t # vs" using t(1) by (meson split_list)
  obtain e where e: "e \<in> {[], newline}" "blkid_tag t @ e \<in> set (tag_words tags)"
  proof -
    obtain ws where ws: "tag_words tags = ws @ tag_words (t # vs)" using tag_words_append [of "t # vs" us] tags by auto
    have "\<exists>e \<in> {[], newline}. blkid_tag t @ e \<in> set (tag_words (t # vs))"
      using tag_plain(1) [of t newline] tag_plain(1) [of t "[]"] plain [OF t(1) c] by (cases vs) auto
    then obtain e where "e \<in> {[], newline}" "blkid_tag t @ e \<in> set (tag_words (t # vs))" by blast
    with ws show thesis by (intro that [of e]) simp_all
  qed
  have "fs_type_loop fs (tag_words tags) \<noteq> []" for fs
  proof (rule fs_type_loop_found)
    fix v assume "v \<in> set (tag_words tags)" and v: "strings_Contains v ''TYPE=''"
    then obtain t e where te: "t \<in> set tags" "e \<in> {[], newline}" "v \<in> set (strings_Split (blkid_tag t @ e) '' '')"
      using in_tag_words by blast
    with v tag_without have w: "blkid_word (fst t)" "blkid_word (snd t)" using plain by blast+
    with te tag_plain [OF w te(2)] show "word_type v \<noteq> []" by (simp add: blkid_word_def)
  next
    have "strings_Contains (blkid_tag t @ e) ''TYPE=''" by (rule strings_Contains_append1 [OF c])
    with e show "fs \<noteq> [] \<or> (\<exists>v \<in> set (tag_words tags). strings_Contains v ''TYPE='')" by blast
  qed
  moreover have "tags \<noteq> []" using t(1) by auto
  ultimately show ?thesis using blkid_type_line [OF _ line_contains [OF t(1) c], of dev] by (simp add: out)
qed

lemma blkid_type_fs:
  assumes "finds_fs out fs"
  shows "blkid_type out = fs"
proof -
  obtain dev before after where out: "out = blkid_line dev (before @ (''TYPE'', fs) # after)" and fs: "blkid_word fs"
    and after: "\<And>t. t \<in> set after \<Longrightarrow> \<not> strings_Contains (blkid_tag t) ''TYPE=''"
    using assms unfolding finds_fs_def by blast
  let ?t = "(''TYPE'', fs)"
  have c: "strings_Contains (blkid_tag ?t) ''TYPE=''" by (rule tag_TYPE) simp
  have w: "blkid_word (fst ?t)" "blkid_word (snd ?t)" using fs by (simp_all add: blkid_word_def is_space_def)
  obtain ws where ws: "tag_words (before @ ?t # after) = ws @ tag_words (?t # after)"
    using tag_words_append [of "?t # after" before] by auto
  have step: "fs_type_loop x [blkid_tag ?t @ e] = fs" if "e \<in> {[], newline}" for x e
    using tag_plain(2) [OF w that] strings_Contains_append1 [OF c, of e] by (simp add: word_type_def)
  have rest: "fs_type_loop fs (tag_words after) = fs"
    using in_tag_words tag_without after by (intro fs_type_loop_none) blast
  have "fs_type_loop x (tag_words (?t # after)) = fs" for x
  proof (cases after)
    case Nil
    with step [of newline x] tag_plain(1) [OF w, of newline] show ?thesis by simp
  next
    case (Cons a as)
    with step [of "[]" x] tag_plain(1) [OF w, of "[]"] rest show ?thesis 
      using fs_type_loop_append [of x "[blkid_tag ?t]"] by simp
  qed
  then show ?thesis
    using blkid_type_line [OF _ line_contains [OF _ c], of "before @ ?t # after" dev] by (simp add: out ws fs_type_loop_append)
qed

end
