(* ===== verification/NodeStageProps.thy ===== *)
theory NodeStageProps
  imports NodeIscsiProps ControllerPublishProps BlkidFormat
begin

text \<open>
  Properties of staging and unstaging a volume on the node: the end of the wait for the device and of
  \<open>NodeStageVolume\<close> as a whole (operations that never run out of fuel, \<open>returns\<close>), the bound on the time
  waited, the reading of permissions, when a device is formatted, and what unstaging removes.
\<close>

section \<open>Operations of the node that end\<close>

lemma returns_retry [returns_rules]: "returns m \<Longrightarrow> returns (retry n m)"
  by (induction n) (simp_all add: returns_rules)

lemma bind_returns_at:
  "fst (m s) \<noteq> NoFuel \<Longrightarrow> (\<And>x u. m s = (Ret x, u) \<Longrightarrow> fst (k x u) \<noteq> NoFuel) \<Longrightarrow> fst (bind m k s) \<noteq> NoFuel"
  by (auto simp: run_bind split: prod.splits outcome.splits)

lemma node_config_returns [returns_rules]: "returns (node_use_config L secrets)"
  unfolding node_use_config_def pick_secret_def node_refreshConfig_def node_refresh_step_def Refresh_def
    refresh_content_def refresh_load_def Validate_def validate_step_def validate_entry_def Let_def
  by (intro returns_rules)

lemma node_resolveNS_returns [returns_rules]: "returns (node_resolveNS L c vg)"
  unfolding node_resolveNS_def by (intro returns_rules)

lemma GetNodeIQN_returns [returns_rules]: "returns (GetNodeIQN L)"
  unfolding GetNodeIQN_def by (intro returns_rules)

lemma SetChapAuth_returns [returns_rules]: "returns (SetChapAuth L n u k p)"
  unfolding SetChapAuth_def by (intro returns_rules)

lemma CreateNewTargetTg_returns [returns_rules]: "returns (CreateNewTargetTg L ctx p)"
  unfolding CreateNewTargetTg_def new_target_name_def Let_def by (intro returns_rules)

lemma target_loop_returns: "returns (target_loop L ctx p n mtg tgt cs)"
proof (induction cs arbitrary: n mtg tgt)
  case Nil
  show ?case by (simp add: returns_rules)
next
  case (Cons c cs)
  show ?case by (cases c) (auto simp only: target_loop.simps Let_def intro!: returns_rules Cons.IH)
qed

lemma ParseVolumeContext_returns [returns_rules]: "returns (ParseVolumeContext L ctx p name)"
  unfolding ParseVolumeContext_def parse_host_group_def CreateUpdateHostGroup_def by (intro returns_rules)

lemma stage_parts_return [returns_rules]:
  "returns (stage_target L cfg ctx p)" "returns (stage_lun L vid path tg hg p)"
  "returns (ISCSILogInRescan L target portal)" "returns (stage_path L path perm)"
  "returns (GetRealDeviceName L link)" "returns (stage_device L vid cap source path perm)"
  unfolding stage_target_def ResolveTargetGroup_def stage_lun_def CreateISCSIMapping_def
    ISCSILogInRescan_def stage_path_def DeviceFromTargetPath_def GetRealDeviceName_def stage_device_def
    getFSType_def formatVolume_def format_try_def mountVolume_def Let_def
  by (intro returns_rules target_loop_returns)+

section \<open>The wait for the device\<close>

text \<open>The sleep time after \<open>k\<close> doublings, and the deadline, as long as neither leaves 64 bits.\<close>

lemma sint_duration: "- (2 ^ 63) \<le> i \<Longrightarrow> i < 2 ^ 63 \<Longrightarrow> sint (word_of_int i :: duration) = i"
  by (subst sint_sbintrunc', subst signed_take_bit_int_eq_self) auto

lemma sleep_time: "k \<le> 33 \<Longrightarrow> sint (word_of_int (2 ^ k * 1000000000) :: duration) = 2 ^ k * 1000000000"
proof -
  assume "k \<le> 33"
  define x :: int where "x = 2 ^ k"
  have "0 \<le> x" by (simp add: x_def)
  moreover from \<open>k \<le> 33\<close> have "(2::int) ^ k \<le> 2 ^ 33" by (intro power_increasing) simp_all
  then have "x \<le> 8589934592" by (simp add: x_def)
  ultimately show ?thesis unfolding x_def [symmetric] by (intro sint_duration) simp_all
qed

lemma sleep_double: "(word_of_int (2 ^ k * 1000000000) :: duration) * 2 = word_of_int (2 ^ Suc k * 1000000000)"
  by (simp flip: wi_hom_mult add: algebra_simps)

lemma deadline: "\<bar>timeout\<bar> < 2 ^ 33 \<Longrightarrow> sint (word_of_int timeout * time_Second :: duration) = timeout * 1000000000"
proof -
  assume "\<bar>timeout\<bar> < 2 ^ 33"
  moreover have "(word_of_int timeout * time_Second :: duration) = word_of_int (timeout * 1000000000)"
    by (simp add: time_Second_def flip: wi_hom_mult)
  ultimately show ?thesis by (simp only:) (rule sint_duration; simp)
qed

lemma ISCSILogInRescan_no_sleep: "keeps (emits no_sleep) (ISCSILogInRescan L target portal)"
  unfolding ISCSILogInRescan_def by (intro emits_rules keeps_cases) simp_all

text \<open>One round: the end, or a pause of the sleep time and the next round.\<close>

lemma stage_wait_round:
  assumes "stage_wait (Suc n) L target portal dev timeout d s = (res, t)"
  obtains (stop) cs where "trace t = trace s @ cs" and "sleeps cs = []" and "res \<noteq> NoFuel"
  | (again) u cs where "stage_wait n L target portal dev timeout (d * 2) u = (res, t)"
      and "trace u = trace s @ cs" and "sleeps cs = [sint d]"
      and "sint d \<le> sint (word_of_int timeout * time_Second :: duration)"
proof (cases "sint d > sint (word_of_int timeout * time_Second :: duration)")
  case True
  with assms have "t = s" "res \<noteq> NoFuel" by (auto simp: run_simps)
  with stop [of "[]"] show thesis by simp
next
  case False
  obtain r u where l: "ISCSILogInRescan L target portal s = (r, u)" by fastforce
  obtain cs where cs: "trace u = trace s @ cs" "sleeps cs = []"
    using no_sleep_new [OF ISCSILogInRescan_no_sleep l] by blast
  show thesis
  proof (cases r)
    case (Ret x)
    let ?p = "filepath_Join [''/host'', dev]"
    obtain a w where st: "osStat L ?p (world u) = (a, w)" by fastforce
    let ?v = "u\<lparr>world := w, trace := trace u @ [StatCall ?p]\<rparr>"
    from assms False l Ret st have run: "(case a of Inr _ \<Rightarrow> ret () | Inl e \<Rightarrow> if os_IsNotExist e then
        bind (time_Sleep L d) (\<lambda>_. stage_wait n L target portal dev timeout (d * 2)) else ret ()) ?v = (res, t)"
      by (cases a) (auto simp: run_bind run_attempt os_Stat_def run_ext_call run_lift_sum)
    show thesis
    proof (cases "\<exists>e. a = Inl e \<and> os_IsNotExist e")
      case True
      let ?w = "?v\<lparr>world := snd (sleepFor L d w), trace := trace ?v @ [SleepCall d]\<rparr>"
      from run True have "stage_wait n L target portal dev timeout (d * 2) ?w = (res, t)"
        by (auto simp: time_Sleep_def run_bind run_ext_call)
      with again [of ?w "cs @ [StatCall ?p, SleepCall d]"] cs False show thesis by simp
    next
      case False
      with run have "t = ?v" "res = Ret ()" by (auto simp: run_ret split: sum.splits if_splits)
      with stop [of "cs @ [StatCall ?p]"] cs show thesis by simp
    qed
  qed (use stop cs l False assms returnsD [OF stage_parts_return(3), of L target portal s] in
      \<open>auto simp: run_bind\<close>)
qed

lemma stage_wait_run:
  assumes "\<bar>timeout\<bar> < 2 ^ 33"
  shows "stage_wait n L target portal dev timeout (word_of_int (2 ^ k * 1000000000)) s = (res, t) \<Longrightarrow>
    k \<le> 33 \<Longrightarrow> k + n = 34 \<Longrightarrow> res \<noteq> NoFuel \<and> (\<exists>cs j. trace t = trace s @ cs \<and>
      sleeps cs = map (\<lambda>i. 2 ^ i * 1000000000) [k..<k + j] \<and> (0 < j \<longrightarrow> 2 ^ (k + j - 1) \<le> timeout))"
proof (induction n arbitrary: k s)
  case 0
  then show ?case by simp
next
  case (Suc n)
  let ?d = "word_of_int (2 ^ k * 1000000000) :: duration"
  have k: "k \<le> 33" by (rule Suc.prems(2))
  from Suc.prems(1) show ?case
  proof (cases rule: stage_wait_round)
    case (stop cs)
    then show ?thesis by (intro conjI exI [of _ cs] exI [of _ 0]) auto
  next
    case (again u cs)
    have "2 ^ k \<le> timeout" using again(4) unfolding deadline [OF assms] sleep_time [OF k] by simp
    moreover from calculation assms have "(2::int) ^ k < 2 ^ 33" by linarith
    then have "k < 33" by (simp only: power_strict_increasing_iff one_less_numeral_iff semiring_norm)
    moreover from Suc.IH [OF again(1) [unfolded sleep_double]] calculation Suc.prems(3)
    obtain cs' j where "res \<noteq> NoFuel" and "trace t = trace u @ cs'"
      and "sleeps cs' = map (\<lambda>i. 2 ^ i * 1000000000) [Suc k..<Suc k + j]" and "0 < j \<longrightarrow> 2 ^ (k + j) \<le> timeout" by auto
    moreover have "[k..<k + Suc j] = k # [Suc k..<Suc k + j]" by (simp add: upt_conv_Cons del: upt_Suc)
    moreover from calculation have "2 ^ (k + j) \<le> timeout" by (cases "j = 0") simp_all
    ultimately show ?thesis using again(2,3) sleep_time [OF k]
      by (intro conjI exI [of _ "cs @ cs'"] exI [of _ "Suc j"]) (simp_all del: upt_Suc)
  qed
qed

lemma sum_doublings: "sum_list (map (\<lambda>i. 2 ^ i * (1000000000::int)) [0..<j]) = (2 ^ j - 1) * 1000000000"
  by (induction j) (simp_all add: algebra_simps)

text \<open>C21: the wait for the device ends. With a timeout of less than 2^33 seconds in absolute value at most 34
  rounds are made; the 64-bit durations do not overflow: the deadline is the timeout in nanoseconds and the pauses
  are 1, 2, 4, ... seconds, at most 33 of them; a pause is started as long as it does not exceed the timeout by
  itself, so all pauses together are shorter than twice the timeout.\<close>

theorem stage_wait_ends:
  assumes "\<bar>timeout\<bar> < 2 ^ 33"
  shows "fst (stage_wait 34 L target portal dev timeout time_Second s) \<noteq> NoFuel \<and>
    sint (word_of_int timeout * time_Second :: duration) = timeout * 1000000000 \<and>
    (\<exists>cs j. trace (snd (stage_wait 34 L target portal dev timeout time_Second s)) = trace s @ cs \<and>
       sleeps cs = map (\<lambda>i. 2 ^ i * 1000000000) [0..<j] \<and> j \<le> 33 \<and> (0 < j \<longrightarrow> 2 ^ (j - 1) \<le> timeout) \<and>
       sum_list (sleeps cs) \<le> max 0 (2 * timeout - 1) * 1000000000)"
proof -
  obtain res t where run: "stage_wait 34 L target portal dev timeout time_Second s = (res, t)" by fastforce
  have "time_Second = word_of_int (2 ^ 0 * 1000000000)" by (simp add: time_Second_def)
  from stage_wait_run [OF assms run [unfolded this]] obtain cs j where "res \<noteq> NoFuel"
    and cs: "trace t = trace s @ cs" "sleeps cs = map (\<lambda>i. 2 ^ i * 1000000000) [0..<j]"
    and j: "0 < j \<longrightarrow> 2 ^ (j - 1) \<le> timeout" by auto
  have "j \<le> 33"
  proof (rule ccontr)
    assume "\<not> j \<le> 33"
    then have "(2::int) ^ 33 \<le> 2 ^ (j - 1)" by (intro power_increasing) simp_all
    with j \<open>\<not> j \<le> 33\<close> assms show False by simp
  qed
  have "2 ^ j - 1 \<le> max 0 (2 * timeout - 1)" using j by (cases j) auto
  then have "(2 ^ j - 1) * 1000000000 \<le> max 0 (2 * timeout - 1) * 1000000000"
    by (rule mult_right_mono) simp
  then have "sum_list (sleeps cs) \<le> max 0 (2 * timeout - 1) * 1000000000" by (simp only: cs(2) sum_doublings)
  with \<open>res \<noteq> NoFuel\<close> \<open>j \<le> 33\<close> cs j run deadline [OF assms] show ?thesis by auto
qed

theorem stage_wait_ends_witness:
  "\<exists>cs j. trace (snd (stage_wait 34 sim_lib ''iqn.t'' ''10.0.0.1:3260'' ''/dev/x'' 2 time_Second (sim_process [] ''good'' 7))) =
      trace (sim_process [] ''good'' 7) @ cs \<and> sleeps cs = map (\<lambda>i. 2 ^ i * 1000000000) [0..<j] \<and>
      sum_list (sleeps cs) \<le> 3000000000"
  using stage_wait_ends [of 2 sim_lib "''iqn.t''" "''10.0.0.1:3260''" "''/dev/x''" "sim_process [] ''good'' 7"]
  by auto

text \<open>The timeout of the context is the configured one.\<close>

lemma ParseVolumeContext_timeout:
  assumes "ParseVolumeContext L vctx p name s = (Ret ctx, t)"
  shows "ic_ISCSITimeout ctx = parse_timeout (ns_data (conf s) name)"
  using assms unfolding ParseVolumeContext_def
  by (auto simp: bind_Ret_iff gets_run_iff Let_def ret_run_iff split: prod.splits)

lemma stage_wait_returns:
  assumes "\<bar>timeout\<bar> < 2 ^ 33"
  shows "returns (stage_wait 34 L target portal dev timeout time_Second)"
  unfolding returns_def
proof
  fix s
  have 1: "time_Second = word_of_int (2 ^ 0 * 1000000000)" by (simp add: time_Second_def)
  obtain res t where run: "stage_wait 34 L target portal dev timeout (word_of_int (2 ^ 0 * 1000000000)) s = (res, t)"
    by fastforce
  from stage_wait_run [OF assms run] run
  show "fst (stage_wait 34 L target portal dev timeout time_Second s) \<noteq> NoFuel" unfolding 1 by simp
qed

lemma stage_on_returns:
  assumes "\<bar>parse_timeout (ns_data (conf s) configName)\<bar> < 2 ^ 33"
  shows "fst (stage_on 34 L req cap cfg p configName path s) \<noteq> NoFuel"
  unfolding stage_on_def
proof (rule bind_returns_at)
  show "fst (ParseVolumeContext L (ns_VolumeContext req) p configName s) \<noteq> NoFuel"
    using ParseVolumeContext_returns unfolding returns_def by blast
  fix ctx u
  assume "ParseVolumeContext L (ns_VolumeContext req) p configName s = (Ret ctx, u)"
  with assms have "\<bar>ic_ISCSITimeout ctx\<bar> < 2 ^ 33" by (simp add: ParseVolumeContext_timeout)
  note wait = stage_wait_returns [OF this]
  let ?k = "bind (stage_target L cfg ctx p) (\<lambda>(iSCSITarget, targetGroup).
     bind (stage_lun L (ns_VolumeId req) path targetGroup (ic_HostGroup ctx) p) (\<lambda>lunNumber.
     let portal = ic_Address ctx @ '':'' @ ic_Port ctx in
     bind (ISCSILogInRescan L iSCSITarget portal) (\<lambda>_.
     bind (lift_sum (GetMountPointPermissions (ns_VolumeContext req))) (\<lambda>permissions.
     bind (stage_path L (ns_StagingTargetPath req) permissions) (\<lambda>device.
     let devByPath = ConstructDevByPath portal iSCSITarget lunNumber in
     bind (stage_wait 34 L iSCSITarget portal devByPath (ic_ISCSITimeout ctx) time_Second) (\<lambda>_.
     bind (GetRealDeviceName L devByPath) (\<lambda>source.
     if device = source then ret ()
     else stage_device L (ns_VolumeId req) cap source (ns_StagingTargetPath req) permissions)))))))"
  have "returns ?k" by (intro returns_rules wait)
  then show "fst (?k u) \<noteq> NoFuel" unfolding returns_def by blast
qed

text \<open>\<open>NodeStageVolume\<close> as a whole always comes to an end, with success, an error or a panic, when every
  timeout of the configuration in force is below 2^33 seconds (about 272 years) in absolute value.\<close>

lemma NodeStageVolume_ends:
  assumes "\<And>u name. node_use_config L (ns_Secrets req) s = (Ret (), u) \<Longrightarrow>
    \<bar>parse_timeout (ns_data (conf u) name)\<bar> < 2 ^ 33"
  shows "fst (NodeStageVolume 34 L req s) \<noteq> NoFuel"
proof (cases "length (ns_VolumeId req) = 0 \<or> length (ns_StagingTargetPath req) = 0")
  case True
  then show ?thesis by (auto simp: NodeStageVolume_def run_throw)
next
  case False
  have at: "returns m \<Longrightarrow> fst (m s) \<noteq> NoFuel" for m :: "('a st, 'b) M" and s
    unfolding returns_def by blast
  have rest: "fst (bind (gets (\<lambda>s. ns_data (conf s) c)) (\<lambda>cfg.
      bind (node_resolveNS L c (DefaultVolumeGroup cfg)) (\<lambda>(nsProvider, configName).
      stage_on 34 L req cap cfg nsProvider configName path)) u) \<noteq> NoFuel"
    if u: "node_use_config L (ns_Secrets req) s = (Ret (), u)" for u c path cap
  proof -
    have same: "keeps (same internal_state) (node_resolveNS L c vg)" for vg
      unfolding node_resolveNS_def by (intro internal_rules keeps_cases)
    have on: "fst (stage_on 34 L req cap cfg p configName path v) \<noteq> NoFuel"
      if "node_resolveNS L c vg u = (Ret (p, configName), v)" for vg cfg p configName v
      using assms [OF u, of configName] internal_D [OF same that] by (intro stage_on_returns) simp
    show ?thesis
      by (rule bind_returns_at, simp add: run_gets)
        (auto simp: gets_run_iff intro!: bind_returns_at [OF at [OF node_resolveNS_returns]] on)
  qed
  show ?thesis
  proof (cases "ns_VolumeCapability req")
    case None
    with False show ?thesis by (simp add: NodeStageVolume_def run_throw)
  next
    case (Some cap)
    let ?k = "case two (strings_Split (ns_VolumeId req) '':'') of
        None \<Rightarrow> throw (StatusErr InvalidArgument (''VolumeId is in wrong format: '' @ ns_VolumeId req))
      | Some (c, path) \<Rightarrow>
      bind (gets (\<lambda>s. ns_data (conf s) c)) (\<lambda>cfg.
      bind (node_resolveNS L c (DefaultVolumeGroup cfg)) (\<lambda>(nsProvider, configName).
      stage_on 34 L req cap cfg nsProvider configName path))"
    have "fst (bind (node_use_config L (ns_Secrets req)) (\<lambda>_. ?k) s) \<noteq> NoFuel"
    proof (rule bind_returns_at [OF at [OF node_config_returns]])
      fix x :: unit and u
      assume "node_use_config L (ns_Secrets req) s = (Ret x, u)"
      with rest [of u] show "fst (?k u) \<noteq> NoFuel"
        by (cases "two (strings_Split (ns_VolumeId req) '':'')") (auto simp: run_throw)
    qed
    with False Some show ?thesis by (simp add: NodeStageVolume_def)
  qed
qed

definition stage_req :: NodeStageVolumeRequest where
  "stage_req = \<lparr>ns_VolumeId = ''a:p/g/v'', ns_StagingTargetPath = ''/stage'',
     ns_VolumeCapability = Some \<lparr>vc_AccessMode = Some SINGLE_NODE_WRITER,
       vc_AccessType = AccessMount \<lparr>mv_FsType = [], mv_MountFlags = []\<rparr>\<rparr>,
     ns_VolumeContext = [], ns_Secrets = []\<rparr>"

text \<open>The timeout the sample node works with.\<close>

lemma sim_stage_timeout:
  assumes "node_use_config sim_lib (ns_Secrets stage_req) (sim_process [(''a'', sim_data)] ''good'' 7) = (Ret (), u)"
  shows "\<bar>parse_timeout (ns_data (conf u) name)\<bar> < 2 ^ 33"
proof -
  from assms have "conf u = conf (sim_process [(''a'', sim_data)] ''good'' 7)"
    by (auto simp: node_use_config_def pick_secret_def last_secret_def node_refreshConfig_def Refresh_def
        config_eval sim_defs stage_req_def)
  then show ?thesis by (simp add: sim_defs ns_data_def parse_timeout_def DefaultISCSITimeout_def)
qed

section \<open>Permissions\<close>

text \<open>C31: permissions printed in octal are read back as they were, for every mode of 15 bits; nothing
  above is accepted, and without the parameter the mode is 0750.\<close>

theorem GetMountPointPermissions_roundtrip:
  "GetMountPointPermissions [(''mountPointPermissions'', digits 8 (unat (n :: 15 word)))] = Inr (ucast n) \<and>
   (\<forall>m. \<exists>e. GetMountPointPermissions [(''mountPointPermissions'', digits 8 (2 ^ 15 + m))] = Inl e) \<and>
   GetMountPointPermissions [] = Inr (8 * (8 * 7 + 5))"
proof -
  have signless: "\<exists>c cs. digits 8 k = c # cs \<and> c \<noteq> CHR ''-'' \<and> c \<noteq> CHR ''+''" for k
  proof -
    obtain c cs where d: "digits 8 k = c # cs" by (cases "digits 8 k") auto
    then have "c \<in> digit_char ` {..<8}" using digits_set [of 8 k] by auto
    then obtain i where "i < 8" "c = digit_char i" by auto
    then show ?thesis using d digit_char_no_sign [of i] by simp
  qed
  have parse: "strconv_ParseInt (digits 8 k) 8 16 = (if k < 2 ^ 15 then Inr (int k)
      else Inl (NumErr ''ParseInt'' (digits 8 k) False))" for k
    using signless [of k] parse_uint_digits [OF _ _ parse_digits_digits, of 8 "2 ^ 16 - 1" k]
    by (auto simp: strconv_ParseInt_def parse_int_def Let_def)
  have get: "GetMountPointPermissions [(''mountPointPermissions'', digits 8 k)] =
      (case strconv_ParseInt (digits 8 k) 8 16 of Inl e \<Rightarrow> Inl e | Inr i \<Rightarrow> Inr (word_of_int i))" for k
    by (simp add: GetMountPointPermissions_def get_str_def Let_def)
  have "unat n < 2 ^ LENGTH(15)" by (rule unsigned_less)
  then have n: "unat n < 2 ^ 15" by simp
  have "(word_of_int (int (unat n)) :: file_mode) = ucast n" by simp
  then show ?thesis using n
    by (simp add: get parse) (simp add: GetMountPointPermissions_def get_str_def DefaultMountPointPermissions_def)
qed

section \<open>Formatting\<close>

fun is_mkfs :: "call \<Rightarrow> bool" where
  "is_mkfs (Exec (cmd # _)) = (cmd \<in> {''mkfs.xfs'', ''mkfs.ext3'', ''mkfs.ext4''})"
| "is_mkfs _ = False"

definition wanted_fs :: "MountVolume \<Rightarrow> string" where
  "wanted_fs m = (if length (mv_FsType m) = 0 then DefaultFsType else mv_FsType m)"

lemma mountVolume_no_mkfs: "keeps (emits (\<lambda>c. \<not> is_mkfs c)) (mountVolume L dev path fs opts perm)"
  unfolding mountVolume_def by (intro emits_rules keeps_cases) simp_all

lemma stage_device_mount:
  assumes "vc_AccessType cap = AccessMount m"
  shows "stage_device L vid cap source path perm =
    bind (getFSType L source) (\<lambda>fs.
    bind (if fs = [] then formatVolume L source (wanted_fs m)
          else if fs \<noteq> wanted_fs m then
            throw (PlainErr (''Volume '' @ vid @ '' is already formatted in '' @ fs @ '', requested: '' @ wanted_fs m @ '',''))
          else ret ()) (\<lambda>_. mountVolume L source path (wanted_fs m) (mv_MountFlags m) perm))"
  unfolding stage_device_def assms access_type.case wanted_fs_def [symmetric] Let_def ..



text \<open>Any failure of \<open>blkid\<close> counts as "no file system": whatever the reason of the failure, the
  device is formatted (with \<open>ext4\<close> when no type is asked for).\<close>

theorem stage_device_formats_on_error:
  assumes "vc_AccessType cap = AccessMount m" and "wanted_fs m = ''ext4''"
    and "osExec L [''blkid'', source] (world s) = ((out, Some e), w)"
  shows "Exec [''mkfs.ext4'', ''-E'', ''nodiscard'', ''-F'', source] \<in>
    set (trace (snd (stage_device L vid cap source path perm s)))"
proof -
  let ?mk = "Exec [''mkfs.ext4'', ''-E'', ''nodiscard'', ''-F'', source]"
  let ?u = "s\<lparr>world := w, trace := trace s @ [Exec [''blkid'', source]]\<rparr>"
  have fs: "getFSType L source s = (Ret [], ?u)"
    using assms(3) by (simp add: getFSType_def os_exec_def run_simps)
  have try_mk: "?mk \<in> set (trace (snd (format_try L source ''ext4'' v)))" for v
    by (simp add: format_try_def os_exec_def run_simps Let_def split: prod.splits option.splits)
  have grows: "keeps (emits (\<lambda>_. True)) (retry n (format_try L source ''ext4''))" for n
    by (induction n) (auto simp: format_try_def Let_def intro!: emits_rules keeps_cases)
  have retry_mk: "?mk \<in> set (trace (snd (retry n (format_try L source ''ext4'') v)))" for n v
  proof (cases n)
    case 0
    with try_mk show ?thesis by simp
  next
    case (Suc k)
    obtain r v' where t: "format_try L source ''ext4'' v = (r, v')" by fastforce
    with try_mk [of v] have "?mk \<in> set (trace v')" by simp
    moreover have "\<exists>cs. trace (snd (retry k (format_try L source ''ext4'') v')) = trace v' @ cs"
      using grows [of k] by (auto simp: keeps_def emits_def)
    ultimately show ?thesis using Suc t by (cases r) (auto simp: run_attempt run_ret)
  qed
  have "keeps (emits (\<lambda>_. True)) (mountVolume L source path fs opts perm)" for fs opts
    by (rule keeps_emits_mono [OF mountVolume_no_mkfs]) simp
  note grow = this
  have mounts: "\<exists>cs. trace (snd (mountVolume L source path fs opts perm v)) = trace v @ cs" for fs opts v
    using grow [of fs opts] by (auto simp: keeps_def emits_def)
  obtain n v where "backoff_retries L ?u = (Ret n, v)"
    by (simp add: backoff_retries_def run_ext_call)
  then have f: "formatVolume L source ''ext4'' ?u = retry n (format_try L source ''ext4'') v"
    by (simp add: formatVolume_def run_bind)
  obtain r x where x: "retry n (format_try L source ''ext4'') v = (r, x)" by fastforce
  with retry_mk [of n v] have "?mk \<in> set (trace x)" by simp
  moreover have "stage_device L vid cap source path perm s = (case r of
      Ret _ \<Rightarrow> mountVolume L source path ''ext4'' (mv_MountFlags m) perm x
    | Fail e \<Rightarrow> (Fail e, x) | Panic \<Rightarrow> (Panic, x) | NoFuel \<Rightarrow> (NoFuel, x))"
    using fs f x by (simp add: stage_device_mount [OF assms(1)] assms(2) run_bind)
  ultimately show ?thesis using mounts [of "''ext4''" "mv_MountFlags m" x] by (cases r) auto
qed

definition mount_cap :: VolumeCapability where
  "mount_cap = \<lparr>vc_AccessMode = Some SINGLE_NODE_WRITER,
     vc_AccessType = AccessMount \<lparr>mv_FsType = [], mv_MountFlags = []\<rparr>\<rparr>"

lemmas device_eval = mount_cap_def mounted_process_def wanted_fs_def DefaultFsType_def


theorem stage_device_formats_on_error_witness:
  "Exec [''mkfs.ext4'', ''-E'', ''nodiscard'', ''-F'', ''/dev/sdb''] \<in>
     set (trace (snd (stage_device sim_lib ''v'' mount_cap ''/dev/sdb'' ''/stage'' 488 (mounted_process []))))"
proof (rule stage_device_formats_on_error)
  show "vc_AccessType mount_cap = AccessMount \<lparr>mv_FsType = [], mv_MountFlags = []\<rparr>"
    by (simp add: mount_cap_def)
  show "wanted_fs \<lparr>mv_FsType = [], mv_MountFlags = []\<rparr> = ''ext4''" by (simp add: device_eval)
  show "osExec sim_lib [''blkid'', ''/dev/sdb''] (world (mounted_process [])) =
      (([], Some (LibErr ''exit'' ''exit status 1'')), world (mounted_process []))"
    by (simp add: device_eval sim_defs)
qed

section \<open>Unstaging\<close>

text \<open>Operations that neither panic nor run on can be logged and passed over.\<close>

lemma no_panic_ext_call [safe_rules]: "no_panic (ext_call c h)"
  by (simp add: no_panic_def run_ext_call)

lemma no_panic_boundary [safe_rules]:
  "no_panic (os_do L oc)" "no_panic (os_exec L argv)" "no_panic (file_WriteString L f d)"
  "no_panic (mounter_IsLikelyNotMountPoint L path)"
  unfolding boundary_defs by (intro safe_rules)+

lemma returns_write [returns_rules]: "returns (file_WriteString L f d)"
  unfolding file_WriteString_def by (intro returns_rules)

text \<open>\<open>settles m\<close>: every run of \<open>m\<close> succeeds, and only adds to the history.\<close>

definition settles :: "('w st, 'a) M \<Rightarrow> bool" where
  "settles m \<longleftrightarrow> (\<forall>s. \<exists>x t cs. m s = (Ret x, t) \<and> trace t = trace s @ cs)"

named_theorems settles_rules \<open>operations that always succeed\<close>

lemma settles_ret [settles_rules]: "settles (ret x)"
  by (simp add: settles_def run_ret)

lemma settles_ext_call [settles_rules]: "settles (ext_call c f)"
  by (simp add: settles_def run_ext_call)

lemma settles_bind [settles_rules]: "settles m \<Longrightarrow> (\<And>x. settles (k x)) \<Longrightarrow> settles (bind m k)"
  unfolding settles_def
proof
  fix s
  assume m: "\<forall>s. \<exists>x t cs. m s = (Ret x, t) \<and> trace t = trace s @ cs"
    and k: "\<And>x. \<forall>s. \<exists>y t cs. k x s = (Ret y, t) \<and> trace t = trace s @ cs"
  from m obtain x t cs where 1: "m s = (Ret x, t)" "trace t = trace s @ cs" by blast
  from k obtain y u cs' where 2: "k x t = (Ret y, u)" "trace u = trace t @ cs'" by blast
  from 1 2 show "\<exists>y u cs. bind m k s = (Ret y, u) \<and> trace u = trace s @ cs"
    by (simp add: run_bind)
qed

lemma settles_if [settles_rules]: "settles a \<Longrightarrow> settles b \<Longrightarrow> settles (if c then a else b)"
  by simp

lemma settles_case_prod [settles_rules]: "(\<And>a b. settles (f a b)) \<Longrightarrow> settles (case p of (a, b) \<Rightarrow> f a b)"
  by (cases p) simp

lemma settles_logged [settles_rules]:
  assumes "no_panic m" and "returns m" and "keeps (emits (\<lambda>_. True)) m"
  shows "settles (logged m x)"
  unfolding settles_def
proof
  fix s
  obtain r t where m: "m s = (r, t)" by fastforce
  obtain cs where "trace t = trace s @ cs" using keepsD [OF assms(3) m] by (auto simp: emits_def)
  with m show "\<exists>y t cs. logged m x s = (Ret y, t) \<and> trace t = trace s @ cs"
    using no_panicD [OF assms(1)] returnsD [OF assms(2)]
    by (cases r) (auto simp: logged_def run_attempt run_ret)
qed

lemma device_ops_safe:
  "no_panic (FlushBufs L dev)" "returns (FlushBufs L dev)"
  "no_panic (DeviceFromTargetPath L path)" "returns (DeviceFromTargetPath L path)"
  "no_panic (RemoveDevice L dev)" "returns (RemoveDevice L dev)"
  unfolding FlushBufs_def DeviceFromTargetPath_def RemoveDevice_def Let_def
  by (intro safe_rules returns_rules)+

lemma device_ops_emit [emits_rules]:
  "keeps (emits (\<lambda>_. True)) (FlushBufs L dev)" "keeps (emits (\<lambda>_. True)) (DeviceFromTargetPath L path)"
  "keeps (emits (\<lambda>_. True)) (RemoveDevice L dev)"
  unfolding FlushBufs_def DeviceFromTargetPath_def RemoveDevice_def Let_def
  by (intro emits_rules keeps_cases; simp)+

lemma device_parts_settle [settles_rules]:
  "settles (logged (FlushBufs L dev) u)" "settles (logged (DeviceFromTargetPath L path) d)"
  "settles (logged (RemoveDevice L dev) u)" "settles (logged (os_do L c) u)"
  by (intro settles_rules device_ops_safe device_ops_emit safe_rules returns_rules emits_rules TrueI)+

text \<open>The first part of unstaging never stops it.\<close>

lemma unstage_settles [settles_rules]: "settles (unstage_block L path)" "settles (unstage_mount L path)"
  unfolding unstage_block_def unstage_mount_def Let_def os_exec_def mounter_IsLikelyNotMountPoint_def
  by (intro settles_rules)+

text \<open>C24: \<open>NodeUnstageVolume\<close> always ends with \<open>RemoveAll\<close> on the staging path, whatever happened before,
  also when unmounting it has failed: the errors of the earlier steps are only logged. A staging path that
  is still mounted then loses the files of the volume.\<close>

theorem NodeUnstageVolume_always_removes:
  assumes "nu_VolumeId req \<noteq> []" and "nu_StagingTargetPath req \<noteq> []"
  shows "\<exists>cs. trace (snd (NodeUnstageVolume L req s)) = trace s @ cs @ [OsCmd (RemoveAll (nu_StagingTargetPath req))]"
proof -
  let ?path = "nu_StagingTargetPath req"
  let ?m = "if strings_Contains ?path ''volumeDevices'' then unstage_block L ?path else unstage_mount L ?path"
  have "settles ?m" by (intro settles_rules)
  then obtain dev u cs where 1: "?m s = (Ret dev, u)" "trace u = trace s @ cs" unfolding settles_def by blast
  have "settles (logged (RemoveDevice L dev) ())" by (intro settles_rules)
  then obtain y v cs' where 2: "logged (RemoveDevice L dev) () u = (Ret y, v)" "trace v = trace u @ cs'"
    unfolding settles_def by blast
  have "trace (snd (NodeUnstageVolume L req s)) = trace v @ [OsCmd (RemoveAll ?path)]"
    using assms by (simp add: NodeUnstageVolume_def Let_def run_bind [of ?m] 1(1) run_bind [of "logged m x" for m x] 2(1)
        os_do_def run_simps split: option.splits)
  then show ?thesis using 1(2) 2(2) by simp
qed

text \<open>C22: \<open>NodeUnpublishVolume\<close> keeps what is still mounted. When the target path is a mount point it is unmounted
  first; when that fails, and the text of the error does not say \<open>not mounted\<close>, the answer is an \<open>Internal\<close> error
  and nothing is removed. Otherwise the path is removed, and the answer is a success exactly when it was or was
  not there, and \<open>Internal\<close> if not.\<close>

theorem NodeUnpublishVolume_keeps_mounted:
  assumes "nup_VolumeId req \<noteq> []" and "nup_TargetPath req \<noteq> []"
    and "IsLikelyNotMountPoint L (nup_TargetPath req) (world s) = ((False, None), w)"
    and "osCommand L (Unmount (nup_TargetPath req)) w = (failed, w')"
    and "osCommand L (RemoveAll (nup_TargetPath req)) w' = (failed', w'')"
  shows "if \<exists>e. failed = Some e \<and> \<not> strings_Contains (errText L e) ''not mounted''
    then \<exists>msg. NodeUnpublishVolume L req s = (Fail (StatusErr Internal msg), s\<lparr>world := w',
      trace := trace s @ [MountPointCall (nup_TargetPath req), OsCmd (Unmount (nup_TargetPath req))]\<rparr>)
    else \<exists>res. NodeUnpublishVolume L req s = (res, s\<lparr>world := w'', trace := trace s @
        [MountPointCall (nup_TargetPath req), OsCmd (Unmount (nup_TargetPath req)), OsCmd (RemoveAll (nup_TargetPath req))]\<rparr>) \<and>
      (if \<exists>e. failed' = Some e \<and> \<not> os_IsNotExist e then \<exists>msg. res = Fail (StatusErr Internal msg) else res = Ret ())"
  using assms by (cases failed; cases failed')
    (auto simp: NodeUnpublishVolume_def Let_def os_do_def mounter_IsLikelyNotMountPoint_def run_simps)

text \<open>A node whose mount points are busy.\<close>

definition busy_lib :: "sim lib" where
  "busy_lib = sim_lib\<lparr>osCommand := (\<lambda>c w. case c of
     Unmount _ \<Rightarrow> (Some (OsErr (OtherErrno 16) ''target is busy''), w) | _ \<Rightarrow> sim_os c w)\<rparr>"

theorem NodeUnstageVolume_always_removes_witness:
  "\<exists>cs. trace (snd (NodeUnstageVolume busy_lib \<lparr>nu_VolumeId = ''a:p/g/v'', nu_StagingTargetPath = ''/stage''\<rparr>
      (mounted_process []))) = trace (mounted_process []) @ cs @ [OsCmd (RemoveAll ''/stage'')]"
  using NodeUnstageVolume_always_removes [of "\<lparr>nu_VolumeId = ''a:p/g/v'', nu_StagingTargetPath = ''/stage''\<rparr>"]
  by simp

theorem NodeUnpublishVolume_keeps_mounted_witness:
  "\<exists>msg. fst (NodeUnpublishVolume busy_lib \<lparr>nup_VolumeId = ''a:p/g/v'', nup_TargetPath = ''/stage''\<rparr>
      (mounted_process [])) = Fail (StatusErr Internal msg)"
proof -
  let ?s = "mounted_process []" and ?e = "OsErr (OtherErrno 16) ''target is busy''"
    and ?r = "\<lparr>nup_VolumeId = ''a:p/g/v'', nup_TargetPath = ''/stage''\<rparr>"
  have "nup_VolumeId ?r \<noteq> []" "nup_TargetPath ?r \<noteq> []" by simp_all
  moreover have "IsLikelyNotMountPoint busy_lib (nup_TargetPath ?r) (world ?s) = ((False, None), world ?s)"
    by (simp add: busy_lib_def device_eval sim_defs)
  moreover have "osCommand busy_lib (Unmount (nup_TargetPath ?r)) (world ?s) = (Some ?e, world ?s)"
    by (simp add: busy_lib_def)
  moreover have "osCommand busy_lib (RemoveAll (nup_TargetPath ?r)) (world ?s) = (None, world ?s)"
    by (simp add: busy_lib_def)
  moreover have "\<not> strings_Contains (errText busy_lib ?e) ''not mounted''" by simp
  ultimately show ?thesis
    using NodeUnpublishVolume_keeps_mounted [of ?r busy_lib ?s "world ?s" "Some ?e" "world ?s" None "world ?s"] by auto
qed

section \<open>Mounting\<close>

text \<open>\<open>mountVolume\<close> is idempotent: on a path that is a mount point already it succeeds without mounting
  and without changing the permissions; otherwise a success means that the device was mounted there, with the
  given type and options, and the permissions were set after it.\<close>

theorem mountVolume_once:
  "case mountVolume L dev path fs opts perm s of
     (Ret _, t) \<Rightarrow> (if fst (IsLikelyNotMountPoint L path (world s)) = (False, None)
       then trace t = trace s @ [MountPointCall path]
       else \<exists>cs. trace t = trace s @ cs @ [OsCmd (MountFs dev path fs opts), OsCmd (Chmod path perm)])
   | (Fail e, t) \<Rightarrow> fst (IsLikelyNotMountPoint L path (world s)) \<noteq> (False, None)
   | _ \<Rightarrow> False"
proof -
  obtain nm err w where p: "IsLikelyNotMountPoint L path (world s) = ((nm, err), w)" by (metis prod.exhaust)
  show ?thesis
    by (cases err; cases nm)
      (auto simp: mountVolume_def mounter_IsLikelyNotMountPoint_def os_do_def run_simps p
        split: prod.splits option.splits outcome.splits if_splits)
qed

end
