(* ===== verification/NodePublishProps.thy ===== *)
theory NodePublishProps
  imports NodeStageProps
begin

text \<open>
  Properties of publishing a staged volume: what may be changed on the node and where.
\<close>

section \<open>Publishing\<close>



lemma keeps_case_access [keeps_cases]:
  "(x = AccessBlock \<Longrightarrow> keeps R a) \<Longrightarrow> (x = AccessUnset \<Longrightarrow> keeps R b) \<Longrightarrow> (\<And>m. x = AccessMount m \<Longrightarrow> keeps R (f m)) \<Longrightarrow>
    keeps R (case x of AccessBlock \<Rightarrow> a | AccessMount m \<Rightarrow> f m | AccessUnset \<Rightarrow> b)"
  by (cases x) simp_all


text \<open>A raw block volume is published writable even when the request asks for a read-only one.\<close>

theorem NodePublishVolume_block_ignores_readonly:
  "NodePublishVolume L (req\<lparr>np_VolumeCapability := Some \<lparr>vc_AccessMode = m, vc_AccessType = AccessBlock\<rparr>,
     np_Readonly := True\<rparr>) =
   NodePublishVolume L (req\<lparr>np_VolumeCapability := Some \<lparr>vc_AccessMode = m, vc_AccessType = AccessBlock\<rparr>,
     np_Readonly := False\<rparr>)"
  by (simp add: NodePublishVolume_def Let_def)

text \<open>A capability that names neither a block device nor a mount is published with success although
  nothing is made available: no command is run and nothing is mounted.\<close>

theorem NodePublishVolume_without_type_succeeds:
  assumes "np_VolumeId req \<noteq> []" and "np_StagingTargetPath req \<noteq> []" and "np_TargetPath req \<noteq> []"
    and "np_VolumeCapability req = Some cap" and "vc_AccessType cap = AccessUnset"
    and "GetMountPointPermissions (np_VolumeContext req) = Inr perm"
    and "osStat L (np_TargetPath req) (world s) = (Inr m, w)"
  shows "NodePublishVolume L req s = (Ret (), s\<lparr>world := w, trace := trace s @ [StatCall (np_TargetPath req)]\<rparr>)"
  using assms by (simp add: NodePublishVolume_def Let_def os_Stat_def run_simps)

theorem NodePublishVolume_without_type_succeeds_witness:
  "\<exists>t. NodePublishVolume sim_lib \<lparr>np_VolumeId = ''a:p/g/v'', np_StagingTargetPath = ''/s'', np_TargetPath = ''/stage'',
     np_VolumeCapability = Some \<lparr>vc_AccessMode = None, vc_AccessType = AccessUnset\<rparr>, np_VolumeContext = [],
     np_Readonly = False\<rparr> (mounted_process []) = (Ret (), t)"
proof -
  let ?r = "\<lparr>np_VolumeId = ''a:p/g/v'', np_StagingTargetPath = ''/s'', np_TargetPath = ''/stage'',
     np_VolumeCapability = Some \<lparr>vc_AccessMode = None, vc_AccessType = AccessUnset\<rparr>, np_VolumeContext = [],
     np_Readonly = False\<rparr>"
  have "GetMountPointPermissions (np_VolumeContext ?r) = Inr DefaultMountPointPermissions"
    by (simp add: GetMountPointPermissions_def get_str_def)
  moreover have "osStat sim_lib (np_TargetPath ?r) (world (mounted_process [])) = (Inr 1, world (mounted_process []))"
    by (simp add: device_eval sim_defs)
  ultimately show ?thesis
    using NodePublishVolume_without_type_succeeds [of ?r _ _ sim_lib "mounted_process []"] by fastforce
qed

end
