(* ===== verification/ControllerSnapshots.thy ===== *)
theory ControllerSnapshots
  imports ControllerVolumes
begin

text \<open>
  Snapshots in \<open>pkg/driver/controllerServer.go\<close>: \<open>CreateSnapshot\<close>, \<open>DeleteSnapshot\<close> and the three
  ways of \<open>ListSnapshots\<close> (one snapshot, the snapshots of a volume, all of them), with the paging
  of the listing. \<open>MaxEntries\<close> is an \<open>int32\<close>, kept as a word because the code compares it with a
  length converted to \<open>int32\<close>.
\<close>

section \<open>Requests and responses\<close>

record CreateSnapshotRequest =
  cs_SourceVolumeId :: string
  cs_Name :: string

record csi_Snapshot =
  sn_SnapshotId :: string
  sn_SourceVolumeId :: string
  sn_CreationTime :: int
  sn_ReadyToUse :: bool

record ListSnapshotsRequest =
  ls_SnapshotId :: string
  ls_SourceVolumeId :: string
  ls_StartingToken :: string
  ls_MaxEntries :: "32 word"

record ListSnapshotsResponse =
  lr_Entries :: "csi_Snapshot list"
  lr_NextToken :: string

section \<open>CreateSnapshot\<close>

text \<open>The error of \<open>CreateSnapshotOnNS\<close> is nil where the code asks whether it means "already
  exists"; both answers are the same response.\<close>

definition CreateSnapshot :: "'w lib \<Rightarrow> CreateSnapshotRequest \<Rightarrow> ('w st, csi_Snapshot) M" where
  "CreateSnapshot L req =
     attempt (ctrl_refreshConfig L [])
       (\<lambda>e. throw (StatusErr FailedPrecondition (cannot_use_config L e))) (\<lambda>_.
     if length (cs_SourceVolumeId req) = 0 then
       throw (StatusErr InvalidArgument ''Snapshot source volume ID must be provided'')
     else case two (strings_Split (cs_SourceVolumeId req) '':'') of
       None \<Rightarrow> throw (StatusErr InvalidArgument (''VolumeId is in wrong format: '' @ cs_SourceVolumeId req))
     | Some (configName, volumePath) \<Rightarrow>
     if length (cs_Name req) = 0 then
       throw (StatusErr InvalidArgument ''Snapshot name must be provided'')
     else case three (strings_Split volumePath ''/'') of
       None \<Rightarrow> throw (StatusErr InvalidArgument (''Got wrong volumeId: '' @ cs_SourceVolumeId req))
     | Some (p0, p1, _) \<Rightarrow>
     bind (resolveNS L \<lparr>rp_volumeGroup = strings_Join [p0, p1] ''/'', rp_zone = [],
                        rp_configName = configName\<rparr>) (\<lambda>r.
     let snapshotPath = volumePath @ ''@'' @ cs_Name req in
     bind (CreateSnapshotOnNS L (rr_nsProvider r) volumePath (cs_Name req)) (\<lambda>created.
     ret \<lparr>sn_SnapshotId = configName @ '':'' @ snapshotPath,
          sn_SourceVolumeId = cs_SourceVolumeId req,
          sn_CreationTime = snap_CreationTime created,
          sn_ReadyToUse = True\<rparr>)))"

section \<open>DeleteSnapshot\<close>

text \<open>From the resolved provider on.\<close>

definition destroy_snapshot_on :: "'w lib \<Rightarrow> provider option \<Rightarrow> string \<Rightarrow> ('w st, unit) M" where
  "destroy_snapshot_on L nsProvider snapshotPath =
     attempt (ns_do L nsProvider (DestroySnapshotCmd snapshotPath))
       (\<lambda>err.
         if \<not> IsNotExistNefError L err then
           let message = ''Failed to delete snapshot '' @ sq snapshotPath @
             (if IsBusyNefError L err then '', it has dependent filesystem'' else [])
           in throw (StatusErr Internal (message @ '': '' @ errText L err))
         else ret ())
       ret"

definition DeleteSnapshot :: "'w lib \<Rightarrow> string \<Rightarrow> ('w st, unit) M" where
  "DeleteSnapshot L snapshotId =
     attempt (ctrl_refreshConfig L [])
       (\<lambda>e. throw (StatusErr FailedPrecondition (cannot_use_config L e))) (\<lambda>_.
     if length snapshotId = 0 then
       throw (StatusErr InvalidArgument ''Snapshot ID must be provided'')
     else case two (strings_Split snapshotId ''@'') of
       None \<Rightarrow> ret ()
     | Some (volume, snapshot) \<Rightarrow>
     case two (strings_Split volume '':'') of
       None \<Rightarrow> throw (StatusErr InvalidArgument (''VolumeId is in wrong format: '' @ volume))
     | Some (configName, volumePath) \<Rightarrow>
     case three (strings_Split volumePath ''/'') of
       None \<Rightarrow> throw (StatusErr InvalidArgument (''Got wrong volume: '' @ volume))
     | Some (p0, p1, _) \<Rightarrow>
     attempt (resolveNS L \<lparr>rp_volumeGroup = strings_Join [p0, p1] ''/'', rp_zone = [],
                           rp_configName = configName\<rparr>)
       (not_found_ok L ())
       (\<lambda>r. destroy_snapshot_on L (rr_nsProvider r) (strings_Join [volumePath, snapshot] ''@'')))"

section \<open>ListSnapshots\<close>

definition convertNSSnapshotToCSISnapshot :: "ns_Snapshot \<Rightarrow> string \<Rightarrow> csi_Snapshot" where
  "convertNSSnapshotToCSISnapshot s configName =
     \<lparr>sn_SnapshotId = configName @ '':'' @ snap_Path s,
      sn_SourceVolumeId = configName @ '':'' @ snap_Parent s,
      sn_CreationTime = snap_CreationTime s,
      sn_ReadyToUse = True\<rparr>"

definition no_snapshots :: ListSnapshotsResponse where
  "no_snapshots = \<lparr>lr_Entries = [], lr_NextToken = []\<rparr>"

text \<open>The loop of \<open>getVolumeSnapshotList\<close>: \<open>startingToken\<close> is cleared at the snapshot it names;
  \<open>acc\<close> are the entries so far.\<close>

fun snapshot_page :: "string \<Rightarrow> 32 word \<Rightarrow> string \<Rightarrow> csi_Snapshot list \<Rightarrow> ns_Snapshot list \<Rightarrow>
    ListSnapshotsResponse" where
  "snapshot_page configName maxEntries startingToken acc [] = \<lparr>lr_Entries = acc, lr_NextToken = []\<rparr>"
| "snapshot_page configName maxEntries startingToken acc (s # ss) =
     (let token = (if snap_Path s = startingToken then [] else startingToken) in
      if token \<noteq> [] then snapshot_page configName maxEntries token acc ss
      else
        let acc' = acc @ [convertNSSnapshotToCSISnapshot s configName] in
        if maxEntries \<noteq> 0 \<and> (of_nat (length acc') :: 32 word) = maxEntries \<and> ss \<noteq> [] then
          \<lparr>lr_Entries = acc', lr_NextToken = snap_Path (hd ss)\<rparr>
        else snapshot_page configName maxEntries token acc' ss)"

text \<open>
  In the branch for an id with a colon the code declares a second variable \<open>params\<close>; the one
  that is resolved afterwards stays empty.
\<close>

definition getVolumeSnapshotList ::
    "'w lib \<Rightarrow> string \<Rightarrow> ListSnapshotsRequest \<Rightarrow> ('w st, ListSnapshotsResponse) M" where
  "getVolumeSnapshotList L volumeId req =
     bind (case two (strings_Split volumeId '':'') of
             Some (configName, volumePath) \<Rightarrow>
               (if length (strings_Split volumePath ''/'') \<noteq> 3 then
                  throw (StatusErr InvalidArgument (''Got wrong volume: '' @ volumePath))
                else ret (volumePath, no_params))
           | None \<Rightarrow> ret (volumeId, no_params\<lparr>rp_volumeGroup := volumeId\<rparr>)) (\<lambda>(volumePath, params).
     attempt (resolveNS L params)
       (\<lambda>_. ret no_snapshots)
       (\<lambda>r.
         attempt (ns_GetSnapshots L (rr_nsProvider r) volumePath True)
           (\<lambda>err. throw (StatusErr Internal (''Cannot get snapshot list for '' @ sq volumePath @ '': '' @
              errText L err)))
           (\<lambda>snapshots. ret (snapshot_page (rr_configName r) (ls_MaxEntries req) (ls_StartingToken req) []
              snapshots))))"

text \<open>\<open>splittedSnapshotId[1]\<close> is read without a length check.\<close>

definition getSnapshotListWithSingleSnapshot ::
    "'w lib \<Rightarrow> string \<Rightarrow> ('w st, ListSnapshotsResponse) M" where
  "getSnapshotListWithSingleSnapshot L snapshotId =
     (case two (strings_Split snapshotId ''@'') of
        None \<Rightarrow> ret no_snapshots
      | Some (s0, s1) \<Rightarrow>
     case strings_Split s0 '':'' of
        configName # volumePath # _ \<Rightarrow>
          (case three (strings_Split volumePath ''/'') of
             None \<Rightarrow> throw (StatusErr InvalidArgument (''Got wrong volume: '' @ volumePath))
           | Some (p0, p1, _) \<Rightarrow>
               attempt (resolveNS L \<lparr>rp_volumeGroup = strings_Join [p0, p1] ''/'', rp_zone = [],
                                     rp_configName = configName\<rparr>)
                 (not_found_ok L no_snapshots)
                 (\<lambda>r.
                   let snapshotPath = volumePath @ ''@'' @ s1 in
                   attempt (ns_GetSnapshot L (rr_nsProvider r) snapshotPath)
                     (\<lambda>err. if IsNotExistNefError L err then ret no_snapshots
                            else throw (StatusErr Internal (''Cannot get snapshot '' @ sq snapshotPath @
                              '' for snapshot list: '' @ errText L err)))
                     (\<lambda>snapshot. ret (no_snapshots\<lparr>lr_Entries :=
                        [convertNSSnapshotToCSISnapshot snapshot configName]\<rparr>))))
      | _ \<Rightarrow> panic)"

text \<open>The loop over all configurations. The error of a listing is dropped and its nil response is
  read.\<close>

fun list_all_snapshots :: "'w lib \<Rightarrow> ListSnapshotsRequest \<Rightarrow> csi_Snapshot list \<Rightarrow>
    (string \<times> NsData) list \<Rightarrow> ('w st, ListSnapshotsResponse) M" where
  "list_all_snapshots L req acc [] = ret \<lparr>lr_Entries = acc, lr_NextToken = []\<rparr>"
| "list_all_snapshots L req acc ((name, cfg) # es) =
     attempt (getVolumeSnapshotList L (DefaultVolumeGroup cfg) req)
       (\<lambda>_. panic)
       (\<lambda>resp.
         let acc' = acc @ lr_Entries resp in
         if length (lr_NextToken resp) > 0 then
           ret \<lparr>lr_Entries = acc', lr_NextToken = lr_NextToken resp\<rparr>
         else list_all_snapshots L req acc' es)"

definition ListSnapshots :: "'w lib \<Rightarrow> ListSnapshotsRequest \<Rightarrow> ('w st, ListSnapshotsResponse) M" where
  "ListSnapshots L req =
     attempt (ctrl_refreshConfig L [])
       (\<lambda>e. throw (StatusErr FailedPrecondition (cannot_use_config L e))) (\<lambda>_.
     if ls_SnapshotId req \<noteq> [] then getSnapshotListWithSingleSnapshot L (ls_SnapshotId req)
     else if ls_SourceVolumeId req \<noteq> [] then getVolumeSnapshotList L (ls_SourceVolumeId req) req
     else
       bind (gets (\<lambda>s. NsMap (conf s))) (\<lambda>m.
       bind (goRange L m) (list_all_snapshots L req [])))"

end
