(* ===== verification/ControllerSnapshotProps.thy ===== *)
theory ControllerSnapshotProps
  imports ControllerSnapshots ControllerVolumeProps
begin

text \<open>
  Properties of the snapshot handlers of \<open>ControllerSnapshots\<close>.

  The locale \<open>paged_listing\<close> is the contract of a listing in pages; it is interpreted on the page
  loop of \<open>getVolumeSnapshotList\<close>. Then the uniqueness of snapshot names within a group
  (\<open>snapshot_contract\<close>), the round trip of snapshot ids, deletion, and what the listings do with
  ids and errors.
\<close>

section \<open>Paging\<close>

text \<open>
  The contract of a paged listing: the first page is a prefix of the list, the token of the next
  page is the key of the first item left out (or empty when none is), and a page that starts at a
  key is the first page of the list from that item on. What a client gets that follows the tokens
  is then the whole list, each item once.
\<close>

fun all_pages :: "nat \<Rightarrow> (string \<Rightarrow> 'b list \<times> string) \<Rightarrow> string \<Rightarrow> 'b list" where
  "all_pages 0 page tok = []"
| "all_pages (Suc n) page tok =
     (case page tok of (es, next) \<Rightarrow> es @ (if next = [] then [] else all_pages n page next))"

locale paged_listing =
  fixes key :: "'a \<Rightarrow> string" and conv :: "'a \<Rightarrow> 'b"
    and page :: "string \<Rightarrow> 'a list \<Rightarrow> 'b list \<times> string"
  assumes first_page: "\<exists>n. page [] xs = (map conv (take n xs), if n < length xs then key (xs ! n) else []) \<and>
      (xs \<noteq> [] \<longrightarrow> 0 < n)"
    and page_from: "distinct (map key (ys @ x # zs)) \<Longrightarrow> key x \<noteq> [] \<Longrightarrow>
      page (key x) (ys @ x # zs) = page [] (x # zs)"
begin

lemma all_pages_from:
  assumes "distinct (map key (ys @ x # zs))" and "\<forall>y \<in> set (ys @ x # zs). key y \<noteq> []"
    and "length (x # zs) \<le> fuel"
  shows "all_pages fuel (\<lambda>tok. page tok (ys @ x # zs)) (key x) = map conv (x # zs)"
  using assms
proof (induction fuel arbitrary: ys x zs)
  case 0
  then show ?case by simp
next
  case (Suc fuel)
  have p: "page (key x) (ys @ x # zs) = page [] (x # zs)"
    using Suc.prems by (intro page_from) auto
  obtain n where n: "page [] (x # zs) =
      (map conv (take n (x # zs)), if n < length (x # zs) then key ((x # zs) ! n) else [])" "0 < n"
    using first_page [of "x # zs"] by auto
  show ?case
  proof (cases "n < length (x # zs)")
    case False
    then show ?thesis using p n by simp
  next
    case True
    let ?ys = "ys @ take n (x # zs)" and ?x = "(x # zs) ! n" and ?zs = "drop (Suc n) (x # zs)"
    have split: "x # zs = take n (x # zs) @ ?x # ?zs" using True by (rule id_take_nth_drop)
    then have l: "ys @ x # zs = ?ys @ ?x # ?zs" by (metis append.assoc)
    have "all_pages fuel (\<lambda>tok. page tok (?ys @ ?x # ?zs)) (key ?x) = map conv (?x # ?zs)"
    proof (rule Suc.IH)
      show "distinct (map key (?ys @ ?x # ?zs))" using Suc.prems(1) l by argo
      show "\<forall>y \<in> set (?ys @ ?x # ?zs). key y \<noteq> []" using Suc.prems(2) l by argo
      show "length (?x # ?zs) \<le> fuel" using Suc.prems(3) True n(2) by simp
    qed
    moreover have "key ?x \<noteq> []" using Suc.prems(2) True by (auto simp: nth_Cons split: nat.splits)
    moreover have "map conv (x # zs) = map conv (take n (x # zs)) @ map conv (?x # ?zs)"
      by (metis map_append split)
    ultimately show ?thesis using True p n(1) l by simp
  qed
qed

lemma all_pages_complete:
  assumes "distinct (map key xs)" and "\<forall>y \<in> set xs. key y \<noteq> []" and "length xs < fuel"
  shows "all_pages fuel (\<lambda>tok. page tok xs) [] = map conv xs"
proof (cases fuel)
  case 0
  with assms show ?thesis by simp
next
  case (Suc m)
  obtain n where n: "page [] xs = (map conv (take n xs), if n < length xs then key (xs ! n) else [])"
      "xs \<noteq> [] \<longrightarrow> 0 < n" using first_page by blast
  show ?thesis
  proof (cases "n < length xs")
    case False
    then show ?thesis using n Suc by simp
  next
    case True
    have split: "xs = take n xs @ xs ! n # drop (Suc n) xs" using True by (rule id_take_nth_drop)
    have "all_pages m (\<lambda>tok. page tok (take n xs @ xs ! n # drop (Suc n) xs)) (key (xs ! n)) =
        map conv (xs ! n # drop (Suc n) xs)"
    proof (rule all_pages_from)
      show "distinct (map key (take n xs @ xs ! n # drop (Suc n) xs))" using assms(1) split by argo
      show "\<forall>y \<in> set (take n xs @ xs ! n # drop (Suc n) xs). key y \<noteq> []" using assms(2) split by argo
      show "length (xs ! n # drop (Suc n) xs) \<le> m" using assms(3) True n(2) Suc by auto
    qed
    then have "all_pages m (\<lambda>tok. page tok xs) (key (xs ! n)) = map conv (xs ! n # drop (Suc n) xs)"
      using split by simp
    moreover have "key (xs ! n) \<noteq> []" using assms(2) True by simp
    moreover have "map conv xs = map conv (take n xs) @ map conv (xs ! n # drop (Suc n) xs)"
      using split by (metis map_append)
    ultimately show ?thesis using Suc n(1) True by simp
  qed
qed

end

text \<open>The page of the driver, for an appliance name and a limit.\<close>

definition page_of :: "string \<Rightarrow> 32 word \<Rightarrow> string \<Rightarrow> ns_Snapshot list \<Rightarrow> csi_Snapshot list \<times> string" where
  "page_of cn limit tok ss =
     (lr_Entries (snapshot_page cn limit tok [] ss), lr_NextToken (snapshot_page cn limit tok [] ss))"

lemma snapshot_page_skip:
  "tok \<noteq> [] \<Longrightarrow> tok \<notin> snap_Path ` set ys \<Longrightarrow>
    snapshot_page cn limit tok acc (ys @ zs) = snapshot_page cn limit tok acc zs"
  by (induction ys) (auto simp: Let_def)

lemma snapshot_page_start:
  "snap_Path x = tok \<Longrightarrow> snapshot_page cn limit tok acc (x # zs) = snapshot_page cn limit [] acc (x # zs)"
  by (simp add: Let_def)

lemma snapshot_page_first:
  "\<exists>n. snapshot_page cn limit [] acc ss = \<lparr>lr_Entries = acc @ map (\<lambda>s. convertNSSnapshotToCSISnapshot s cn) (take n ss),
     lr_NextToken = (if n < length ss then snap_Path (ss ! n) else [])\<rparr> \<and> (ss \<noteq> [] \<longrightarrow> 0 < n)"
proof (induction ss arbitrary: acc)
  case Nil
  show ?case by (intro exI [of _ 0]) simp
next
  case (Cons s ss)
  let ?acc = "acc @ [convertNSSnapshotToCSISnapshot s cn]"
  show ?case
  proof (cases "limit \<noteq> 0 \<and> (of_nat (length ?acc) :: 32 word) = limit \<and> ss \<noteq> []")
    case True
    then show ?thesis
      by (intro exI [of _ 1]) (auto simp: Let_def hd_conv_nth)
  next
    case False
    from Cons obtain n where "snapshot_page cn limit [] ?acc ss =
        \<lparr>lr_Entries = ?acc @ map (\<lambda>s. convertNSSnapshotToCSISnapshot s cn) (take n ss),
         lr_NextToken = (if n < length ss then snap_Path (ss ! n) else [])\<rparr>" by blast
    with False show ?thesis
      by (intro exI [of _ "Suc n"]) (auto simp: Let_def)
  qed
qed

interpretation snapshots: paged_listing snap_Path "\<lambda>s. convertNSSnapshotToCSISnapshot s cn" "page_of cn limit"
  for cn limit
proof
  fix xs
  obtain n where "snapshot_page cn limit [] [] xs =
      \<lparr>lr_Entries = [] @ map (\<lambda>s. convertNSSnapshotToCSISnapshot s cn) (take n xs),
       lr_NextToken = (if n < length xs then snap_Path (xs ! n) else [])\<rparr>" "xs \<noteq> [] \<longrightarrow> 0 < n"
    using snapshot_page_first by blast
  then show "\<exists>n. page_of cn limit [] xs = (map (\<lambda>s. convertNSSnapshotToCSISnapshot s cn) (take n xs),
      if n < length xs then snap_Path (xs ! n) else []) \<and> (xs \<noteq> [] \<longrightarrow> 0 < n)"
    by (intro exI [of _ n]) (simp add: page_of_def)
next
  fix ys zs and x :: ns_Snapshot
  assume "distinct (map snap_Path (ys @ x # zs))" and "snap_Path x \<noteq> []"
  then show "page_of cn limit (snap_Path x) (ys @ x # zs) = page_of cn limit [] (x # zs)"
    unfolding page_of_def
    by (subst (1 2) snapshot_page_skip) (auto simp del: snapshot_page.simps simp add: snapshot_page_start)
qed

text \<open>C8: A client that follows the tokens of a snapshot listing gets every snapshot of the volume
  exactly once and in the order of the appliance, whatever the limit per page.\<close>

theorem snapshot_paging_complete:
  assumes "distinct (map snap_Path ss)" and "[] \<notin> snap_Path ` set ss" and "length ss < fuel"
  shows "all_pages fuel (\<lambda>tok. (lr_Entries (snapshot_page cn limit tok [] ss),
      lr_NextToken (snapshot_page cn limit tok [] ss))) [] =
    map (\<lambda>s. convertNSSnapshotToCSISnapshot s cn) ss"
  using snapshots.all_pages_complete [OF assms(1) _ assms(3), of cn limit] assms(2)
  by (force simp: page_of_def)

theorem snapshot_paging_complete_witness:
  "all_pages 4 (\<lambda>tok. (lr_Entries (snapshot_page ''a'' 1 tok [] (map snapshot_of [''v@1'', ''v@2'', ''v@3''])),
      lr_NextToken (snapshot_page ''a'' 1 tok [] (map snapshot_of [''v@1'', ''v@2'', ''v@3''])))) [] =
    map (\<lambda>s. convertNSSnapshotToCSISnapshot s ''a'') (map snapshot_of [''v@1'', ''v@2'', ''v@3''])"
  by (rule snapshot_paging_complete) (simp_all add: snapshot_of_def)

text \<open>A page never holds more entries than the limit, when one is given.\<close>

lemma snapshot_page_limit_acc:
  "limit \<noteq> 0 \<Longrightarrow> length acc < unat limit \<Longrightarrow>
    length (lr_Entries (snapshot_page cn limit tok acc ss)) \<le> unat limit"
proof (induction ss arbitrary: acc tok)
  case Nil
  then show ?case by simp
next
  case (Cons s ss)
  let ?tok = "if snap_Path s = tok then [] else tok"
  let ?acc = "acc @ [convertNSSnapshotToCSISnapshot s cn]"
  show ?case
  proof (cases "length ?acc = unat limit")
    case True
    then have "(of_nat (length ?acc) :: 32 word) = limit" by (simp add: word_unat_eq_iff)
    then show ?thesis using Cons True
      by (cases ss) (auto simp: Let_def)
  next
    case False
    then have "length ?acc < unat limit" using Cons.prems by simp
    moreover from this have "(of_nat (length ?acc) :: 32 word) \<noteq> limit"
      by (metis False le_unat_uoi less_or_eq_imp_le)
    ultimately show ?thesis using Cons by (auto simp: Let_def)
  qed
qed

theorem snapshot_page_limit:
  assumes "limit \<noteq> 0"
  shows "length (lr_Entries (snapshot_page cn limit tok [] ss)) \<le> unat limit"
  using assms by (intro snapshot_page_limit_acc) (simp_all add: unat_gt_0)

theorem snapshot_page_limit_witness:
  "length (lr_Entries (snapshot_page ''a'' 2 [] [] (map snapshot_of [''v@1'', ''v@2'', ''v@3'']))) \<le> unat (2 :: 32 word)"
  by (rule snapshot_page_limit) simp

section \<open>Names of snapshots\<close>

text \<open>
  What is relied on from the snapshot operations, in terms of the set of snapshots: a recursive
  listing of a group shows exactly the snapshots of the volumes \<open>below\<close> it; creating
  \<open>volume@name\<close> adds one snapshot with this parent and name or nothing; reading changes nothing.
\<close>

definition snapshot_contract ::
    "'w lib \<Rightarrow> provider \<Rightarrow> ('w \<Rightarrow> ns_Snapshot set) \<Rightarrow> (string \<Rightarrow> string \<Rightarrow> bool) \<Rightarrow> bool" where
  "snapshot_contract L p snaps below \<longleftrightarrow>
     (\<forall>g w r w'. GetSnapshots L p g True w = (r, w') \<longrightarrow> snaps w' = snaps w \<and>
        (case r of Inr ls \<Rightarrow> set ls = {s \<in> snaps w. below g (snap_Parent s)} | Inl e \<Rightarrow> True)) \<and>
     (\<forall>path w. snaps (snd (GetSnapshot L p path w)) = snaps w) \<and>
     (\<forall>v n w e w'. CHR ''@'' \<notin> set v \<longrightarrow> nsCommand L p (CreateSnapshotCmd (v @ ''@'' @ n)) w = (e, w') \<longrightarrow>
        (case e of
           None \<Rightarrow> \<exists>s. snap_Parent s = v \<and> snap_Name s = n \<and> snaps w' = insert s (snaps w)
         | Some d \<Rightarrow> snaps w' = snaps w))"

text \<open>Within a group no two volumes have a snapshot of the same name.\<close>

definition names_unique :: "(string \<Rightarrow> bool) \<Rightarrow> ns_Snapshot set \<Rightarrow> bool" where
  "names_unique inside S \<longleftrightarrow> (\<forall>s \<in> S. \<forall>s' \<in> S. inside (snap_Parent s) \<longrightarrow> inside (snap_Parent s') \<longrightarrow>
     snap_Name s = snap_Name s' \<longrightarrow> snap_Parent s = snap_Parent s')"

lemma foreign_snapshot_None:
  "foreign_snapshot v n ss = None \<longleftrightarrow> (\<forall>s \<in> set ss. snap_Name s = n \<longrightarrow> snap_Parent s = v)"
  by (induction ss) auto

lemma snapshot_contract_list:
  "snapshot_contract L p snaps below \<Longrightarrow> GetSnapshots L p g True w = (r, w') \<Longrightarrow> snaps w' = snaps w \<and>
    (case r of Inr ls \<Rightarrow> set ls = {s \<in> snaps w. below g (snap_Parent s)} | Inl e \<Rightarrow> True)"
  unfolding snapshot_contract_def by blast

lemma snapshot_contract_create:
  "snapshot_contract L p snaps below \<Longrightarrow> CHR ''@'' \<notin> set v \<Longrightarrow> nsCommand L p (CreateSnapshotCmd (v @ ''@'' @ n)) w = (e, w') \<Longrightarrow>
    (case e of
       None \<Rightarrow> \<exists>s. snap_Parent s = v \<and> snap_Name s = n \<and> snaps w' = insert s (snaps w)
     | Some d \<Rightarrow> snaps w' = snaps w)"
  unfolding snapshot_contract_def by blast

lemma names_unique_insert:
  "names_unique inside S \<Longrightarrow> (\<forall>s \<in> S. inside (snap_Parent s) \<longrightarrow> snap_Name s = snap_Name x \<longrightarrow>
    snap_Parent s = snap_Parent x) \<Longrightarrow> names_unique inside (insert x S)"
  by (auto simp: names_unique_def)

text \<open>What \<open>CreateSnapshotOnNS\<close> does to the set of snapshots.\<close>

lemma CreateSnapshotOnNS_adds:
  assumes "snapshot_contract L p snaps below" and "CHR ''@'' \<notin> set v"
    and "CreateSnapshotOnNS L (Some p) v n s = (res, t)"
  shows "snaps (world t) = snaps (world s) \<or>
    (\<exists>x. snap_Parent x = v \<and> snap_Name x = n \<and> snaps (world t) = insert x (snaps (world s)) \<and>
       (\<forall>s' \<in> snaps (world s). below (filepath_Dir v) (snap_Parent s') \<longrightarrow> snap_Name s' = n \<longrightarrow>
          snap_Parent s' = v))"
proof -
  obtain g w where g: "GetSnapshots L p (filepath_Dir v) True (world s) = (g, w)" by fastforce
  obtain e w1 where c: "nsCommand L p (CreateSnapshotCmd (v @ ''@'' @ n)) w = (e, w1)" by fastforce
  note gc = snapshot_contract_list [OF assms(1) g] and cc = snapshot_contract_create [OF assms(1,2) c]
  have q: "snaps (snd (GetSnapshot L p path w)) = snaps w" for path w
    using assms(1) by (simp add: snapshot_contract_def)
  show ?thesis
  proof (cases g)
    case (Inl d)
    with assms(3) g gc show ?thesis
      by (auto simp: CreateSnapshotOnNS_def ns_GetSnapshots_def run_simps Let_def)
  next
    case (Inr ls)
    show ?thesis
    proof (cases "foreign_snapshot v n ls")
      case (Some x)
      with assms(3) g gc Inr show ?thesis
        by (auto simp: CreateSnapshotOnNS_def ns_GetSnapshots_def run_simps Let_def)
    next
      case None
      obtain r w2 where r: "GetSnapshot L p (v @ ''@'' @ n) w1 = (r, w2)" by fastforce
      have "world t \<in> {w1, w2}"
        using assms(3) g c r Inr None
        by (cases e; cases r)
          (auto simp: CreateSnapshotOnNS_def ns_GetSnapshots_def ns_GetSnapshot_def run_simps Let_def split: if_splits)
      then have "snaps (world t) = snaps w1" using q [of "v @ ''@'' @ n" w1] r by auto
      then show ?thesis using cc gc Inr None
        by (cases e) (auto simp: foreign_snapshot_None)
    qed
  qed
qed

text \<open>\<open>CreateSnapshotOnNS\<close> keeps the names of snapshots unique within the group of the volume,
  as Kubernetes needs: if no two volumes of the group had a snapshot of the same name before,
  none have afterwards, whatever the outcome.\<close>

theorem CreateSnapshotOnNS_names_unique:
  assumes "snapshot_contract L p snaps below" and "CHR ''@'' \<notin> set v"
    and "names_unique (below (filepath_Dir v)) (snaps (world s))"
    and "CreateSnapshotOnNS L (Some p) v n s = (res, t)"
  shows "names_unique (below (filepath_Dir v)) (snaps (world t))"
  using CreateSnapshotOnNS_adds [OF assms(1,2,4)] assms(3)
  by (auto intro!: names_unique_insert)

lemma snapshot_of_append: "CHR ''@'' \<notin> set v \<Longrightarrow>
    snap_Parent (snapshot_of (v @ ''@'' @ n)) = v \<and> snap_Name (snapshot_of (v @ ''@'' @ n)) = n"
proof -
  assume "CHR ''@'' \<notin> set v"
  then have "\<And>x. x \<in> set v \<Longrightarrow> x \<noteq> CHR ''@''" by auto
  then show ?thesis by (simp add: snapshot_of_def takeWhile_append2 dropWhile_append2)
qed


lemma sim_snapshot_contract:
  "snapshot_contract sim_lib p (set \<circ> sim_snaps) (\<lambda>g v. prefix g v)"
  unfolding snapshot_contract_def
proof (intro conjI allI impI)
  fix v n w e w'
  assume v: "CHR ''@'' \<notin> set v" and c: "nsCommand sim_lib p (CreateSnapshotCmd (v @ ''@'' @ n)) w = (e, w')"
  show "case e of None \<Rightarrow> \<exists>s. snap_Parent s = v \<and> snap_Name s = n \<and> (set \<circ> sim_snaps) w' = insert s ((set \<circ> sim_snaps) w)
     | Some d \<Rightarrow> (set \<circ> sim_snaps) w' = (set \<circ> sim_snaps) w"
  proof (cases e)
    case None
    with c have "(set \<circ> sim_snaps) w' = insert (snapshot_of (v @ ''@'' @ n)) ((set \<circ> sim_snaps) w)"
      by (auto simp: sim_lib_def split: if_splits)
    with None snapshot_of_append [OF v, of n] show ?thesis by auto
  next
    case (Some d)
    with c show ?thesis by (auto simp: sim_lib_def split: if_splits)
  qed
qed (auto simp: sim_lib_def)

definition snap_world :: sim where
  "snap_world = mapped_world\<lparr>sim_snaps := [snapshot_of ''p/g/w@s'']\<rparr>"

theorem CreateSnapshotOnNS_names_unique_witness:
  "\<exists>res t. CreateSnapshotOnNS sim_lib (Some 0) ''p/g/v'' ''r''
      ((sim_process [(''a'', sim_data)] ''good'' 7)\<lparr>world := snap_world\<rparr>) = (res, t) \<and>
    length (sim_snaps (world t)) = 2 \<and> names_unique (prefix ''p/g'') (set (sim_snaps (world t)))"
proof -
  let ?s = "(sim_process [(''a'', sim_data)] ''good'' 7)\<lparr>world := snap_world\<rparr>"
  have dir: "filepath_Dir ''p/g/v'' = ''p/g''" by (simp add: filepath_Dir_def filepath_Clean_def)
  obtain res t where run: "CreateSnapshotOnNS sim_lib (Some 0) ''p/g/v'' ''r'' ?s = (res, t)"
    and l: "length (sim_snaps (world t)) = 2"
    by (simp add: CreateSnapshotOnNS_def dir ns_GetSnapshots_def ns_GetSnapshot_def run_simps sim_defs
        snap_world_def mapped_world_def Let_def)
  have "names_unique (prefix (filepath_Dir ''p/g/v'')) ((set \<circ> sim_snaps) (world ?s))"
    by (simp add: names_unique_def snap_world_def)
  from CreateSnapshotOnNS_names_unique [OF sim_snapshot_contract _ this run] run l dir
  show ?thesis by auto
qed

section \<open>Ids of snapshots\<close>

abbreviation ctrl_refreshed :: "'w lib \<Rightarrow> 'w st \<Rightarrow> 'w st \<Rightarrow> bool" where
  "ctrl_refreshed L s u \<equiv> ctrl_refreshConfig L [] s = (Ret (), u)"

lemma CreateSnapshot_Ret:
  assumes "CreateSnapshot L req s = (Ret resp, t)"
  obtains cn v a b n where "strings_Split (cs_SourceVolumeId req) '':'' = [cn, v]"
    and "strings_Split v ''/'' = [a, b, n]" and "cs_Name req \<noteq> []"
    and "sn_SnapshotId resp = cn @ '':'' @ v @ ''@'' @ cs_Name req"
    and "sn_SourceVolumeId resp = cs_SourceVolumeId req"
  using assms by (auto simp: CreateSnapshot_def ran Let_def split: if_splits option.splits)

text \<open>C18: The id of a created snapshot leads back to the snapshot, when neither the id of the volume nor the
  name holds an at sign: a delete request with the id then resolves the
  configuration and group of the source volume and destroys exactly \<open>volume@name\<close>. With an at sign in one of them
  it does not: the delete request succeeds, once the configuration is read, without asking any appliance, and
  the snapshot stays.\<close>

theorem CreateSnapshot_id_roundtrip:
  assumes "CreateSnapshot L req s = (Ret resp, t)"
  shows "\<exists>cn v a b n. cs_SourceVolumeId req = cn @ '':'' @ v \<and> v = a @ ''/'' @ b @ ''/'' @ n \<and>
    DeleteSnapshot L' (sn_SnapshotId resp) =
    attempt (ctrl_refreshConfig L' [])
      (\<lambda>e. throw (StatusErr FailedPrecondition (cannot_use_config L' e))) (\<lambda>_.
      if CHR ''@'' \<in> set (cs_SourceVolumeId req @ cs_Name req) then ret ()
      else
        attempt (resolveNS L' \<lparr>rp_volumeGroup = a @ ''/'' @ b, rp_zone = [], rp_configName = cn\<rparr>)
          (not_found_ok L' ())
          (\<lambda>r. destroy_snapshot_on L' (rr_nsProvider r) (v @ ''@'' @ cs_Name req)))"
proof (rule CreateSnapshot_Ret [OF assms], goal_cases)
  case (1 cn v a b n)
  from 1(1) have i: "cs_SourceVolumeId req = cn @ '':'' @ v" by (simp add: strings_Split_two)
  from 1(2) have p: "v = a @ ''/'' @ b @ ''/'' @ n" by (simp add: strings_Split_three)
  have ne: "sn_SnapshotId resp \<noteq> []" using 1(4) by simp
  show ?case
  proof (cases "CHR ''@'' \<in> set (cs_SourceVolumeId req @ cs_Name req)")
    case True
    have "count_list (cs_SourceVolumeId req @ cs_Name req) (CHR ''@'') \<noteq> 0"
      using True by (simp add: count_list_0_iff)
    then have "length (strings_Split (sn_SnapshotId resp) ''@'') \<noteq> 2"
      using i by (simp add: 1(4) strings_Split_count)
    then have "two (strings_Split (sn_SnapshotId resp) ''@'') = None" by (simp add: two_None)
    with ne True i p show ?thesis
      by (intro exI [of _ cn] exI [of _ v] exI [of _ a] exI [of _ b] exI [of _ n]) (simp add: DeleteSnapshot_def)
  next
    case False
    then have "strings_Split (sn_SnapshotId resp) ''@'' = [cs_SourceVolumeId req, cs_Name req]"
      using 1(4) i by (simp add: strings_Split_two)
    with False ne 1(1,2) i p show ?thesis
      by (intro exI [of _ cn] exI [of _ v] exI [of _ a] exI [of _ b] exI [of _ n]) (simp add: DeleteSnapshot_def)
  qed
qed

lemmas snapshot_eval = CreateSnapshot_def CreateSnapshotOnNS_def create_eval config_eval
  resolve_named_def ctrl_resolver_def ns_GetSnapshots_def ns_GetSnapshot_def sim_defs snap_world_def
  mapped_world_def

lemma sim_dir: "filepath_Dir ''p/g/v'' = ''p/g''"
  by (simp add: filepath_Dir_def filepath_Clean_def)

theorem CreateSnapshot_id_roundtrip_witness:
  "\<exists>resp t cn v a b n. CreateSnapshot sim_lib \<lparr>cs_SourceVolumeId = ''a:p/g/v'', cs_Name = ''r''\<rparr>
      ((sim_process [(''a'', sim_data)] ''good'' 7)\<lparr>world := snap_world\<rparr>) = (Ret resp, t) \<and>
    ''a:p/g/v'' = cn @ '':'' @ v \<and> v = a @ ''/'' @ b @ ''/'' @ n \<and>
    DeleteSnapshot sim_lib (sn_SnapshotId resp) =
    attempt (ctrl_refreshConfig sim_lib [])
      (\<lambda>e. throw (StatusErr FailedPrecondition (cannot_use_config sim_lib e))) (\<lambda>_.
      attempt (resolveNS sim_lib \<lparr>rp_volumeGroup = a @ ''/'' @ b, rp_zone = [], rp_configName = cn\<rparr>)
        (not_found_ok sim_lib ())
        (\<lambda>r. destroy_snapshot_on sim_lib (rr_nsProvider r) (v @ ''@'' @ ''r'')))"
proof -
  let ?req = "\<lparr>cs_SourceVolumeId = ''a:p/g/v'', cs_Name = ''r''\<rparr>"
  obtain resp t where run: "CreateSnapshot sim_lib ?req
      ((sim_process [(''a'', sim_data)] ''good'' 7)\<lparr>world := snap_world\<rparr>) = (Ret resp, t)"
    by (simp add: snapshot_eval sim_dir)
  have "CHR ''@'' \<notin> set (cs_SourceVolumeId ?req @ cs_Name ?req)" by simp
  with CreateSnapshot_id_roundtrip [OF run, of sim_lib] run show ?thesis
    unfolding CreateSnapshotRequest.simps by (simp only: if_False) blast
qed

lemma ctrl_refresh_view: "lookups_keep L f \<Longrightarrow> keeps (same (view f)) (ctrl_refreshConfig L secret)"
  unfolding ctrl_refreshConfig_def ctrl_refresh_step_def
  by (intro view_rules keeps_cases Refresh_view) simp_all

text \<open>What is relied on from the destruction of a snapshot.\<close>

definition snapshot_destroy_contract :: "'w lib \<Rightarrow> ('w \<Rightarrow> ns_Snapshot set) \<Rightarrow> bool" where
  "snapshot_destroy_contract L snaps \<longleftrightarrow>
     (\<forall>p path w e w'. nsCommand L p (DestroySnapshotCmd path) w = (e, w') \<longrightarrow>
        (case e of
           None \<Rightarrow> snaps w' = {s \<in> snaps w. snap_Path s \<noteq> path}
         | Some d \<Rightarrow> snaps w' = snaps w \<and> (IsNotExistNefError L d \<longrightarrow> (\<forall>s \<in> snaps w. snap_Path s \<noteq> path))))"

lemma destroy_snapshot_on_removes:
  assumes "snapshot_destroy_contract L snaps" and "destroy_snapshot_on L p path s = (Ret (), t)"
  shows "snaps (world t) = {x \<in> snaps (world s). snap_Path x \<noteq> path}"
proof -
  from assms(2) obtain q where q: "p = Some q"
    by (cases p) (auto simp: destroy_snapshot_on_def run_simps)
  obtain e w where c: "nsCommand L q (DestroySnapshotCmd path) (world s) = (e, w)" by fastforce
  with assms(1) have law: "case e of
           None \<Rightarrow> snaps w = {x \<in> snaps (world s). snap_Path x \<noteq> path}
         | Some d \<Rightarrow> snaps w = snaps (world s) \<and>
             (IsNotExistNefError L d \<longrightarrow> (\<forall>s' \<in> snaps (world s). snap_Path s' \<noteq> path))"
    unfolding snapshot_destroy_contract_def by blast
  have t: "world t = w" and ok: "e = None \<or> IsNotExistNefError L (the e)"
    using assms(2) c q by (cases e; auto simp: destroy_snapshot_on_def run_simps Let_def split: if_splits)+
  show ?thesis
  proof (cases e)
    case None
    then show ?thesis using law t by simp
  next
    case (Some d)
    then have "snaps w = snaps (world s)" and "\<forall>x \<in> snaps (world s). snap_Path x \<noteq> path"
      using law ok by simp_all
    then show ?thesis unfolding t by blast
  qed
qed

text \<open>C27: Deleting a snapshot is idempotent and exact: when a delete request with an id
  \<open>config:pool/group/volume@name\<close> succeeds, the snapshot is gone, whether or not it was there, and
  every other snapshot is as before; unless the group could not be resolved and the error was
  classified as "not found".\<close>

theorem DeleteSnapshot_removes:
  assumes "lookups_keep L snaps" and "snapshot_destroy_contract L snaps"
    and "strings_Split i ''@'' = [vol, n]" and "strings_Split vol '':'' = [cn, v]"
    and "strings_Split v ''/'' = [a, b, d]"
    and "DeleteSnapshot L i s = (Ret (), t)"
  shows "snaps (world t) = {x \<in> snaps (world s). snap_Path x \<noteq> v @ ''@'' @ n} \<or>
    snaps (world t) = snaps (world s) \<and>
      (\<exists>e u. ctrl_refreshConfig L [] s = (Ret (), u) \<and>
         resolveNS L \<lparr>rp_volumeGroup = a @ ''/'' @ b, rp_zone = [], rp_configName = cn\<rparr> u = (Fail e, t) \<and>
         statusCode L e = NotFound)"
proof -
  let ?ps = "\<lparr>rp_volumeGroup = a @ ''/'' @ b, rp_zone = [], rp_configName = cn\<rparr>"
  have "i \<noteq> []" using assms(3) by auto
  with assms(3-6) obtain u where c: "ctrl_refreshConfig L [] s = (Ret (), u)"
    and d: "attempt (resolveNS L ?ps) (not_found_ok L ())
        (\<lambda>r. destroy_snapshot_on L (rr_nsProvider r) (v @ ''@'' @ n)) u = (Ret (), t)"
    by (auto simp: DeleteSnapshot_def attempt_Ret_iff [of "ctrl_refreshConfig L []"] throw_run_iff)
  have vu: "snaps (world u) = snaps (world s)"
    by (rule view_D [OF ctrl_refresh_view [OF assms(1)] c])
  from d show ?thesis
  proof (subst (asm) attempt_Ret_iff, elim disjE exE conjE)
    fix r u' assume r: "resolveNS L ?ps u = (Ret r, u')"
      and del: "destroy_snapshot_on L (rr_nsProvider r) (v @ ''@'' @ n) u' = (Ret (), t)"
    have "snaps (world u') = snaps (world s)" using view_D [OF resolveNS_view [OF assms(1)] r] vu by simp
    with destroy_snapshot_on_removes [OF assms(2) del] show ?thesis by simp
  next
    fix e u' assume r: "resolveNS L ?ps u = (Fail e, u')" and k: "not_found_ok L () e u' = (Ret (), t)"
    have "snaps (world u') = snaps (world s)" using view_D [OF resolveNS_view [OF assms(1)] r] vu by simp
    moreover from k have "t = u'" "statusCode L e = NotFound"
      by (auto simp: not_found_ok_def ran split: if_splits)
    ultimately show ?thesis using r c by blast
  qed
qed

theorem DeleteSnapshot_removes_witness:
  "\<exists>t. DeleteSnapshot sim_lib ''a:p/g/w@s'' ((sim_process [(''a'', sim_data)] ''good'' 7)\<lparr>world := snap_world\<rparr>) =
      (Ret (), t) \<and> set (sim_snaps (world t)) = {}"
proof -
  let ?s = "(sim_process [(''a'', sim_data)] ''good'' 7)\<lparr>world := snap_world\<rparr>"
  obtain t where run: "DeleteSnapshot sim_lib ''a:p/g/w@s'' ?s = (Ret (), t)" and l: "length (sim_snaps (world t)) = 0"
    by (simp add: DeleteSnapshot_def destroy_snapshot_on_def snapshot_eval)
  have c: "snapshot_destroy_contract sim_lib (set \<circ> sim_snaps)"
    by (auto simp: snapshot_destroy_contract_def sim_lib_def nef_kind_def enoent_def split: option.splits if_splits)
  have "strings_Split ''a:p/g/w@s'' ''@'' = [''a:p/g/w'', ''s'']" "strings_Split ''a:p/g/w'' '':'' = [''a'', ''p/g/w'']"
    "strings_Split ''p/g/w'' ''/'' = [''p'', ''g'', ''w'']" by simp_all
  from DeleteSnapshot_removes [OF sim_lookups_keep c this run] run l
  show ?thesis by auto
qed

section \<open>Listing\<close>

text \<open>Listing the snapshots of a volume ignores which appliance the volume is on: the
  configuration name in the source volume id is not used, and neither is its group. Two ids with
  the same path on different appliances list the same appliance.\<close>

theorem getVolumeSnapshotList_ignores_config:
  assumes "CHR '':'' \<notin> set (cn @ cn' @ path)" and "length (strings_Split path ''/'') = 3"
  shows "getVolumeSnapshotList L (cn @ '':'' @ path) req = getVolumeSnapshotList L (cn' @ '':'' @ path) req \<and>
    getVolumeSnapshotList L (cn @ '':'' @ path) req =
      attempt (resolveNS L no_params)
        (\<lambda>_. ret no_snapshots)
        (\<lambda>r. attempt (ns_GetSnapshots L (rr_nsProvider r) path True)
           (\<lambda>err. throw (StatusErr Internal (''Cannot get snapshot list for '' @ sq path @ '': '' @ errText L err)))
           (\<lambda>snapshots. ret (snapshot_page (rr_configName r) (ls_MaxEntries req) (ls_StartingToken req) []
              snapshots)))"
proof -
  have sp: "two (strings_Split (cn @ '':'' @ path) '':'') = Some (cn, path)"
    "two (strings_Split (cn' @ '':'' @ path) '':'') = Some (cn', path)"
    unfolding two_Some by (rule strings_Split_id; use assms(1) in simp)+
  show ?thesis unfolding getVolumeSnapshotList_def sp using assms(2) by simp
qed

theorem getVolumeSnapshotList_ignores_config_witness:
  "getVolumeSnapshotList sim_lib ''a:p/g/v''
      \<lparr>ls_SnapshotId = [], ls_SourceVolumeId = [], ls_StartingToken = [], ls_MaxEntries = 0\<rparr> =
    getVolumeSnapshotList sim_lib ''b:p/g/v''
      \<lparr>ls_SnapshotId = [], ls_SourceVolumeId = [], ls_StartingToken = [], ls_MaxEntries = 0\<rparr>"
  using getVolumeSnapshotList_ignores_config [of "''a''" "''b''" "''p/g/v''" sim_lib
    "\<lparr>ls_SnapshotId = [], ls_SourceVolumeId = [], ls_StartingToken = [], ls_MaxEntries = 0\<rparr>"] by simp

text \<open>A snapshot id with an at sign but no colon makes \<open>ListSnapshots\<close> panic: the part after
  the colon is read without a check. (An id without an at sign gives an empty list.)\<close>

theorem ListSnapshots_no_config_panics:
  assumes "ls_SnapshotId req = v @ ''@'' @ n" and "CHR ''@'' \<notin> set (v @ n)" and "CHR '':'' \<notin> set v"
    and "ctrl_refreshConfig L [] s = (Ret (), u)"
  shows "fst (ListSnapshots L req s) = Panic"
proof -
  have "two (strings_Split (ls_SnapshotId req) ''@'') = Some (v, n)"
    unfolding two_Some strings_Split_two using assms(1,2) by simp
  moreover have "strings_Split v '':'' = [v]" using assms(3) by (rule strings_Split_single)
  moreover have "ls_SnapshotId req \<noteq> []" using assms(1) by simp
  ultimately show ?thesis
    using assms(4) by (simp add: ListSnapshots_def getSnapshotListWithSingleSnapshot_def run_simps)
qed

text \<open>Listing all snapshots drops errors and reads the nil response that comes with them: when
  the listing fails for every configured group, whatever the order, the process panics
  instead of answering with the error.\<close>

theorem ListSnapshots_error_panics:
  assumes "ls_SnapshotId req = []" and "ls_SourceVolumeId req = []"
    and "ctrl_refreshConfig L [] s = (Ret (), u)" and "NsMap (conf u) \<noteq> []"
    and "\<And>name d. map_of (NsMap (conf u)) name = Some d \<Longrightarrow>
      \<exists>e v. getVolumeSnapshotList L (DefaultVolumeGroup d) req
        (u\<lparr>world := snd (mapSeed L (world u))\<rparr>) = (Fail e, v)"
  shows "fst (ListSnapshots L req s) = Panic"
proof -
  let ?u = "u\<lparr>world := snd (mapSeed L (world u))\<rparr>"
  let ?es = "entries (fst (mapSeed L (world u))) (NsMap (conf u))"
  have "?es \<noteq> []" using assms(4) by simp
  then obtain name d es where es: "?es = (name, d) # es" by (cases ?es) auto
  then have "map_of (NsMap (conf u)) name = Some d"
    using set_entries [of name d "fst (mapSeed L (world u))" "NsMap (conf u)"] by simp
  from assms(5) [OF this] obtain e v' where "getVolumeSnapshotList L (DefaultVolumeGroup d) req ?u = (Fail e, v')"
    by blast
  then show ?thesis
    using assms(1-3) es by (simp add: ListSnapshots_def run_simps)
qed


theorem ListSnapshots_no_config_panics_witness:
  "fst (ListSnapshots sim_lib
      \<lparr>ls_SnapshotId = ''p/g/v@s'', ls_SourceVolumeId = [], ls_StartingToken = [], ls_MaxEntries = 0\<rparr>
      (sim_process [(''a'', sim_data)] ''good'' 7)) = Panic"
proof -
  obtain u where u: "ctrl_refreshConfig sim_lib [] (sim_process [(''a'', sim_data)] ''good'' 7) = (Ret (), u)"
    by (simp add: create_eval config_eval sim_defs)
  show ?thesis
    by (rule ListSnapshots_no_config_panics [OF _ _ _ u, where v = "''p/g/v''" and n = "''s''"]) simp_all
qed

theorem ListSnapshots_error_panics_witness:
  "fst (ListSnapshots (sim_lib\<lparr>GetSnapshots := \<lambda>p path b w. (Inl enoent, w)\<rparr>)
      \<lparr>ls_SnapshotId = [], ls_SourceVolumeId = [], ls_StartingToken = [], ls_MaxEntries = 0\<rparr>
      (sim_process [(''a'', sim_data)] ''good'' 7)) = Panic"
proof -
  let ?L = "sim_lib\<lparr>GetSnapshots := \<lambda>p path b w. (Inl enoent, w)\<rparr>"
  let ?req = "\<lparr>ls_SnapshotId = [], ls_SourceVolumeId = [], ls_StartingToken = [], ls_MaxEntries = 0\<rparr>"
  obtain u where u: "ctrl_refreshConfig ?L [] (sim_process [(''a'', sim_data)] ''good'' 7) = (Ret (), u)"
    and m: "conf u = conf (sim_process [(''a'', sim_data)] ''good'' 7)" "ctrlResolvers u = [(''a'', 0)]"
      "world u = world (sim_process [(''a'', sim_data)] ''good'' 7)"
    by (simp add: create_eval config_eval sim_defs)
  have n: "NsMap (conf u) = [(''a'', sim_data)]" by (simp add: m(1) sim_process_def)
  show ?thesis
  proof (rule ListSnapshots_error_panics [OF _ _ u])
    fix name d assume "map_of (NsMap (conf u)) name = Some d"
    then have d: "d = sim_data" by (simp add: n split: if_splits)
    show "\<exists>e v. getVolumeSnapshotList ?L (DefaultVolumeGroup d) ?req
        (u\<lparr>world := snd (mapSeed ?L (world u))\<rparr>) = (Fail e, v)"
      by (simp add: d m getVolumeSnapshotList_def create_eval config_eval sim_defs no_params_def
          ns_GetSnapshots_def)
  qed (simp_all add: n)
qed

end
