(* ===== verification/Utilities.thy ===== *)
theory Utilities
  imports DriverState
begin

text \<open>
  The pure helpers: \<open>pkg/arrays/arrays.go\<close>, \<open>pkg/driver/role.go\<close> and \<open>stringInArray\<close> of
  \<open>nodeServer.go\<close>.
\<close>

section \<open>pkg/arrays\<close>

fun ContainsString :: "string list \<Rightarrow> string \<Rightarrow> bool" where
  "ContainsString [] v = False"
| "ContainsString (x # xs) v = (if x = v then True else ContainsString xs v)"

text \<open>\<open>stringInArray\<close>, the copy of the same loop in the node server.\<close>

fun stringInArray :: "string list \<Rightarrow> string \<Rightarrow> bool" where
  "stringInArray [] tofind = False"
| "stringInArray (item # arr) tofind = (if item = tofind then True else stringInArray arr tofind)"

text \<open>\<open>re\<close> is \<open>re.MatchString\<close>; \<open>i\<close> is the index of the first element of the list.\<close>

fun find_indexes_from :: "nat \<Rightarrow> string list \<Rightarrow> (string \<Rightarrow> bool) \<Rightarrow> nat list" where
  "find_indexes_from i [] re = []"
| "find_indexes_from i (x # xs) re =
     (if re x then i # find_indexes_from (Suc i) xs re else find_indexes_from (Suc i) xs re)"

definition FindRegexpIndexesString :: "string list \<Rightarrow> (string \<Rightarrow> bool) \<Rightarrow> nat list" where
  "FindRegexpIndexesString array re = find_indexes_from 0 array re"

definition AppendIfRegexpNotExistString :: "string list \<Rightarrow> (string \<Rightarrow> bool) \<Rightarrow> string \<Rightarrow> string list" where
  "AppendIfRegexpNotExistString array re v =
     (if length (FindRegexpIndexesString array re) = 0 then array @ [v] else array)"

lemma ContainsString_iff [simp]: "ContainsString xs v \<longleftrightarrow> v \<in> set xs"
  by (induction xs) auto

lemma stringInArray_iff [simp]: "stringInArray xs v \<longleftrightarrow> v \<in> set xs"
  by (induction xs) auto

lemma find_indexes_from_eq:
  "find_indexes_from i xs re = map (\<lambda>j. i + j) (filter (\<lambda>j. re (xs ! j)) [0..<length xs])"
proof (induction xs arbitrary: i)
  case Nil
  then show ?case by simp
next
  case (Cons x xs)
  have up: "[0..<length (x # xs)] = 0 # map Suc [0..<length xs]"
    by (simp add: upt_conv_Cons map_Suc_upt del: upt_Suc)
  have f: "filter (\<lambda>j. re ((x # xs) ! j)) (map Suc js) = map Suc (filter (\<lambda>j. re (xs ! j)) js)" for js
    by (induction js) auto
  show ?case unfolding find_indexes_from.simps up filter.simps f
    by (simp add: Cons.IH o_def)
qed

text \<open>\<open>FindRegexpIndexesString\<close> lists, in increasing order, exactly the indexes of the
  elements that match, and \<open>AppendIfRegexpNotExistString\<close> appends exactly when none does, so a
  second call with a value that matches changes nothing.\<close>

theorem FindRegexpIndexesString_spec:
  "FindRegexpIndexesString xs re = filter (\<lambda>j. re (xs ! j)) [0..<length xs] \<and>
   AppendIfRegexpNotExistString xs re v = (if \<exists>x \<in> set xs. re x then xs else xs @ [v])"
proof -
  have e: "FindRegexpIndexesString xs re = filter (\<lambda>j. re (xs ! j)) [0..<length xs]"
    by (simp add: FindRegexpIndexesString_def find_indexes_from_eq)
  have "filter (\<lambda>j. re (xs ! j)) [0..<length xs] = [] \<longleftrightarrow> \<not> (\<exists>x \<in> set xs. re x)"
    by (auto simp: filter_empty_conv set_conv_nth)
  with e show ?thesis by (simp add: AppendIfRegexpNotExistString_def)
qed

section \<open>Roles\<close>

type_synonym Role = string

definition RoleAll :: Role where
  "RoleAll = ''all''"

definition RoleController :: Role where
  "RoleController = ''controller''"

definition RoleNode :: Role where
  "RoleNode = ''node''"

definition IsController :: "Role \<Rightarrow> bool" where
  "IsController r \<longleftrightarrow> r = RoleController \<or> r = RoleAll"

definition IsNode :: "Role \<Rightarrow> bool" where
  "IsNode r \<longleftrightarrow> r = RoleNode \<or> r = RoleAll"

definition Roles :: "Role list" where
  "Roles = [RoleAll, RoleController, RoleNode]"

text \<open>\<open>ParseRole\<close> returns a role also when it returns an error.\<close>

fun parse_role_loop :: "Role list \<Rightarrow> string \<Rightarrow> Role option" where
  "parse_role_loop [] s = None"
| "parse_role_loop (r # rs) s = (if r = s then Some r else parse_role_loop rs s)"

definition ParseRole :: "string \<Rightarrow> Role \<times> error option" where
  "ParseRole s =
     (case parse_role_loop Roles s of
        Some r \<Rightarrow> (r, None)
      | None \<Rightarrow> (RoleAll, Some (PlainErr (''role '' @ [CHR 0x27] @ s @ [CHR 0x27] @
          '' is not one of supported roles: ['' @ strings_Join Roles '' '' @ ''], default '' @
          [CHR 0x27] @ RoleAll @ [CHR 0x27] @ '' will be used''))))"

text \<open>\<open>ParseRole\<close> accepts exactly the listed roles and returns them unchanged; on any other
  input it reports an error and returns the role that runs both servers. Every role it returns
  runs at least one of the two servers.\<close>

theorem ParseRole_spec:
  "(snd (ParseRole s) = None \<longleftrightarrow> s \<in> set Roles) \<and>
   fst (ParseRole s) = (if s \<in> set Roles then s else RoleAll) \<and>
   (IsController (fst (ParseRole s)) \<or> IsNode (fst (ParseRole s)))"
  by (auto simp: ParseRole_def Roles_def IsController_def IsNode_def)

end
