(* ===== verification/DriverCore.thy ===== *)
theory DriverCore
  imports NodePublish ControllerSnapshots ControllerPublish Utilities
begin

text \<open>
  \<open>pkg/driver/driver.go\<close> and \<open>cmd/main.go\<close>: building, validating and running the driver. A fatal
  end of the process (\<open>l.Fatal\<close>) is the outcome \<open>Fail\<close> with the error that is logged; the end of
  the gRPC server is the end of \<open>Run\<close>.
\<close>

record Driver =
  d_role :: Role
  d_nodeID :: string
  d_endpoint :: string

record Args =
  a_Role :: Role
  a_NodeID :: string
  a_Endpoint :: string
  a_ConfigSet :: bool     \<comment> \<open>\<open>args.Config != nil\<close>\<close>
  a_LogSet :: bool        \<comment> \<open>\<open>args.Log != nil\<close>\<close>

definition NewDriver :: "Args \<Rightarrow> ('s, Driver) M" where
  "NewDriver args =
     (if \<not> a_ConfigSet args then throw (PlainErr ''args.Config is required'')
      else if \<not> a_LogSet args then throw (PlainErr ''args.Log is required'')
      else ret \<lparr>d_role = a_Role args, d_nodeID = a_NodeID args, d_endpoint = a_Endpoint args\<rparr>)"

section \<open>Validate\<close>

text \<open>Licenses and cluster membership are only logged.\<close>

definition check_nodes :: "'w lib \<Rightarrow> resolver \<Rightarrow> ('w st, unit) M" where
  "check_nodes L r =
     bind (forM (Nodes L r) (\<lambda>p. attempt (ns_GetLicense L (Some p)) (\<lambda>_. ret ()) (\<lambda>_. ret ()))) (\<lambda>_.
     if length (Nodes L r) > 1 then attempt (ns_IsCluster L r) (\<lambda>_. ret ()) (\<lambda>_. ret ())
     else ret ())"

definition driver_validate_step :: "'w lib \<Rightarrow> string \<times> NsData \<Rightarrow> ('w st, unit) M" where
  "driver_validate_step L = (\<lambda>(name, cfg).
     deref (InsecureSkipVerify cfg) (\<lambda>skip.
     bind (ns_NewResolver L (resolver_args cfg skip)) (\<lambda>(r, err).
     case err of
       Some e \<Rightarrow> throw (PlainErr (''Driver validation failed, cannot create NexentaStor(s) resolver: '' @
         errText L e))
     | None \<Rightarrow> deref r (check_nodes L))))"

definition driver_Validate :: "'w lib \<Rightarrow> ('w st, unit) M" where
  "driver_Validate L =
     bind (gets (\<lambda>s. NsMap (conf s))) (\<lambda>m.
     bind (goRange L m) (\<lambda>es.
     forM es (driver_validate_step L)))"

section \<open>Run\<close>

definition service_identity :: string where
  "service_identity = ''csi.v1.Identity''"

definition service_controller :: string where
  "service_controller = ''csi.v1.Controller''"

definition service_node :: string where
  "service_node = ''csi.v1.Node''"

definition driver_socket :: "'w lib \<Rightarrow> string \<Rightarrow> error + string" where
  "driver_socket L endpoint =
     (case urlParse L endpoint of
        Inl _ \<Rightarrow> Inl (PlainErr (''Failed to parse endpoint: '' @ endpoint))
      | Inr (scheme, host, path) \<Rightarrow>
          if scheme \<noteq> ''unix'' then Inl (PlainErr ''Only unix domain sockets are supported'')
          else Inr (if host \<noteq> [] then filepath_Join [host, path] else path))"

definition Run :: "'w lib \<Rightarrow> Driver \<Rightarrow> ('w st, unit) M" where
  "Run L d =
     bind (lift_sum (driver_socket L (d_endpoint d))) (\<lambda>socket.
     bind (attempt (os_do L (Remove socket))
       (\<lambda>e. if \<not> os_IsNotExist e then throw (PlainErr (''Cannot remove unix domain socket: '' @ socket))
            else ret ()) ret) (\<lambda>_.
     bind (attempt (os_do L (Listen ''unix'' socket))
       (\<lambda>e. throw (PlainErr (''Failed to create socket listener: '' @ errText L e))) ret) (\<lambda>_.
     bind (if IsController (d_role d) then
             attempt (NewControllerServer L)
               (\<lambda>e. throw (PlainErr (''Failed to create ControllerServer: '' @ errText L e)))
               (\<lambda>_. ret [service_controller])
           else ret []) (\<lambda>controller.
     bind (if IsNode (d_role d) then
             attempt (NewNodeServer L)
               (\<lambda>e. throw (PlainErr (''Failed to create NodeServer: '' @ errText L e)))
               (\<lambda>_. ret [service_node])
           else ret []) (\<lambda>node.
     grpc_Serve L ([service_identity] @ controller @ node))))))"

text \<open>The interceptor logs the error of a handler and passes its result on.\<close>

definition grpcErrorHandler :: "('s, 'a) M \<Rightarrow> ('s, 'a) M" where
  "grpcErrorHandler handler = attempt handler throw ret"

section \<open>main\<close>

record Flags =
  f_nodeID :: string
  f_endpoint :: string
  f_configDir :: string
  f_role :: string
  f_version :: bool

definition writeTerminationMessage :: "'w lib \<Rightarrow> error \<Rightarrow> ('w st, unit) M" where
  "writeTerminationMessage L err =
     attempt (os_do L (WriteFile ''/dev/termination-log'' (newline @ errText L err @ newline)))
       (\<lambda>_. ret ()) ret"

text \<open>\<open>if err != nil { writeTerminationMessage(err, l); l.Fatal(err) }\<close>\<close>

definition or_terminate :: "'w lib \<Rightarrow> ('w st, 'a) M \<Rightarrow> ('w st, 'a) M" where
  "or_terminate L m = attempt m (\<lambda>e. bind (writeTerminationMessage L e) (\<lambda>_. throw e)) ret"

text \<open>The options are logged, two of them through their pointers.\<close>

definition log_options :: "string \<times> NsData \<Rightarrow> ('w st, unit) M" where
  "log_options = (\<lambda>(name, c).
     deref (InsecureSkipVerify c) (\<lambda>_. deref (DynamicTargetLunAllocation c) (\<lambda>_. ret ())))"

definition driver_main :: "'w lib \<Rightarrow> Flags \<Rightarrow> ('w st, unit) M" where
  "driver_main L flags =
     (if f_version flags then ret ()
      else
        let validatedRole = fst (ParseRole (f_role flags)) in
        bind (attempt (config_New L (f_configDir flags))
          (\<lambda>e. throw (PlainErr (''Cannot use config file: '' @ errText L e))) ret) (\<lambda>_.
        bind (gets (\<lambda>s. NsMap (conf s))) (\<lambda>m.
        bind (goRange L m) (\<lambda>es.
        bind (forM es log_options) (\<lambda>_.
        bind (or_terminate L (NewDriver \<lparr>a_Role = validatedRole, a_NodeID = f_nodeID flags,
            a_Endpoint = f_endpoint flags, a_ConfigSet = True, a_LogSet = True\<rparr>)) (\<lambda>d.
        bind (or_terminate L (driver_Validate L)) (\<lambda>_.
        or_terminate L (Run L d))))))))"

end
