(* ===== verification/DriverProcess.thy ===== *)
theory DriverProcess
  imports NodePublishProps ControllerSnapshotProps DriverCore
begin

text \<open>
  The driver as a process that serves requests: the requests of the three CSI services, the handler of each
  (\<open>serve\<close>, the dispatch of the generated gRPC code, through \<open>grpcErrorHandler\<close>), the services of a role, and
  runs of the process as the step relation \<open>process\<close>. The lemmas give for every handler the commands it may send to
  an appliance (\<open>authorised\<close>) and the parts of the state it keeps (\<open>stays\<close>).

  Requests are served one at a time here. The code serves them concurrently and takes no lock; what may
  happen when two handlers write the resolver maps at the same time is not modelled.
\<close>

section \<open>Requests\<close>

datatype request =
    GetPluginInfoReq | GetPluginCapabilitiesReq | ProbeReq
  | CreateVolumeReq CreateVolumeRequest
  | DeleteVolumeReq DeleteVolumeRequest
  | ControllerPublishVolumeReq ControllerPublishVolumeRequest
  | ControllerUnpublishVolumeReq ControllerUnpublishVolumeRequest
  | ValidateVolumeCapabilitiesReq ValidateVolumeCapabilitiesRequest
  | ListVolumesReq ListVolumesRequest
  | GetCapacityReq "string gomap"
  | ControllerGetCapabilitiesReq
  | CreateSnapshotReq CreateSnapshotRequest
  | DeleteSnapshotReq string
  | ListSnapshotsReq ListSnapshotsRequest
  | ControllerExpandVolumeReq ControllerExpandVolumeRequest
  | ControllerGetVolumeReq
  | NodeStageVolumeReq NodeStageVolumeRequest
  | NodeUnstageVolumeReq NodeUnstageVolumeRequest
  | NodePublishVolumeReq NodePublishVolumeRequest
  | NodeUnpublishVolumeReq NodeUnpublishVolumeRequest
  | NodeGetVolumeStatsReq NodeGetVolumeStatsRequest
  | NodeExpandVolumeReq NodeExpandVolumeRequest
  | NodeGetCapabilitiesReq
  | NodeGetInfoReq

text \<open>A handler, with its response dropped; \<open>fuel\<close> is for the wait of \<open>NodeStageVolume\<close>.\<close>

definition reply :: "('s, 'a) M \<Rightarrow> ('s, unit) M" where
  "reply m = bind (grpcErrorHandler m) (\<lambda>_. ret ())"

fun serve :: "'w lib \<Rightarrow> nat \<Rightarrow> string \<Rightarrow> Driver \<Rightarrow> request \<Rightarrow> ('w st, unit) M" where
  "serve L fuel version d GetPluginInfoReq = reply (GetPluginInfo version)"
| "serve L fuel version d GetPluginCapabilitiesReq = reply GetPluginCapabilities"
| "serve L fuel version d ProbeReq = reply (Probe L)"
| "serve L fuel version d (CreateVolumeReq q) = reply (CreateVolume L q)"
| "serve L fuel version d (DeleteVolumeReq q) = reply (DeleteVolume L q)"
| "serve L fuel version d (ControllerPublishVolumeReq q) = reply (ControllerPublishVolume L q)"
| "serve L fuel version d (ControllerUnpublishVolumeReq q) = reply (ControllerUnpublishVolume L q)"
| "serve L fuel version d (ValidateVolumeCapabilitiesReq q) = reply (ValidateVolumeCapabilities L q)"
| "serve L fuel version d (ListVolumesReq q) = reply (ListVolumes L q)"
| "serve L fuel version d (GetCapacityReq q) = reply (GetCapacity L q)"
| "serve L fuel version d ControllerGetCapabilitiesReq = reply ControllerGetCapabilities"
| "serve L fuel version d (CreateSnapshotReq q) = reply (CreateSnapshot L q)"
| "serve L fuel version d (DeleteSnapshotReq q) = reply (DeleteSnapshot L q)"
| "serve L fuel version d (ListSnapshotsReq q) = reply (ListSnapshots L q)"
| "serve L fuel version d (ControllerExpandVolumeReq q) = reply (ControllerExpandVolume L q)"
| "serve L fuel version d ControllerGetVolumeReq = reply ControllerGetVolume"
| "serve L fuel version d (NodeStageVolumeReq q) = reply (NodeStageVolume fuel L q)"
| "serve L fuel version d (NodeUnstageVolumeReq q) = reply (NodeUnstageVolume L q)"
| "serve L fuel version d (NodePublishVolumeReq q) = reply (NodePublishVolume L q)"
| "serve L fuel version d (NodeUnpublishVolumeReq q) = reply (NodeUnpublishVolume L q)"
| "serve L fuel version d (NodeGetVolumeStatsReq q) = reply (NodeGetVolumeStats L q)"
| "serve L fuel version d (NodeExpandVolumeReq q) = reply (NodeExpandVolume L q)"
| "serve L fuel version d NodeGetCapabilitiesReq = reply NodeGetCapabilities"
| "serve L fuel version d NodeGetInfoReq = reply (NodeGetInfo (d_nodeID d))"

text \<open>The service a request belongs to, and the services a driver of a role registers.\<close>

fun service_of :: "request \<Rightarrow> string" where
  "service_of GetPluginInfoReq = service_identity"
| "service_of GetPluginCapabilitiesReq = service_identity"
| "service_of ProbeReq = service_identity"
| "service_of (NodeStageVolumeReq q) = service_node"
| "service_of (NodeUnstageVolumeReq q) = service_node"
| "service_of (NodePublishVolumeReq q) = service_node"
| "service_of (NodeUnpublishVolumeReq q) = service_node"
| "service_of (NodeGetVolumeStatsReq q) = service_node"
| "service_of (NodeExpandVolumeReq q) = service_node"
| "service_of NodeGetCapabilitiesReq = service_node"
| "service_of NodeGetInfoReq = service_node"
| "service_of r = service_controller"

definition services :: "Role \<Rightarrow> string list" where
  "services r = [service_identity] @ (if IsController r then [service_controller] else []) @
     (if IsNode r then [service_node] else [])"

section \<open>The commands a request may send to the appliance\<close>

text \<open>A LUN mapping of a volume: the appliance may list the id when it is asked for the mappings of that volume.\<close>

definition lun_of :: "'w lib \<Rightarrow> provider \<Rightarrow> string \<Rightarrow> string \<Rightarrow> bool" where
  "lun_of L p path i \<longleftrightarrow>
     (\<exists>w ls w'. GetLunMappings L p (luns_of_volume path) w = (Inr ls, w') \<and> i \<in> lun_Id ` set ls)"

text \<open>The commands that serving a request may send to provider \<open>p\<close>: for the volume, the snapshot and the size that
  the request names, and to remove LUN mappings of that volume only.\<close>

fun authorised :: "'w lib \<Rightarrow> request \<Rightarrow> provider \<Rightarrow> ns_cmd \<Rightarrow> bool" where
  "authorised L (CreateVolumeReq q) p c = creates L q p c"
| "authorised L (DeleteVolumeReq q) p c = (\<exists>config path. strings_Split (dv_VolumeId q) '':'' = [config, path] \<and>
     (case c of
        DestroyLunMappingCmd i \<Rightarrow> lun_of L p path i
      | DestroyVolumeCmd path' _ _ \<Rightarrow> path' = path
      | _ \<Rightarrow> False))"
| "authorised L (ControllerUnpublishVolumeReq q) p c = (\<exists>config path. strings_Split (up_VolumeId q) '':'' = [config, path] \<and>
     (case c of DestroyLunMappingCmd i \<Rightarrow> lun_of L p path i | _ \<Rightarrow> False))"
| "authorised L (ControllerExpandVolumeReq q) p c = (case c of
     UpdateVolumeCmd path n \<Rightarrow> ex_CapacityRange q = Some n \<and>
       (\<exists>config. strings_Split (ex_VolumeId q) '':'' = [config, path])
   | _ \<Rightarrow> False)"
| "authorised L (CreateSnapshotReq q) p c = (case c of
     CreateSnapshotCmd path \<Rightarrow> \<exists>config vol. strings_Split (cs_SourceVolumeId q) '':'' = [config, vol] \<and>
       path = vol @ ''@'' @ cs_Name q
   | _ \<Rightarrow> False)"
| "authorised L (DeleteSnapshotReq q) p c = (case c of
     DestroySnapshotCmd path \<Rightarrow> \<exists>config. q = config @ '':'' @ path
   | _ \<Rightarrow> False)"
| "authorised L (NodeStageVolumeReq q) p c = (case c of
     CreateISCSITargetCmd _ _ \<Rightarrow> True
   | CreateUpdateTargetGroupCmd _ _ \<Rightarrow> True
   | UpdateISCSITargetCmd _ _ \<Rightarrow> True
   | CreateRemoteInitiatorCmd _ _ _ \<Rightarrow> True
   | UpdateRemoteInitiatorCmd _ _ _ \<Rightarrow> True
   | CreateHostGroupCmd _ _ \<Rightarrow> True
   | CreateLunMappingCmd path _ _ \<Rightarrow> \<exists>config. strings_Split (ns_VolumeId q) '':'' = [config, path]
   | _ \<Rightarrow> False)"
| "authorised L r p c = False"

definition within :: "'w lib \<Rightarrow> request \<Rightarrow> call \<Rightarrow> bool" where
  "within L r c = (case c of NsCmd p cmd \<Rightarrow> authorised L r p cmd | _ \<Rightarrow> True)"

text \<open>Operations that only look, and those whose commands do not depend on the request.\<close>

fun is_cmd :: "call \<Rightarrow> bool" where
  "is_cmd (NsCmd _ _) = True"
| "is_cmd _ = False"

lemma within_no_cmd: "\<not> is_cmd c \<Longrightarrow> within L r c"
  by (cases c) (simp_all add: within_def)

lemma config_no_cmd: "is_config_call c \<Longrightarrow> \<not> is_cmd c"
  by (cases c) simp_all

lemma node_refresh_emits:
  "(\<And>c. is_config_call c \<Longrightarrow> P c) \<Longrightarrow> keeps (emits P) (node_refreshConfig L secret)"
  unfolding node_refreshConfig_def node_refresh_step_def
  by (intro emits_rules keeps_cases emitting.keeps_modify Refresh_emits) (simp_all add: emits_def)

lemma node_use_config_emits [emits_rules]:
  "(\<And>c. is_config_call c \<Longrightarrow> P c) \<Longrightarrow> keeps (emits P) (node_use_config L secrets)"
  unfolding node_use_config_def pick_secret_def by (intro emits_rules node_refresh_emits)

lemma node_resolveNS_emits [emits_rules]:
  "(\<And>r vg. P (ResolveCall r vg)) \<Longrightarrow> keeps (emits P) (node_resolveNS L c vg)"
  unfolding node_resolveNS_def by (intro emits_rules keeps_cases)

lemma reply_emits [emits_rules]: "keeps (emits P) m \<Longrightarrow> keeps (emits P) (reply m)"
  unfolding reply_def grpcErrorHandler_def by (intro emits_rules)

text \<open>The loops of the controller.\<close>

lemma list_volumes_loop_emits:
  "(\<And>r vg. P (ResolveCall r vg)) \<Longrightarrow> (\<And>p q. P (NsQuery p q)) \<Longrightarrow>
    keeps (emits P) (list_volumes_loop L tok n acc nt es)"
  by (induction L tok n acc nt es rule: list_volumes_loop.induct)
    (auto intro!: emits_rules keeps_cases)

lemma getVolumeSnapshotList_emits:
  "(\<And>r vg. P (ResolveCall r vg)) \<Longrightarrow> (\<And>p q. P (NsQuery p q)) \<Longrightarrow>
    keeps (emits P) (getVolumeSnapshotList L vid req)"
  unfolding getVolumeSnapshotList_def by (intro emits_rules keeps_cases)

lemma list_all_snapshots_emits:
  "(\<And>r vg. P (ResolveCall r vg)) \<Longrightarrow> (\<And>p q. P (NsQuery p q)) \<Longrightarrow>
    keeps (emits P) (list_all_snapshots L req acc es)"
  by (induction L req acc es rule: list_all_snapshots.induct)
    (auto simp: Let_def intro!: emits_rules keeps_cases getVolumeSnapshotList_emits)

lemma single_snapshot_emits:
  "(\<And>r vg. P (ResolveCall r vg)) \<Longrightarrow> (\<And>p q. P (NsQuery p q)) \<Longrightarrow>
    keeps (emits P) (getSnapshotListWithSingleSnapshot L sid)"
  unfolding getSnapshotListWithSingleSnapshot_def Let_def by (intro emits_rules keeps_cases)

lemma wait_luns_gone_emits:
  assumes "\<And>d. P (SleepCall d)" and "\<And>p q. P (NsQuery p q)"
  shows "keeps (emits P) (wait_luns_gone L p path n luns)"
proof (induction L p path n luns rule: wait_luns_gone.induct)
  case (1 L p path n luns)
  show ?case by (subst wait_luns_gone.simps) (intro emits_rules keeps_cases assms 1)
qed

section \<open>What the handlers of the controller send\<close>

lemma looking_handlers:
  assumes "\<And>c. \<not> is_cmd c \<Longrightarrow> P c"
  shows "keeps (emits P) (Probe L)" and "keeps (emits P) (ControllerPublishVolume L pq)"
    and "keeps (emits P) (ValidateVolumeCapabilities L vq)" and "keeps (emits P) (ListVolumes L lq)"
    and "keeps (emits P) (GetCapacity L ps)" and "keeps (emits P) (ListSnapshots L sq')"
    and "keeps (emits P) (NodeGetVolumeStats L gq)"
  unfolding Probe_def ControllerPublishVolume_def ValidateVolumeCapabilities_def ListVolumes_def
    GetCapacity_def ListSnapshots_def NodeGetVolumeStats_def Let_def
  by ((intro emits_rules keeps_cases Refresh_emits ctrl_refresh_emits node_refresh_emits list_volumes_loop_emits
      getVolumeSnapshotList_emits list_all_snapshots_emits single_snapshot_emits assms)?; simp add: config_no_cmd)+

lemma ns_GetLunMappings_gives:
  "gives (\<lambda>ls. \<forall>q l. p = Some q \<longrightarrow> l \<in> set ls \<longrightarrow> lun_of L q path (lun_Id l)) (ns_GetLunMappings L p (luns_of_volume path))"
  by (rule givesI) (auto simp: ns_GetLunMappings_def lun_of_def ns_ask_Ret)

lemma destroy_luns_emits:
  "(\<And>q l. p = Some q \<Longrightarrow> l \<in> set ls \<Longrightarrow> P (NsCmd q (DestroyLunMappingCmd (lun_Id l)))) \<Longrightarrow>
    keeps (emits P) (destroy_luns L p ls)"
  unfolding destroy_luns_def by (intro emits_rules) blast

lemma unmapping_emits:
  assumes "\<And>c. \<not> is_cmd c \<Longrightarrow> P c" and "\<And>p i. lun_of L p path i \<Longrightarrow> P (NsCmd p (DestroyLunMappingCmd i))"
  shows "keeps (emits P) (unpublish_on L p path)"
    and "(\<And>p. P (NsCmd p (DestroyVolumeCmd path True True))) \<Longrightarrow> keeps (emits P) (delete_on L p path)"
proof -
  have ask: "keeps (emits P) (ns_GetLunMappings L p (luns_of_volume path))" by (intro emits_rules assms(1)) simp
  note luns = emitting.keeps_bind_gives [OF ask ns_GetLunMappings_gives]
  have destroy: "keeps (emits P) (destroy_luns L p ls)"
    if "\<forall>q l. p = Some q \<longrightarrow> l \<in> set ls \<longrightarrow> lun_of L q path (lun_Id l)" for ls
    using that by (intro destroy_luns_emits assms(2)) blast
  show "keeps (emits P) (unpublish_on L p path)"
    unfolding unpublish_on_def
    by (rule luns, intro emits_rules ask destroy wait_luns_gone_emits assms(1)) simp_all
  show "keeps (emits P) (delete_on L p path)" if "\<And>p. P (NsCmd p (DestroyVolumeCmd path True True))"
    unfolding delete_on_def
    by (rule luns, intro emits_rules keeps_cases destroy that)
qed

lemma DeleteVolume_within: "keeps (emits (within L (DeleteVolumeReq q))) (DeleteVolume L q)"
  unfolding DeleteVolume_def
  by (intro emits_rules keeps_cases unmapping_emits) (auto simp: within_no_cmd config_no_cmd, auto simp: within_def)

lemma ControllerUnpublishVolume_within:
  "keeps (emits (within L (ControllerUnpublishVolumeReq q))) (ControllerUnpublishVolume L q)"
  unfolding ControllerUnpublishVolume_def
  by (intro emits_rules keeps_cases unmapping_emits) (auto simp: within_no_cmd config_no_cmd, auto simp: within_def)

lemma ControllerExpandVolume_within:
  "keeps (emits (within L (ControllerExpandVolumeReq q))) (ControllerExpandVolume L q)"
  unfolding ControllerExpandVolume_def expand_on_def Let_def
  by (intro emits_rules keeps_cases)
    (auto simp: within_no_cmd config_no_cmd, auto simp: within_def split: option.splits)

lemma CreateSnapshot_within: "keeps (emits (within L (CreateSnapshotReq q))) (CreateSnapshot L q)"
  unfolding CreateSnapshot_def Let_def
  by (intro emits_rules keeps_cases ctrl_refresh_emits CreateSnapshotOnNS_emits)
    (auto simp: within_no_cmd config_no_cmd, auto simp: within_def)

lemma DeleteSnapshot_within: "keeps (emits (within L (DeleteSnapshotReq q))) (DeleteSnapshot L q)"
  unfolding DeleteSnapshot_def destroy_snapshot_on_def Let_def
  by (intro emits_rules keeps_cases ctrl_refresh_emits)
    (auto simp: within_no_cmd config_no_cmd,
      auto simp: within_def strings_Split_two)

section \<open>What the handlers of the node send\<close>

lemma ISCSILogInRescan_emits:
  "(\<And>a. P (Exec a)) \<Longrightarrow> keeps (emits P) (ISCSILogInRescan L t pt)"
  unfolding ISCSILogInRescan_def by (intro emits_rules keeps_cases)

definition attach_cmd :: "ns_cmd \<Rightarrow> bool" where
  "attach_cmd c = (case c of CreateISCSITargetCmd _ _ \<Rightarrow> True | CreateUpdateTargetGroupCmd _ _ \<Rightarrow> True
     | UpdateISCSITargetCmd _ _ \<Rightarrow> True | CreateRemoteInitiatorCmd _ _ _ \<Rightarrow> True
     | UpdateRemoteInitiatorCmd _ _ _ \<Rightarrow> True | CreateHostGroupCmd _ _ \<Rightarrow> True | _ \<Rightarrow> False)"

definition attaches :: "call \<Rightarrow> bool" where
  "attaches c = (case c of NsCmd _ cmd \<Rightarrow> attach_cmd cmd | _ \<Rightarrow> True)"

lemma attaches_no_cmd: "\<not> is_cmd c \<Longrightarrow> attaches c"
  by (cases c) (simp_all add: attaches_def)

lemma attaches_within: "attaches c \<Longrightarrow> within L (NodeStageVolumeReq q) c"
  by (auto simp: attaches_def within_def attach_cmd_def split: call.splits ns_cmd.splits)

lemma GetNodeIQN_emits: "keeps (emits attaches) (GetNodeIQN L)"
  unfolding GetNodeIQN_def Let_def by (intro emits_rules keeps_cases) (simp_all add: attaches_no_cmd)

lemma SetChapAuth_emits: "keeps (emits attaches) (SetChapAuth L n u k p)"
  unfolding SetChapAuth_def
  by (intro emits_rules keeps_cases) (simp_all add: attaches_def attach_cmd_def)

lemma CreateNewTargetTg_emits: "keeps (emits attaches) (CreateNewTargetTg L ctx p)"
  unfolding CreateNewTargetTg_def new_target_name_def Let_def
  by (intro emits_rules keeps_cases GetNodeIQN_emits SetChapAuth_emits)
    (simp_all add: attaches_def attach_cmd_def)

lemma target_loop_emits: "keeps (emits attaches) (target_loop L ctx p n mtg tgt cs)"
proof (induction cs arbitrary: n mtg tgt)
  case Nil
  show ?case by (simp add: emits_rules CreateNewTargetTg_emits)
next
  case (Cons c cs)
  obtain g x where "c = (g, x)" by (cases c)
  then show ?case unfolding target_loop.simps Let_def
    by (simp only: target_loop.simps Let_def)
      (intro emits_rules keeps_cases Cons.IH GetNodeIQN_emits SetChapAuth_emits; simp add: attaches_no_cmd)
qed

lemma ParseVolumeContext_emits: "keeps (emits attaches) (ParseVolumeContext L ctx p name)"
  unfolding ParseVolumeContext_def parse_host_group_def CreateUpdateHostGroup_def Let_def
  by (intro emits_rules keeps_cases GetNodeIQN_emits) (simp_all add: attaches_def attach_cmd_def)

lemma stage_target_emits: "keeps (emits attaches) (stage_target L cfg ctx p)"
  unfolding stage_target_def ResolveTargetGroup_def
  by (intro emits_rules keeps_cases target_loop_emits CreateNewTargetTg_emits) (simp_all add: attaches_no_cmd)

lemma stage_lun_emits:
  assumes "\<And>c. \<not> is_cmd c \<Longrightarrow> P c" and "\<And>p. P (NsCmd p (CreateLunMappingCmd path tg hg))"
  shows "keeps (emits P) (stage_lun L vid path tg hg p)"
  unfolding stage_lun_def CreateISCSIMapping_def Let_def
  by (intro emits_rules keeps_cases) (simp_all add: assms)

lemma stage_wait_emits:
  assumes "\<And>c. \<not> is_cmd c \<Longrightarrow> P c"
  shows "keeps (emits P) (stage_wait n L t pt dev timeout d)"
proof (induction n arbitrary: d)
  case 0
  show ?case by (simp add: emits_rules)
next
  case (Suc n)
  show ?case unfolding stage_wait.simps
    by (intro emits_rules keeps_cases Suc.IH ISCSILogInRescan_emits) (simp_all add: assms)
qed

lemma retry_emits: "keeps (emits P) m \<Longrightarrow> keeps (emits P) (retry n m)"
  by (induction n) (auto intro: emits_rules)

lemma node_local:
  assumes "\<And>c. \<not> is_cmd c \<Longrightarrow> P c"
  shows "keeps (emits P) (stage_path L path perm)" and "keeps (emits P) (GetRealDeviceName L link)"
    and "keeps (emits P) (stage_device L vid cap source path perm)"
    and "keeps (emits P) (NodeUnstageVolume L uq)" and "keeps (emits P) (NodePublishVolume L pq)"
    and "keeps (emits P) (NodeUnpublishVolume L upq)" and "keeps (emits P) (NodeExpandVolume L eq)"
  unfolding stage_path_def DeviceFromTargetPath_def GetRealDeviceName_def stage_device_def getFSType_def
    formatVolume_def format_try_def mountVolume_def NodeUnstageVolume_def unstage_block_def unstage_mount_def
    logged_def FlushBufs_def RemoveDevice_def NodePublishVolume_def publish_block_def publish_mount_def
    NodeUnpublishVolume_def NodeExpandVolume_def expand_device_def RescanDevice_def Let_def
  by ((intro emits_rules keeps_cases retry_emits); simp add: assms)+

lemma NodeStageVolume_within: "keeps (emits (within L (NodeStageVolumeReq q))) (NodeStageVolume n L q)"
  unfolding NodeStageVolume_def stage_on_def Let_def
  by (intro emits_rules keeps_cases keeps_emits_mono [OF ParseVolumeContext_emits attaches_within]
      keeps_emits_mono [OF stage_target_emits attaches_within] stage_lun_emits stage_wait_emits node_local
      ISCSILogInRescan_emits)
    (auto simp: within_no_cmd config_no_cmd, auto simp: within_def)

section \<open>The process\<close>

lemma creates_within: "creates_call L q c \<Longrightarrow> within L (CreateVolumeReq q) c"
  by (cases c) (simp_all add: within_def creates_call_def)

lemma serve_within: "keeps (emits (within L r)) (serve L n v d r)"
proof -
  have look: "\<And>c. \<not> is_cmd c \<Longrightarrow> within L r c" by (rule within_no_cmd)
  show ?thesis
    by (cases r)
      (auto simp: GetPluginInfo_def GetPluginCapabilities_def ControllerGetCapabilities_def
        ControllerGetVolume_def NodeGetCapabilities_def NodeGetInfo_def
        intro!: emits_rules looking_handlers node_local within_no_cmd DeleteVolume_within
          ControllerUnpublishVolume_within ControllerExpandVolume_within CreateSnapshot_within
          DeleteSnapshot_within NodeStageVolume_within
          keeps_emits_mono [OF CreateVolume_emits creates_within])
qed

text \<open>
  A run of the process: requests of the registered services are served one after the other, with
  any outcome but a panic, which ends the process; between two requests the outside may change in
  any way. The order of the calls of one request is the order of the code.
\<close>

inductive process :: "'w lib \<Rightarrow> string \<Rightarrow> Driver \<Rightarrow> 'w st \<Rightarrow> request list \<Rightarrow> 'w st \<Rightarrow> bool"
  for L version d s where
  start: "process L version d s [] s"
| request: "process L version d s rs t \<Longrightarrow> service_of r \<in> set (services (d_role d)) \<Longrightarrow>
    serve L fuel version d r t = (res, u) \<Longrightarrow> res \<noteq> Panic \<Longrightarrow> res \<noteq> NoFuel \<Longrightarrow>
    process L version d s (rs @ [r]) u"
| outside: "process L version d s rs t \<Longrightarrow> process L version d s rs (t\<lparr>world := w\<rparr>)"

inductive_cases process_first: "process L version d s [] t"
inductive_cases process_snoc: "process L version d s (rs @ [r]) t"

text \<open>Only requests of the registered services are served.\<close>

lemma process_services:
  "process L version d s rs t \<Longrightarrow> r \<in> set rs \<Longrightarrow> service_of r \<in> set (services (d_role d))"
  by (induction rule: process.induct) auto

text \<open>The history of a run is divided among its requests: what was done while serving each of them.\<close>

lemma process_calls:
  assumes "process L version d s rs t"
  shows "\<exists>css. trace t = trace s @ concat css \<and> list_all2 (\<lambda>r cs. \<forall>c \<in> set cs. within L r c) rs css"
  using assms
proof (induction rule: process.induct)
  case start
  show ?case by (intro exI [of _ "[]"]) simp
next
  case (request rs t r fuel res u)
  from request.IH obtain css where css: "trace t = trace s @ concat css"
    "list_all2 (\<lambda>r cs. \<forall>c \<in> set cs. within L r c) rs css" by blast
  obtain cs where cs: "trace u = trace t @ cs" "\<forall>c \<in> set cs. within L r c"
    using emits_new_calls [OF serve_within request.hyps(3) refl] by metis
  with css show ?case by (intro exI [of _ "css @ [cs]"]) (simp add: list_all2_appendI)
next
  case (outside rs t w)
  then show ?case by simp
qed

lemma process_command:
  assumes "process L version d s rs t" and "NsCmd p cmd \<in> set (trace t)" and "NsCmd p cmd \<notin> set (trace s)"
  obtains r where "r \<in> set rs" and "authorised L r p cmd"
proof -
  obtain css where css: "trace t = trace s @ concat css" "list_all2 (\<lambda>r cs. \<forall>c \<in> set cs. within L r c) rs css"
    using process_calls [OF assms(1)] by blast
  with assms(2,3) obtain cs where "cs \<in> set css" "NsCmd p cmd \<in> set cs" by auto
  then obtain i where i: "i < length css" "css ! i = cs" by (meson in_set_conv_nth)
  with css(2) have "i < length rs" "within L (rs ! i) (NsCmd p cmd)"
    using \<open>NsCmd p cmd \<in> set cs\<close> by (auto simp: list_all2_conv_all_nth)
  then show thesis by (intro that [of "rs ! i"]) (simp_all add: within_def)
qed

section \<open>The state of a running process\<close>

text \<open>
  What no request changes: the path of the configuration file, and that a name has a resolver. The node server
  keeps pointers to resolvers; one of them becomes nil only if the client library made no resolver.
\<close>

definition makes_none :: "'w lib \<Rightarrow> bool" where
  "makes_none L \<longleftrightarrow> (\<exists>a w. fst (fst (NewResolver L a w)) = None)"

definition stays :: "'w lib \<Rightarrow> 'w st \<Rightarrow> 'w st \<Rightarrow> bool" where
  "stays L s t \<longleftrightarrow> filePath (conf t) = filePath (conf s) \<and>
     fst ` set (ctrlResolvers s) \<subseteq> fst ` set (ctrlResolvers t) \<and>
     fst ` set (nodeResolvers s) \<subseteq> fst ` set (nodeResolvers t) \<and>
     (\<forall>name. map_of (nodeResolvers t) name = Some None \<longrightarrow>
        map_of (nodeResolvers s) name = Some None \<or> makes_none L)"

interpretation staying: state_frame "stays L" for L :: "'w lib"
proof unfold_locales
  show "stays L s s" for s :: "'w st" by (simp add: stays_def)
  fix s t u :: "'w st"
  assume st: "stays L s t" and tu: "stays L t u"
  have "map_of (nodeResolvers s) name = Some None \<or> makes_none L" if "map_of (nodeResolvers u) name = Some None" for name
    using st tu that unfolding stays_def by metis
  moreover have "fst ` set (ctrlResolvers s) \<subseteq> fst ` set (ctrlResolvers u)"
    "fst ` set (nodeResolvers s) \<subseteq> fst ` set (nodeResolvers u)"
    using st tu unfolding stays_def by (meson subset_trans)+
  ultimately show "stays L s u" using st tu unfolding stays_def by simp
qed

named_theorems stays_rules \<open>operations that keep what no request changes\<close>

lemmas [stays_rules] = staying.frame_rules

lemma internal_stays: "keeps (same internal_state) m \<Longrightarrow> keeps (stays L) m"
  by (simp add: keeps_def same_def internal_state_def stays_def)

lemmas [stays_rules] = boundary_internal [THEN internal_stays] keeps_ext_call_internal [THEN internal_stays]
  keeps_goRange_internal [THEN internal_stays] resolveNS_frame(2) [THEN internal_stays]
  making_internal [THEN internal_stays] not_found_ok_internal [THEN internal_stays]

lemma Validate_stays: "keeps (stays L) (Validate L)"
  unfolding Validate_def validate_step_def
  by (intro stays_rules keeps_cases staying.keeps_modify)
    (auto simp: keeps_def validate_entry_state stays_def set_NsMap_def)

lemma Refresh_stays: "keeps (stays L) (Refresh L secret)"
  unfolding Refresh_def refresh_content_def refresh_load_def
  by (intro stays_rules keeps_cases staying.keeps_modify Validate_stays) (simp_all add: stays_def set_conf_def)

lemma ns_NewResolver_gives: "gives (\<lambda>(r, err). r = None \<longrightarrow> makes_none L) (ns_NewResolver L a)"
  by (rule givesI) (auto simp: ns_NewResolver_def run_ext_call makes_none_def split: prod.splits, metis fst_conv)

lemma node_refresh_step_stays: "keeps (stays L) (node_refresh_step L e)"
proof -
  have new: "keeps (stays L) (ns_NewResolver L a)" for a by (rule stays_rules)
  have store: "keeps (stays L) (modify (\<lambda>s. s\<lparr>nodeResolvers := AList.update name r (nodeResolvers s)\<rparr>))"
    if "r = None \<longrightarrow> makes_none L" for name r
    using that by (intro staying.keeps_modify) (auto simp: stays_def dom_update update_conv')
  obtain name d where e: "e = (name, d)" by (cases e)
  have "keeps (stays L) (bind (ns_NewResolver L a) (\<lambda>(r, err).
     bind (modify (\<lambda>s. s\<lparr>nodeResolvers := AList.update name r (nodeResolvers s)\<rparr>)) (\<lambda>_.
     case err of None \<Rightarrow> ret () | Some e \<Rightarrow> throw (resolver_error L e))))" for a
  proof (rule staying.keeps_bind_gives [OF new ns_NewResolver_gives])
    fix x :: "resolver option \<times> error option"
    assume "case x of (r, err) \<Rightarrow> r = None \<longrightarrow> makes_none L"
    then show "keeps (stays L) (case x of (r, err) \<Rightarrow>
       bind (modify (\<lambda>s. s\<lparr>nodeResolvers := AList.update name r (nodeResolvers s)\<rparr>)) (\<lambda>_.
       case err of None \<Rightarrow> ret () | Some e \<Rightarrow> throw (resolver_error L e)))"
      by (cases x) (simp, intro staying.keeps_bind store keeps_cases staying.keeps_ret staying.keeps_throw, simp)
  qed
  then show ?thesis unfolding node_refresh_step_def e prod.case by (intro staying.keeps_deref)
qed

lemma refresh_stays [stays_rules]:
  "keeps (stays L) (ctrl_refreshConfig L secret)" "keeps (stays L) (node_refreshConfig L secret)"
  unfolding ctrl_refreshConfig_def ctrl_refresh_step_def node_refreshConfig_def
  by (intro stays_rules keeps_cases staying.keeps_modify Refresh_stays node_refresh_step_stays;
      fastforce simp: stays_def dom_update)+

lemma use_config_stays [stays_rules]:
  "keeps (stays L) (ctrl_use_config L secrets)" "keeps (stays L) (node_use_config L secrets)"
  unfolding ctrl_use_config_def node_use_config_def pick_secret_def by (intro stays_rules)+

lemma reply_stays [stays_rules]: "keeps (stays L) m \<Longrightarrow> keeps (stays L) (reply m)"
  unfolding reply_def grpcErrorHandler_def by (intro stays_rules)

text \<open>The loops.\<close>

lemma list_volumes_loop_stays [stays_rules]: "keeps (stays L) (list_volumes_loop L tok n acc nt es)"
  by (induction L tok n acc nt es rule: list_volumes_loop.induct) (auto intro!: stays_rules keeps_cases)

lemma snapshot_lists_stay [stays_rules]:
  "keeps (stays L) (getVolumeSnapshotList L vid req)" "keeps (stays L) (getSnapshotListWithSingleSnapshot L sid)"
  unfolding getVolumeSnapshotList_def getSnapshotListWithSingleSnapshot_def Let_def
  by (intro stays_rules keeps_cases)+

lemma list_all_snapshots_stays [stays_rules]: "keeps (stays L) (list_all_snapshots L req acc es)"
  by (induction L req acc es rule: list_all_snapshots.induct)
    (auto simp: Let_def intro!: stays_rules keeps_cases)

lemma wait_luns_gone_stays [stays_rules]: "keeps (stays L) (wait_luns_gone L p path n luns)"
proof (induction L p path n luns rule: wait_luns_gone.induct)
  case (1 L p path n luns)
  show ?case by (subst wait_luns_gone.simps) (intro stays_rules keeps_cases 1)
qed

lemma attach_stays [stays_rules]:
  "keeps (stays L) (GetNodeIQN L)" "keeps (stays L) (SetChapAuth L n u k p)" "keeps (stays L) (ISCSILogInRescan L tgt pt)"
  "keeps (stays L) (node_resolveNS L c vg)"
  unfolding GetNodeIQN_def SetChapAuth_def ISCSILogInRescan_def node_resolveNS_def Let_def
  by (intro stays_rules keeps_cases)+

lemma CreateNewTargetTg_stays [stays_rules]: "keeps (stays L) (CreateNewTargetTg L ctx p)"
  unfolding CreateNewTargetTg_def new_target_name_def Let_def by (intro stays_rules keeps_cases)

lemma target_loop_stays [stays_rules]: "keeps (stays L) (target_loop L ctx p n mtg tgt cs)"
proof (induction cs arbitrary: n mtg tgt)
  case Nil
  show ?case by (simp add: stays_rules)
next
  case (Cons c cs)
  obtain g x where "c = (g, x)" by (cases c)
  then show ?case
    by (simp only: target_loop.simps Let_def) (intro stays_rules keeps_cases Cons.IH)
qed

lemma stage_wait_stays [stays_rules]: "keeps (stays L) (stage_wait n L tgt pt dev timeout d)"
proof (induction n arbitrary: d)
  case (Suc n)
  show ?case unfolding stage_wait.simps by (intro stays_rules keeps_cases Suc.IH)
qed (simp add: stays_rules)

lemma retry_stays [stays_rules]: "keeps (stays L) m \<Longrightarrow> keeps (stays L) (retry n m)"
  by (induction n) (auto intro: stays_rules)

lemma create_provision_stays [stays_rules]: "keeps (stays L) (create_provision L ps snap vol name n sp)"
  unfolding create_provision_def Let_def by (intro stays_rules keeps_cases)

lemma create_args_stay [stays_rules]: "keeps (stays L) (create_params L ps)" "keeps (stays L) (create_source src)"
  unfolding create_params_def create_source_def Let_def
  by (auto intro!: stays_rules keeps_cases split: content_source.splits)

text \<open>The handlers.\<close>

lemma controller_stays [stays_rules]:
  "keeps (stays L) (Probe L)" "keeps (stays L) (CreateVolume L cq)" "keeps (stays L) (DeleteVolume L dq)"
  "keeps (stays L) (ControllerPublishVolume L pq)" "keeps (stays L) (ControllerUnpublishVolume L uq)"
  "keeps (stays L) (ValidateVolumeCapabilities L vq)" "keeps (stays L) (ListVolumes L lq)"
  "keeps (stays L) (GetCapacity L ps)" "keeps (stays L) (CreateSnapshot L snq)" "keeps (stays L) (DeleteSnapshot L sid)"
  "keeps (stays L) (ListSnapshots L lsq)" "keeps (stays L) (ControllerExpandVolume L eq)"
  unfolding Probe_def CreateVolume_def DeleteVolume_def delete_on_def destroy_luns_def
    ControllerPublishVolume_def ControllerUnpublishVolume_def unpublish_on_def ValidateVolumeCapabilities_def
    ListVolumes_def GetCapacity_def CreateSnapshot_def DeleteSnapshot_def destroy_snapshot_on_def
    ListSnapshots_def ControllerExpandVolume_def expand_on_def Let_def
  by (intro stays_rules keeps_cases Refresh_stays)+

lemma node_stays [stays_rules]:
  "keeps (stays L) (NodeStageVolume n L stq)" "keeps (stays L) (NodeUnstageVolume L uq)"
  "keeps (stays L) (NodePublishVolume L pq)" "keeps (stays L) (NodeUnpublishVolume L upq)"
  "keeps (stays L) (NodeGetVolumeStats L gq)" "keeps (stays L) (NodeExpandVolume L eq)"
  unfolding NodeStageVolume_def stage_on_def ParseVolumeContext_def parse_host_group_def
    CreateUpdateHostGroup_def stage_target_def ResolveTargetGroup_def stage_lun_def CreateISCSIMapping_def
    stage_path_def DeviceFromTargetPath_def GetRealDeviceName_def stage_device_def getFSType_def
    formatVolume_def format_try_def mountVolume_def NodeUnstageVolume_def unstage_block_def unstage_mount_def
    logged_def FlushBufs_def RemoveDevice_def NodePublishVolume_def publish_block_def publish_mount_def
    NodeUnpublishVolume_def NodeExpandVolume_def expand_device_def RescanDevice_def NodeGetVolumeStats_def Let_def
  by (intro stays_rules keeps_cases)+

lemma serve_stays: "keeps (stays L) (serve L n v d r)"
  by (cases r) (simp_all add: stays_rules GetPluginInfo_def GetPluginCapabilities_def
    ControllerGetCapabilities_def ControllerGetVolume_def NodeGetCapabilities_def NodeGetInfo_def)

end
