(* ===== verification/DriverStart.thy ===== *)
theory DriverStart
  imports DriverProcess
begin

text \<open>
  Starting the driver: what holds when \<open>main\<close> gets to serving requests.
\<close>

section \<open>Starting up\<close>

lemma key_update: "fst ` set (AList.update k v m) = insert k (fst ` set m)"
  by (simp add: dom_update)

lemma new_ctrl_loop:
  "foldM (new_ctrl_step L) m es s = (Ret rm, t) \<Longrightarrow> fst ` set rm = fst ` set m \<union> fst ` set es"
proof (induction es arbitrary: m s)
  case Nil
  then show ?case by (simp add: ran)
next
  case (Cons e es)
  obtain name cfg where e: "e = (name, cfg)" by (cases e)
  from Cons.prems obtain m' u where m': "new_ctrl_step L m (name, cfg) s = (Ret m', u)"
    and l: "foldM (new_ctrl_step L) m' es u = (Ret rm, t)" by (auto simp: e bind_Ret_iff)
  from m' obtain r where "m' = AList.update name r m"
    by (auto simp: new_ctrl_step_def ran split: prod.splits option.splits)
  with Cons.IH [OF l] show ?case by (simp only: key_update) (simp add: e)
qed

lemma new_node_loop:
  "foldM (new_node_step L) m es s = (Ret rm, t) \<Longrightarrow> fst ` set rm = fst ` set m \<union> fst ` set es"
proof (induction es arbitrary: m s)
  case Nil
  then show ?case by (simp add: ran)
next
  case (Cons e es)
  obtain name cfg where e: "e = (name, cfg)" by (cases e)
  from Cons.prems obtain m' u where m': "new_node_step L m (name, cfg) s = (Ret m', u)"
    and l: "foldM (new_node_step L) m' es u = (Ret rm, t)" by (auto simp: e bind_Ret_iff)
  from m' obtain r where "m' = AList.update name r m"
    by (auto simp: new_node_step_def ran split: prod.splits option.splits)
  with Cons.IH [OF l] show ?case by (simp only: key_update) (simp add: e)
qed

text \<open>The frame of starting up: the configuration is not written, the history grows.\<close>

definition grows :: "'w st \<Rightarrow> 'w st \<Rightarrow> bool" where
  "grows s t \<longleftrightarrow> conf t = conf s \<and> emits (\<lambda>_. True) s t"

interpretation growing: state_frame grows
proof unfold_locales
  show "grows s s" for s :: "'a st" by (simp add: grows_def emits_def)
  show "grows s t \<Longrightarrow> grows t u \<Longrightarrow> grows s u" for s t u :: "'a st"
    unfolding grows_def by (metis emitting.frame_trans)
qed

lemma growsI: "keeps (same internal_state) m \<Longrightarrow> keeps (emits (\<lambda>_. True)) m \<Longrightarrow> keeps grows m"
  by (simp add: keeps_def same_def internal_state_def grows_def)

lemma grows_boundary:
  "keeps grows (goRange L m)" "keeps grows (ns_NewResolver L a)" "keeps grows (os_do L c)"
  "keeps grows (ns_GetLicense L p)" "keeps grows (ns_IsCluster L r)"
  by (rule growsI; intro internal_rules emits_rules TrueI)+

lemma servers_grow:
  "keeps grows (NewControllerServer L)" "keeps grows (NewNodeServer L)" "keeps grows (driver_Validate L)"
  unfolding NewControllerServer_def new_ctrl_step_def NewNodeServer_def new_node_step_def driver_Validate_def
    driver_validate_step_def check_nodes_def
  by (intro growing.frame_rules keeps_cases grows_boundary growing.keeps_modify;
      simp add: grows_def emits_def)+

lemma NewControllerServer_covers:
  assumes "NewControllerServer L s = (Ret (), t)"
  shows "fst ` set (ctrlResolvers t) = fst ` set (NsMap (conf s)) \<and> nodeResolvers t = nodeResolvers s"
proof -
  from assms obtain rm u where l: "foldM (new_ctrl_step L) [] (entries (fst (mapSeed L (world s))) (NsMap (conf s)))
      (s\<lparr>world := snd (mapSeed L (world s))\<rparr>) = (Ret rm, u)" and t: "t = u\<lparr>ctrlResolvers := rm\<rparr>"
    by (auto simp: NewControllerServer_def ran)
  have "keeps (same internal_state) (foldM (new_ctrl_step L) m es)" for m es
    unfolding new_ctrl_step_def by (intro internal_rules keeps_cases)
  from internal_D [OF this l] new_ctrl_loop [OF l] t show ?thesis by (simp add: keys_entries)
qed

lemma NewNodeServer_covers:
  assumes "NewNodeServer L s = (Ret (), t)"
  shows "fst ` set (nodeResolvers t) = fst ` set (NsMap (conf s)) \<and> ctrlResolvers t = ctrlResolvers s"
proof -
  from assms obtain rm u where l: "foldM (new_node_step L) [] (entries (fst (mapSeed L (world s))) (NsMap (conf s)))
      (s\<lparr>world := snd (mapSeed L (world s))\<rparr>) = (Ret rm, u)" and t: "t = u\<lparr>nodeResolvers := rm\<rparr>"
    by (auto simp: NewNodeServer_def ran)
  have "keeps (same internal_state) (foldM (new_node_step L) m es)" for m es
    unfolding new_node_step_def by (intro internal_rules keeps_cases)
  from internal_D [OF this l] new_node_loop [OF l] t show ?thesis by (simp add: keys_entries)
qed

text \<open>The parts of \<open>Run\<close> that make the servers.\<close>

lemma Run_controller_Ret:
  assumes "(if IsController r then attempt (NewControllerServer L) h (\<lambda>_. ret [service_controller]) else ret []) s
      = (Ret sv, t)" and "\<And>e. h e = throw (g e)"
  shows "grows s t \<and> sv = (if IsController r then [service_controller] else []) \<and>
    (IsController r \<longrightarrow> fst ` set (ctrlResolvers t) = fst ` set (NsMap (conf s))) \<and> nodeResolvers t = nodeResolvers s"
proof (cases "IsController r")
  case True
  with assms have new: "NewControllerServer L s = (Ret (), t)" and "sv = [service_controller]" by (auto simp: ran)
  with NewControllerServer_covers [OF new] keepsD [OF servers_grow(1) new] True show ?thesis by simp
next
  case False
  with assms show ?thesis by (simp add: ret_run_iff growing.frame_refl)
qed

lemma Run_node_Ret:
  assumes "(if IsNode r then attempt (NewNodeServer L) h (\<lambda>_. ret [service_node]) else ret []) s
      = (Ret sv, t)" and "\<And>e. h e = throw (g e)"
  shows "grows s t \<and> sv = (if IsNode r then [service_node] else []) \<and>
    (IsNode r \<longrightarrow> fst ` set (nodeResolvers t) = fst ` set (NsMap (conf s))) \<and> ctrlResolvers t = ctrlResolvers s"
proof (cases "IsNode r")
  case True
  with assms have new: "NewNodeServer L s = (Ret (), t)" and "sv = [service_node]" by (auto simp: ran)
  with NewNodeServer_covers [OF new] keepsD [OF servers_grow(2) new] True show ?thesis by simp
next
  case False
  with assms show ?thesis by (simp add: ret_run_iff growing.frame_refl)
qed

lemma Run_Ret:
  assumes "Run L d s = (Ret (), t)"
  shows "conf t = conf s \<and> (\<exists>cs. trace t = trace s @ cs @ [ServeCall (services (d_role d))]) \<and>
    (IsController (d_role d) \<longrightarrow> fst ` set (ctrlResolvers t) = fst ` set (NsMap (conf s))) \<and>
    (IsNode (d_role d) \<longrightarrow> fst ` set (nodeResolvers t) = fst ` set (NsMap (conf s)))"
proof -
  let ?c = "if IsController (d_role d) then
             attempt (NewControllerServer L)
               (\<lambda>e. throw (PlainErr (''Failed to create ControllerServer: '' @ errText L e)))
               (\<lambda>_. ret [service_controller])
           else ret []"
  let ?n = "if IsNode (d_role d) then
             attempt (NewNodeServer L)
               (\<lambda>e. throw (PlainErr (''Failed to create NodeServer: '' @ errText L e)))
               (\<lambda>_. ret [service_node])
           else ret []"
  define pre where "pre = bind (lift_sum (driver_socket L (d_endpoint d))) (\<lambda>socket.
     bind (attempt (os_do L (Remove socket))
       (\<lambda>e. if \<not> os_IsNotExist e then throw (PlainErr (''Cannot remove unix domain socket: '' @ socket))
            else ret ()) ret) (\<lambda>_.
     attempt (os_do L (Listen ''unix'' socket))
       (\<lambda>e. throw (PlainErr (''Failed to create socket listener: '' @ errText L e))) ret))"
  have split: "Run L d = bind pre (\<lambda>_. bind ?c (\<lambda>controller. bind ?n (\<lambda>node.
      grpc_Serve L ([service_identity] @ controller @ node))))"
    unfolding Run_def pre_def by (simp only: bind_assoc)
  have "keeps grows pre" unfolding pre_def
    by (intro growing.frame_rules keeps_cases grows_boundary)
  with assms obtain u v w c n where "grows s u" and c: "?c u = (Ret c, v)" and n: "?n v = (Ret n, w)"
    and g: "grpc_Serve L ([service_identity] @ c @ n) w = (Ret (), t)"
    unfolding split bind_Ret_iff by (blast dest: keepsD)
  moreover note Run_controller_Ret [OF c refl] Run_node_Ret [OF n refl]
  moreover from g have "conf t = conf w" "ctrlResolvers t = ctrlResolvers w" "nodeResolvers t = nodeResolvers w"
    "trace t = trace w @ [ServeCall ([service_identity] @ c @ n)]"
    by (auto simp: grpc_Serve_def ran)
  ultimately show ?thesis by (auto simp: grows_def emits_def services_def)
qed

lemma main_parts_grow:
  "keeps grows (forM es log_options)" "keeps grows (NewDriver args)" "keeps grows (goRange L m)"
  unfolding log_options_def NewDriver_def
  by (intro growing.frame_rules keeps_cases grows_boundary)+

lemma or_terminate_Ret: "or_terminate L m s = (Ret x, t) \<longleftrightarrow> m s = (Ret x, t)"
  by (auto simp: or_terminate_def writeTerminationMessage_def ran)

text \<open>C10: when \<open>main\<close> gets to serving requests, the configuration in memory comes from a \<open>.yaml\<close> or
  \<open>.yml\<close> file and is valid, exactly the services of the role of the command line are registered (of role
  \<open>all\<close> when it is not known), and each registered server has resolvers for exactly the configured appliances.\<close>

theorem driver_main_serves:
  assumes "driver_main L flags s = (Ret (), t)" and "\<not> f_version flags"
  shows "let role = fst (ParseRole (f_role flags)); names = fst ` set (NsMap (conf t)) in
    is_yaml (filePath (conf t)) \<and>
    (\<forall>d \<in> ran (map_of (NsMap (conf t))). ns_valid d \<and> InsecureSkipVerify d \<noteq> None) \<and>
    (\<exists>cs. trace t = cs @ [ServeCall (services role)]) \<and>
    (IsController role \<longrightarrow> fst ` set (ctrlResolvers t) = names) \<and>
    (IsNode role \<longrightarrow> fst ` set (nodeResolvers t) = names)"
proof -
  let ?role = "fst (ParseRole (f_role flags))"
  let ?args = "\<lparr>a_Role = ?role, a_NodeID = f_nodeID flags, a_Endpoint = f_endpoint flags,
    a_ConfigSet = True, a_LogSet = True\<rparr>"
  from assms obtain u0 es u1 u2 d u3 u4 where new: "config_New L (f_configDir flags) s = (Ret (), u0)"
    and es: "goRange L (NsMap (conf u0)) u0 = (Ret es, u1)" and log: "forM es log_options u1 = (Ret (), u2)"
    and d: "NewDriver ?args u2 = (Ret d, u3)" and val: "driver_Validate L u3 = (Ret (), u4)"
    and run: "Run L d u4 = (Ret (), t)"
    by (auto simp: driver_main_def Let_def bind_Ret_iff attempt_Ret_iff gets_run_iff ret_run_iff throw_run_iff
        or_terminate_Ret)
  have "conf u4 = conf u0"
    using keepsD [OF main_parts_grow(3) es] keepsD [OF main_parts_grow(1) log] keepsD [OF main_parts_grow(2) d]
      keepsD [OF servers_grow(3) val] by (simp add: grows_def)
  moreover have "d_role d = ?role" using d by (auto simp: NewDriver_def ran)
  moreover note Run_Ret [OF run] config_New_valid [OF new]
  moreover have "\<exists>cs. trace t = cs @ [ServeCall (services ?role)]"
    using Run_Ret [OF run] \<open>d_role d = ?role\<close> by (metis append_assoc)
  ultimately show ?thesis by (auto simp: Let_def ran_def)
qed

definition main_flags :: Flags where
  "main_flags = \<lparr>f_nodeID = ''n1'', f_endpoint = ''unix:///csi.sock'', f_configDir = ''/'', f_role = ''node'',
     f_version = False\<rparr>"

lemmas main_eval = main_flags_def driver_main_def log_options_def NewDriver_def or_terminate_def driver_Validate_def
  driver_validate_step_def check_nodes_def Run_def driver_socket_def ns_GetLicense_def NewNodeServer_def
  new_node_step_def ParseRole_def Roles_def RoleAll_def RoleController_def RoleNode_def IsController_def IsNode_def
  os_do_def grpc_Serve_def ns_NewResolver_def

theorem driver_main_serves_witness:
  "\<exists>t. driver_main sim_lib main_flags (sim_process [] ''good'' 0) = (Ret (), t) \<and>
    fst ` set (nodeResolvers t) = fst ` set (NsMap (conf t)) \<and> NsMap (conf t) \<noteq> []"
proof -
  obtain t where run: "driver_main sim_lib main_flags (sim_process [] ''good'' 0) = (Ret (), t)" and "NsMap (conf t) \<noteq> []"
    by (simp add: main_eval config_New_def findConfigFile_def config_eval sim_defs filepath_Join_def
        filepath_Clean_def is_yaml_def filepath_Ext_def Let_def)
  moreover have "\<not> f_version main_flags" "fst (ParseRole (f_role main_flags)) = ''node''" "IsNode ''node''"
    by (simp_all add: main_eval)
  ultimately show ?thesis using driver_main_serves [OF run] by (auto simp: Let_def)
qed

end
