(* ===== verification/ControllerLifecycle.thy ===== *)
theory ControllerLifecycle
  imports ControllerVolumeProps
begin

text \<open>
  Sequences of requests about one volume: asking twice for the same volume (CSI requires that a request
  may be repeated), and creating a volume and deleting it again.
\<close>

section \<open>Retrying a creation\<close>

definition req_params :: "CreateVolumeRequest \<Rightarrow> ResolveNSParams" where
  "req_params req = \<lparr>rp_volumeGroup = get_str (cv_Parameters req) ''volumeGroup'',
     rp_zone = req_zone req, rp_configName = get_str (cv_Parameters req) ''configName''\<rparr>"

text \<open>The checks of the request do not look at the state: once a request without a source has been accepted,
  it always goes the same way.\<close>

lemma CreateVolume_accepted:
  fixes L :: "'w lib"
  assumes "cv_VolumeContentSource req = None" and "CreateVolume L req s = (Ret resp, t)"
  obtains sparse where "CreateVolume L req =
    bind (ctrl_use_config L (cv_Secrets req)) (\<lambda>_.
    bind (resolveNS L (req_params req)) (\<lambda>r.
    bind (createNewVolume L (rr_nsProvider r) (new_path req r) (req_bytes req) sparse) (\<lambda>_.
    bind (gets (\<lambda>s. ns_data (conf s) (rr_configName r))) (\<lambda>cfg.
    ret (create_response req cfg None (req_zone req) (req_bytes req) r (new_path req r))))))"
proof -
  have checks: "cv_Name req \<noteq> []" "cv_VolumeCapabilities req \<noteq> []"
      "first_unsupported (cv_VolumeCapabilities req) = None"
    using assms(2) by (auto simp: CreateVolume_def ran split: if_splits option.splits)
  moreover obtain sparse where "create_params L (cv_Parameters req) =
      ret (rp_volumeGroup (req_params req), rp_configName (req_params req), sparse)"
  proof (cases "map_of (cv_Parameters req) ''sparseVolume''")
    case None
    then show thesis using that
      by (simp add: create_params_def req_params_def get_str_def Let_def split: option.splits)
  next
    case (Some v)
    with assms(2) checks obtain b where "strconv_ParseBool v = Inr b"
      by (auto simp: CreateVolume_def create_params_def ran Let_def split: option.splits sum.splits)
    with Some show thesis using that
      by (simp add: create_params_def req_params_def get_str_def Let_def split: option.splits)
  qed
  moreover have "(create_source (cv_VolumeContentSource req) :: ('w st, _) M) = ret ([], [], None)"
    by (simp add: create_source_def assms(1))
  ultimately show thesis
    by (intro that [of sparse])
      (simp add: CreateVolume_def create_provision_def bind_assoc Let_def req_params_def)
qed

text \<open>A named appliance: its name and the group are fixed by the request and the configuration.\<close>

lemma resolveNS_named:
  assumes "resolveNS L ps s = (Ret r, t)" and "rp_configName ps \<noteq> []"
  shows "rr_configName r = rp_configName ps \<and>
    rr_volumeGroup r = (if rp_volumeGroup ps = [] then DefaultVolumeGroup (ns_data (conf s) (rp_configName ps))
                        else rp_volumeGroup ps)"
proof -
  have "resolve_named L (conf s) ps s = (Ret r, t)"
    using assms by (auto simp: resolveNS_def resolveNSNoZone_def resolveNSWithZone_def ran split: if_splits)
  from resolve_named_Ret [OF this] show ?thesis by simp
qed


lemma ctrl_use_config_not_exists: "ctrl_use_config L sec s \<noteq> (Fail (StatusErr AlreadyExists m), t)"
  by (auto simp: ctrl_use_config_def pick_secret_def run_goRange ran split: prod.splits)

lemma resolveNS_not_exists: "resolveNS L ps s \<noteq> (Fail (StatusErr AlreadyExists m), t)"
  by (auto simp: resolveNS_def resolve_failed_def ran split: if_splits)

text \<open>The last step of a retry.\<close>

lemma createNewVolume_again:
  assumes "create_contract L p vols" and "n \<noteq> 0" and "vols (world s) path = Some n"
    and "createNewVolume L (Some p) path n sparse s = (res, t)"
  shows "vols (world t) = vols (world s) \<and> (\<forall>m. res \<noteq> Fail (StatusErr AlreadyExists m))"
  using createNewVolume_spec [OF assms(1,2), where path = path and sparse = sparse and s = s] assms(3,4)
  by (auto simp: spec_create_def)

lemma createNewVolume_no_provider: "createNewVolume L None path n sparse s = (Panic, s)"
  by (simp add: createNewVolume_def run_simps)

text \<open>C15: Creating a volume can be repeated, when the request has no content source and the StorageClass names
  the appliance: if the volumes
  and the configuration are as the first, successful request left them, the same request never fails with
  \<open>AlreadyExists\<close> and never changes a volume, and when it succeeds it gives the same response.
  (Without a name, the appliance depends on the order in which Go visits the resolvers.)\<close>

theorem CreateVolume_retry:
  fixes L :: "'w lib"
  assumes "lookups_keep L vols" and "\<And>p. create_contract L p vols"
    and "cv_VolumeContentSource req = None" and "get_str (cv_Parameters req) ''configName'' \<noteq> []"
    and "CreateVolume L req s = (Ret resp, t)"
    and "vols (world t') = vols (world t)"
    and "CreateVolume L req t' = (res, u)" and "NsMap (conf u) = NsMap (conf t)"
  shows "vols (world u) = vols (world t) \<and> (\<forall>m. res \<noteq> Fail (StatusErr AlreadyExists m)) \<and>
    (\<forall>resp'. res = Ret resp' \<longrightarrow> resp' = resp)"
proof -
  obtain sp where run: "CreateVolume L req = bind (ctrl_use_config L (cv_Secrets req)) (\<lambda>_.
    bind (resolveNS L (req_params req)) (\<lambda>r.
    bind (createNewVolume L (rr_nsProvider r) (new_path req r) (req_bytes req) sp) (\<lambda>_.
    bind (gets (\<lambda>s. ns_data (conf s) (rr_configName r))) (\<lambda>cfg.
    ret (create_response req cfg None (req_zone req) (req_bytes req) r (new_path req r))))))"
    by (rule CreateVolume_accepted [OF assms(3,5)])
  have named: "rp_configName (req_params req) \<noteq> []" using assms(4) by (simp add: req_params_def)
  have n: "req_bytes req \<noteq> 0" by (simp add: requested_capacity_def Let_def)
  from assms(5) obtain s1 s2 r where c1: "ctrl_use_config L (cv_Secrets req) s = (Ret (), s1)"
    and r1: "resolveNS L (req_params req) s1 = (Ret r, s2)"
    and n1: "createNewVolume L (rr_nsProvider r) (new_path req r) (req_bytes req) sp s2 = (Ret (), t)"
    and resp: "resp = create_response req (ns_data (conf t) (rr_configName r)) None (req_zone req) (req_bytes req) r
      (new_path req r)"
    unfolding run by (auto simp: ran)
  obtain p where p: "rr_nsProvider r = Some p"
    using n1 by (cases "rr_nsProvider r") (auto simp: createNewVolume_no_provider)
  have there: "vols (world t) (new_path req r) = Some (req_bytes req)"
    using createNewVolume_spec [OF assms(2) n, where p = p and path = "new_path req r" and sparse = sp and s = s2] n1 p
    by (auto simp: spec_create_def split: option.splits if_splits)
  obtain a u1 where c2: "ctrl_use_config L (cv_Secrets req) t' = (a, u1)" by fastforce
  have v1: "vols (world u1) = vols (world t)"
    using view_D [OF ctrl_use_config_view [OF assms(1)] c2] assms(6) by simp
  show ?thesis
  proof (cases a)
    case (Ret x)
    obtain b u2 where r2: "resolveNS L (req_params req) u1 = (b, u2)" by fastforce
    have v2: "vols (world u2) = vols (world t)"
      using view_D [OF resolveNS_view [OF assms(1)] r2] v1 by simp
    show ?thesis
    proof (cases b)
      case (Ret q)
      obtain d u3 where n2: "createNewVolume L (rr_nsProvider q) (new_path req q) (req_bytes req) sp u2 = (d, u3)"
        by fastforce
      have u: "u = u3" using assms(7) c2 r2 n2 \<open>a = Ret x\<close> Ret unfolding run by (cases d) (simp_all add: run_simps)
      have "NsMap (conf u1) = NsMap (conf s1)"
        using assms(8) u internal_D [OF resolveNS_frame(2) r2] internal_D [OF making_internal(1) n2]
          internal_D [OF resolveNS_frame(2) r1] internal_D [OF making_internal(1) n1] by simp
      with resolveNS_named [OF r1 named] resolveNS_named [OF r2 [unfolded Ret] named]
      have same: "rr_configName q = rr_configName r" "rr_volumeGroup q = rr_volumeGroup r"
        by (auto simp: ns_data_def)
      have cfg: "ns_data (conf u) (rr_configName r) = ns_data (conf t) (rr_configName r)"
        using assms(8) by (simp add: ns_data_def)
      have fin: "vols (world u) = vols (world t) \<and> (\<forall>m. d \<noteq> Fail (StatusErr AlreadyExists m))"
      proof (cases "rr_nsProvider q")
        case None
        with n2 u v2 show ?thesis by (simp add: createNewVolume_no_provider)
      next
        case (Some k)
        with createNewVolume_again [OF assms(2) n _ n2 [unfolded Some]] there same v2 u show ?thesis by simp
      qed
      have "res = (case d of Ret _ \<Rightarrow> Ret resp | Fail e \<Rightarrow> Fail e | Panic \<Rightarrow> Panic | NoFuel \<Rightarrow> NoFuel)"
        using assms(7) c2 r2 n2 \<open>a = Ret x\<close> Ret same cfg u unfolding run
        by (cases d) (auto simp: run_simps resp create_response_def)
      with fin show ?thesis by (auto split: outcome.splits)
    qed (use assms(7) c2 r2 Ret v2 in \<open>auto simp: run run_simps resolveNS_not_exists\<close>)
  qed (use assms(7) c2 v1 in \<open>auto simp: run run_simps ctrl_use_config_not_exists\<close>)
qed


text \<open>A StorageClass that names the appliance.\<close>

definition sim_create_named :: CreateVolumeRequest where
  "sim_create_named = (sim_create ''v'')\<lparr>cv_Parameters := [(''configName'', ''a'')]\<rparr>"

theorem CreateVolume_retry_witness:
  "\<exists>resp t u. CreateVolume sim_lib sim_create_named (sim_process [(''a'', sim_data\<lparr>Zone := ''z''\<rparr>)] ''good'' 7) =
      (Ret resp, t) \<and> CreateVolume sim_lib sim_create_named t = (Ret resp, u) \<and>
    map_of (sim_vols (world u)) ''p/g/v'' = Some 5"
proof -
  let ?s = "sim_process [(''a'', sim_data\<lparr>Zone := ''z''\<rparr>)] ''good'' 7"
  obtain resp t resp' u where run: "CreateVolume sim_lib sim_create_named ?s = (Ret resp, t)"
    and again: "CreateVolume sim_lib sim_create_named t = (Ret resp', u)"
    and same: "NsMap (conf u) = NsMap (conf t)" and v: "map_of (sim_vols (world t)) ''p/g/v'' = Some 5"
    by (simp add: sim_create_named_def sim_create_def create_eval resolve_named_def ctrl_resolver_def ns_GetVolume_def config_eval
        sim_defs filepath_Join_def filepath_Clean_def)
  have "cv_VolumeContentSource sim_create_named = None"
    and "get_str (cv_Parameters sim_create_named) ''configName'' \<noteq> []"
    by (simp_all add: sim_create_named_def sim_create_def get_str_def)
  from CreateVolume_retry [OF sim_lookups_keep sim_create_contract_all this run refl again same] run again v
  show ?thesis by (metis comp_apply)
qed

section \<open>Creating and deleting\<close>

text \<open>C16: Creating a volume and deleting it again restores the volumes exactly: for a request without a content
  source, a path where nothing was before and which shares no LUN mapping with another volume, and an id of the form
  \<open>config:pool/group/name\<close>, when both requests succeed. The one exception is a delete
  that could not resolve the group and got an error classified as "not found": it succeeds too, and leaves the
  volumes as they were after the creation.\<close>

theorem CreateVolume_DeleteVolume:
  assumes "lookups_keep L vols" and "lookups_keep L luns"
    and "\<And>p. create_contract L p vols" and "\<And>p. destroy_contract L p vols luns"
    and "cv_VolumeContentSource req = None" and "CreateVolume L req s = (Ret resp, t)"
    and "strings_Split (cr_VolumeId resp) '':'' = [cn, path]" and "strings_Split path ''/'' = [a, b, n]"
    and "vols (world s) path = None"
    and "\<And>v. v \<noteq> path \<Longrightarrow> luns (world t) v \<inter> luns (world t) path = {}"
    and "DeleteVolume L \<lparr>dv_VolumeId = cr_VolumeId resp, dv_Secrets = secrets\<rparr> t = (Ret (), u)"
  shows "vols (world u) = vols (world s) \<or>
    vols (world u) = vols (world t) \<and> (\<exists>e v. ctrl_use_config L secrets t = (Ret (), v) \<and>
       resolveNS L \<lparr>rp_volumeGroup = a @ ''/'' @ b, rp_zone = [], rp_configName = cn\<rparr> v = (Fail e, u) \<and>
       statusCode L e = NotFound)"
proof -
  obtain cn' path' where "cr_VolumeId resp = cn' @ '':'' @ path'"
    and made: "vols (world t) = (vols (world s))(path' := Some (cr_CapacityBytes resp))"
    using CreateVolume_effect [OF assms(1,3,5,6)] by blast
  with assms(7) have "path' = path"
    by (auto simp: strings_Split_two append_eq_append_conv2 Cons_eq_append_conv append_eq_Cons_conv)
  moreover from DeleteVolume_effect [OF assms(1,2,4,10) _ assms(8) assms(11)] assms(7)
  have "vols (world u) = (vols (world t))(path := None) \<or>
    vols (world u) = vols (world t) \<and> (\<exists>e v. ctrl_use_config L secrets t = (Ret (), v) \<and>
       resolveNS L \<lparr>rp_volumeGroup = a @ ''/'' @ b, rp_zone = [], rp_configName = cn\<rparr> v = (Fail e, u) \<and>
       statusCode L e = NotFound)" by auto
  ultimately show ?thesis using made assms(9) by auto
qed


theorem CreateVolume_DeleteVolume_witness:
  "\<exists>resp t u. CreateVolume sim_lib (sim_create ''v'') (sim_process [(''a'', sim_data\<lparr>Zone := ''z''\<rparr>)] ''good'' 7) =
      (Ret resp, t) \<and> DeleteVolume sim_lib \<lparr>dv_VolumeId = cr_VolumeId resp, dv_Secrets = []\<rparr> t = (Ret (), u) \<and>
    map_of (sim_vols (world u)) = Map.empty"
proof -
  let ?s = "sim_process [(''a'', sim_data\<lparr>Zone := ''z''\<rparr>)] ''good'' 7"
  obtain resp t where run: "CreateVolume sim_lib (sim_create ''v'') ?s = (Ret resp, t)"
    and i: "cr_VolumeId resp = ''a:p/g/v''" and l: "sim_luns (world t) = []"
    and found: "\<exists>u r v. ctrl_use_config sim_lib [] t = (Ret (), u) \<and>
      resolveNS sim_lib \<lparr>rp_volumeGroup = ''p/g'', rp_zone = [], rp_configName = ''a''\<rparr> u = (Ret r, v)"
    and d: "\<exists>u. DeleteVolume sim_lib \<lparr>dv_VolumeId = ''a:p/g/v'', dv_Secrets = []\<rparr> t = (Ret (), u)"
    by (simp add: sim_create_def create_eval config_eval sim_defs filepath_Join_def filepath_Clean_def
        DeleteVolume_def delete_on_def destroy_luns_def resolve_named_def ctrl_resolver_def
        ns_GetLunMappings_def luns_of_volume_def)
  from d obtain u where del: "DeleteVolume sim_lib \<lparr>dv_VolumeId = cr_VolumeId resp, dv_Secrets = []\<rparr> t = (Ret (), u)"
    using i by auto
  have "cv_VolumeContentSource (sim_create ''v'') = None" by (simp add: sim_create_def)
  moreover have "strings_Split (cr_VolumeId resp) '':'' = [''a'', ''p/g/v'']" by (simp add: i)
  moreover have "strings_Split ''p/g/v'' ''/'' = [''p'', ''g'', ''v'']" by simp
  moreover have "(map_of \<circ> sim_vols) (world ?s) ''p/g/v'' = None" by (simp add: sim_process_def sim_empty_def)
  moreover have "\<And>v. v \<noteq> ''p/g/v'' \<Longrightarrow> sim_lun_ids (world t) v \<inter> sim_lun_ids (world t) ''p/g/v'' = {}"
    by (simp add: sim_lun_ids_def l)
  ultimately have "(map_of \<circ> sim_vols) (world u) = (map_of \<circ> sim_vols) (world ?s)"
    using CreateVolume_DeleteVolume [OF sim_lookups_keep sim_lookups_keep sim_create_contract_all
      sim_destroy_contract_all _ run _ _ _ _ del] found by fastforce
  with run del show ?thesis by (auto simp: sim_process_def sim_empty_def)
qed

end
