(* ===== verification/ProcessSafety.thy ===== *)
theory ProcessSafety
  imports DriverProcess ControllerLifecycle
begin

text \<open>
  When a request can crash the driver, and that every request ends. A panic in a handler ends the process, with
  all its services. A request that names its appliance, or needs none, ends in a panic only right after a call of
  the client library of the appliance that gave back nothing: no resolver (also together with an error, which the
  code looks at too late), or neither a provider nor an error, or a panic of the library itself. The requests left
  out are those that leave the choice of the appliance to the driver, and on the node those that need a resolver.
\<close>

section \<open>Operations that do not panic\<close>

lemma no_panic_Let [safe_rules]: "no_panic (f x) \<Longrightarrow> no_panic (Let x f)"
  by simp

lemma no_panic_case_sum [safe_rules]:
  "(\<And>x. p = Inl x \<Longrightarrow> no_panic (f x)) \<Longrightarrow> (\<And>x. p = Inr x \<Longrightarrow> no_panic (g x)) \<Longrightarrow>
    no_panic (case p of Inl x \<Rightarrow> f x | Inr x \<Rightarrow> g x)"
  by (cases p) simp_all

lemma no_panic_deref_Some [safe_rules]: "no_panic (k x) \<Longrightarrow> no_panic (deref (Some x) k)"
  by (simp add: deref_def)

lemma no_panic_goRange [safe_rules]: "no_panic (goRange L m)"
  by (simp add: no_panic_def run_goRange)

lemma no_panic_provider [safe_rules]:
  "no_panic (ns_do L (Some p) c)" "no_panic (ns_GetVolume L (Some p) path)" "no_panic (ns_GetSnapshot L (Some p) path)"
  "no_panic (ns_GetSnapshots L (Some p) path r)" "no_panic (ns_GetLunMappings L (Some p) ps)"
  "no_panic (os_Stat L path)" "no_panic (os_ReadFile L path)" "no_panic (time_Sleep L dur)"
  "no_panic (ns_NewResolver L a)"
  unfolding boundary_defs by (intro safe_rules)+

lemmas [safe_rules] = no_panic_forM

section \<open>Requests that cannot crash the driver\<close>

text \<open>What is relied on: a text that is loaded says \<open>dynamicTargetLunAllocation\<close> for every appliance.\<close>

definition texts_complete :: "'w lib \<Rightarrow> bool" where
  "texts_complete L \<longleftrightarrow> (\<forall>content old m debug. yamlUnmarshal L content old = (None, m, debug) \<longrightarrow>
     (\<forall>name d. map_of m name = Some d \<longrightarrow> DynamicTargetLunAllocation d \<noteq> None))"

lemma validate_entry_safe: "DynamicTargetLunAllocation d \<noteq> None \<Longrightarrow> no_panic (validate_entry name d)"
  by (simp add: no_panic_def validate_entry_Panic)

lemma validate_loop_safe:
  "(\<And>k d. (k, d) \<in> set es \<Longrightarrow> DynamicTargetLunAllocation d \<noteq> None) \<Longrightarrow> no_panic (forM es validate_step)"
  unfolding validate_step_def by (intro safe_rules validate_entry_safe) blast

lemma refresh_load_safe:
  assumes "texts_complete L"
  shows "no_panic (refresh_load L content)"
  unfolding no_panic_def
proof (intro allI notI)
  fix s assume "fst (refresh_load L content s) = Panic"
  then obtain t where p: "refresh_load L content s = (Panic, t)" by (metis prod.collapse)
  obtain e m debug where y: "yamlUnmarshal L content (NsMap (conf s), Debug (conf s)) = (e, m, debug)"
    by (metis prod.collapse)
  show False
  proof (cases e)
    case (Some err)
    with p y show False by (auto simp: refresh_load_def run_simps)
  next
    case None
    let ?u = "set_conf (\<lambda>c. c\<lparr>NsMap := m, Debug := debug\<rparr>) s"
    from p y None have "Validate L ?u = (Panic, t)" by (simp add: refresh_load_def run_simps)
    then obtain n v where v: "forM (entries n m) validate_step v = (Panic, t)"
      by (auto simp: Validate_def ran run_goRange set_conf_def split: prod.splits)
    have "no_panic (forM (entries n m) validate_step :: ('a st, unit) M)"
    proof (rule validate_loop_safe)
      fix k d assume "(k, d) \<in> set (entries n m)"
      then have "map_of m k = Some d" by (simp add: set_entries)
      with assms y None show "DynamicTargetLunAllocation d \<noteq> None" unfolding texts_complete_def by blast
    qed
    then show False using v by (rule notE [OF no_panicD])
  qed
qed

lemma Refresh_safe: "texts_complete L \<Longrightarrow> no_panic (Refresh L secret)"
  unfolding Refresh_def refresh_content_def by (intro safe_rules refresh_load_safe)

section \<open>What a panic is due to\<close>

text \<open>The last thing that happened was a call of the client library that gave back no resolver, or that panicked or
  gave back neither a provider nor an error.\<close>

definition client_broke :: "'w lib \<Rightarrow> 'w st \<Rightarrow> bool" where
  "client_broke L t \<longleftrightarrow> (\<exists>cs c w. trace t = cs @ [c] \<and> (case c of
      NewResolverCall a \<Rightarrow> \<exists>err. NewResolver L a w = ((None, err), world t)
    | ResolveCall r vg \<Rightarrow> ResolveFromVg L r vg w \<in> {(None, world t), (Some (None, None), world t)}
    | _ \<Rightarrow> False))"

definition blames :: "'w lib \<Rightarrow> ('w st, 'a) M \<Rightarrow> bool" where
  "blames L m \<longleftrightarrow> (\<forall>s t. m s = (Panic, t) \<longrightarrow> client_broke L t)"

named_theorems blames_rules \<open>operations that panic only after a call of the client library that gave back nothing\<close>

lemma blamesD: "blames L m \<Longrightarrow> m s = (Panic, t) \<Longrightarrow> client_broke L t"
  unfolding blames_def by blast

lemma no_panic_blames: "no_panic m \<Longrightarrow> blames L m"
  unfolding blames_def no_panic_def by (metis fst_conv)

lemma blames_basic [blames_rules]: "blames L (ret x)" "blames L (throw e)" "blames L (gets f)" "blames L (modify g)"
  by (simp_all add: blames_def ran)

lemma blames_attempt [blames_rules]:
  "blames L m \<Longrightarrow> (\<And>e. blames L (h e)) \<Longrightarrow> (\<And>x. blames L (k x)) \<Longrightarrow> blames L (attempt m h k)"
  unfolding blames_def attempt_Panic_iff by blast

lemma blames_bind [blames_rules]: "blames L m \<Longrightarrow> (\<And>x. blames L (k x)) \<Longrightarrow> blames L (bind m k)"
  unfolding blames_def bind_Panic_iff by blast

lemma blames_bind_gives:
  "no_panic m \<Longrightarrow> gives P m \<Longrightarrow> (\<And>x. P x \<Longrightarrow> blames L (k x)) \<Longrightarrow> blames L (bind m k)"
  unfolding blames_def bind_Panic_iff using no_panicD [of m] givesD [of P m] by blast

lemma blames_if [blames_rules]:
  "(c \<Longrightarrow> blames L a) \<Longrightarrow> (\<not> c \<Longrightarrow> blames L b) \<Longrightarrow> blames L (if c then a else b)"
  by simp

lemma blames_case_option [blames_rules]:
  "(p = None \<Longrightarrow> blames L a) \<Longrightarrow> (\<And>x. p = Some x \<Longrightarrow> blames L (f x)) \<Longrightarrow>
    blames L (case p of None \<Rightarrow> a | Some x \<Rightarrow> f x)"
  by (cases p) simp_all

lemma blames_case_prod [blames_rules]:
  "(\<And>a b. p = (a, b) \<Longrightarrow> blames L (f a b)) \<Longrightarrow> blames L (case p of (a, b) \<Rightarrow> f a b)"
  by (cases p) simp

lemma blames_Let [blames_rules]: "blames L (f x) \<Longrightarrow> blames L (Let x f)"
  by simp

lemma blames_forM: "(\<And>x. x \<in> set xs \<Longrightarrow> blames L (f x)) \<Longrightarrow> blames L (forM xs f)"
  by (induction xs) (simp_all add: blames_basic blames_bind)

text \<open>A resolver that is missing is read at once, with or without an error beside it.\<close>

lemma new_resolver_blames:
  assumes "\<And>r err. blames L (k r err)"
  shows "blames L (bind (ns_NewResolver L a) (\<lambda>(r, err). deref r (\<lambda>r. k r err)))"
  unfolding blames_def
proof (intro allI impI)
  fix s t assume p: "bind (ns_NewResolver L a) (\<lambda>(r, err). deref r (\<lambda>r. k r err)) s = (Panic, t)"
  obtain r err w where n: "NewResolver L a (world s) = ((r, err), w)" by (metis prod.collapse)
  let ?u = "s\<lparr>world := w, trace := trace s @ [NewResolverCall a]\<rparr>"
  show "client_broke L t"
  proof (cases r)
    case None
    with p n have "t = ?u" by (simp add: ns_NewResolver_def run_simps)
    then show ?thesis using n None unfolding client_broke_def
      by (intro exI [of _ "trace s"] exI [of _ "NewResolverCall a"] exI [of _ "world s"]) simp
  next
    case (Some x)
    with p n have "k x err ?u = (Panic, t)" by (simp add: ns_NewResolver_def run_simps)
    with assms show ?thesis unfolding blames_def by blast
  qed
qed

lemma ctrl_refresh_blames:
  assumes "texts_complete L"
  shows "blames L (ctrl_refreshConfig L secret)"
  unfolding blames_def
proof (intro allI impI)
  fix s t assume p: "ctrl_refreshConfig L secret s = (Panic, t)"
  with no_panicD [OF Refresh_safe [OF assms]] obtain u es v where r: "Refresh L secret s = (Ret True, u)"
    and es: "es = entries (fst (mapSeed L (world u))) (NsMap (conf u))" and f: "forM es (ctrl_refresh_step L) v = (Panic, t)"
    by (auto simp: ctrl_refreshConfig_def ran run_goRange split: if_splits prod.splits)
  have "blames L (ctrl_refresh_step L e)" if "e \<in> set es" for e
  proof -
    obtain name d where e: "e = (name, d)" by (cases e)
    with that es have "map_of (NsMap (conf u)) name = Some d" by (simp add: set_entries)
    with Refresh_loaded [OF r] have "InsecureSkipVerify d \<noteq> None" by blast
    then obtain skip where skip: "InsecureSkipVerify d = Some skip" by blast
    show ?thesis unfolding e ctrl_refresh_step_def prod.case skip deref_def option.case
      using new_resolver_blames [unfolded deref_def] by (intro new_resolver_blames [unfolded deref_def] blames_rules)
  qed
  with f show "client_broke L t" using blamesD [OF blames_forM] by metis
qed

lemma ctrl_use_config_blames: "texts_complete L \<Longrightarrow> blames L (ctrl_use_config L secrets)"
  unfolding ctrl_use_config_def pick_secret_def
  by (intro blames_rules ctrl_refresh_blames no_panic_blames [OF no_panic_goRange])

text \<open>With the name of an appliance, finding it gives a provider, or the client library gave back nothing.\<close>

lemma resolveNS_blames:
  assumes "rp_configName ps \<noteq> []"
  shows "blames L (resolveNS L ps)"
    and "resolveNS L ps s = (Ret r, t) \<Longrightarrow> rr_nsProvider r \<noteq> None \<or> client_broke L t"
proof -
  have ask: "(ns_ResolveFromVg L x vg s = (Panic, t) \<longrightarrow> client_broke L t) \<and>
      (ns_ResolveFromVg L x vg s = (Ret (None, None), t) \<longrightarrow> client_broke L t)" for x vg s t
  proof -
    obtain a w where a: "ResolveFromVg L x vg (world s) = (a, w)" by fastforce
    have "client_broke L (s\<lparr>world := w, trace := trace s @ [ResolveCall x vg]\<rparr>)" if "a \<in> {None, Some (None, None)}"
      using that a unfolding client_broke_def
      by (intro exI [of _ "trace s"] exI [of _ "ResolveCall x vg"] exI [of _ "world s"]) auto
    with a show ?thesis by (auto simp: ns_ResolveFromVg_def run_ext_call ran)
  qed
  have panics: "blames L (resolve_named L c ps)" for c
    using ask by (auto simp: blames_def resolve_named_def ran Let_def split: option.splits)
  have gives: "resolve_named L c ps s = (Ret r, t) \<Longrightarrow> rr_nsProvider r \<noteq> None \<or> client_broke L t" for c s
  proof -
    assume "resolve_named L c ps s = (Ret r, t)"
    then obtain x vg p where "ns_ResolveFromVg L x vg s = (Ret (p, None), t)" and "rr_nsProvider r = p"
      by (auto simp: resolve_named_def ran Let_def split: option.splits)
    with ask [of x vg s t] show ?thesis by (cases p) simp_all
  qed
  have len: "length (rp_configName ps) > 0" using assms by simp
  show "blames L (resolveNS L ps)"
    unfolding resolveNS_def resolveNSNoZone_def resolveNSWithZone_def if_P [OF len]
    by (intro blames_rules panics no_panic_blames) (simp_all add: safe_rules)
  show "rr_nsProvider r \<noteq> None \<or> client_broke L t" if "resolveNS L ps s = (Ret r, t)"
    using that gives unfolding resolveNS_def resolveNSNoZone_def resolveNSWithZone_def if_P [OF len]
    by (auto simp: ran split: if_splits)
qed

text \<open>Continuing with the provider of a resolved appliance, or with none, which panics at once.\<close>

lemma with_provider_blames:
  assumes "rp_configName ps \<noteq> []" and "\<And>r p. rr_nsProvider r = Some p \<Longrightarrow> no_panic (k r)"
    and "\<And>r. rr_nsProvider r = None \<Longrightarrow> k r = panic"
  shows "blames L (bind (resolveNS L ps) k)"
    and "(\<And>e. no_panic (h e)) \<Longrightarrow> blames L (attempt (resolveNS L ps) h k)"
proof -
  note res = resolveNS_blames [OF assms(1)]
  have k: "client_broke L t" if "resolveNS L ps s = (Ret r, u)" and "k r u = (Panic, t)" for s r u t
  proof (cases "rr_nsProvider r")
    case None
    with assms(3) that(2) have "t = u" by (simp add: panic_run_iff)
    with res(2) [OF that(1)] None show ?thesis by simp
  next
    case (Some p)
    with that(2) no_panicD [OF assms(2)] show ?thesis by blast
  qed
  show "blames L (bind (resolveNS L ps) k)"
    unfolding blames_def bind_Panic_iff using k blamesD [OF res(1)] by blast
  show "blames L (attempt (resolveNS L ps) h k)" if "\<And>e. no_panic (h e)"
    unfolding blames_def attempt_Panic_iff using k blamesD [OF res(1)] no_panicD [OF that] by blast
qed

lemma panic_first [simp]: "bind panic k = panic" "attempt panic h k = panic"
  by (simp_all add: bind_def attempt_def panic_def fun_eq_iff)

lemma on_no_provider [simp]:
  "ns_do L None c = panic" "ns_GetVolume L None path = panic" "ns_GetSnapshot L None path = panic"
  "ns_GetSnapshots L None path rec = panic" "ns_GetLunMappings L None ps = panic"
  "createNewVolume L None path n sp = panic" "createNewVolumeFromSnapshot L None snap path n = panic"
  "CreateSnapshotOnNS L None path name = panic" "createClonedVolume L None src path name n = panic"
  "expand_on L None path n = panic" "delete_on L None path = panic" "unpublish_on L None path = panic"
  "destroy_snapshot_on L None path = panic"
  by (simp_all add: boundary_defs deref_def createNewVolume_def createNewVolumeFromSnapshot_def CreateSnapshotOnNS_def
      createClonedVolume_def expand_on_def delete_on_def unpublish_on_def destroy_snapshot_on_def Let_def)

lemma not_found_ok_safe [safe_rules]: "no_panic (not_found_ok L x e)"
  unfolding not_found_ok_def by (intro safe_rules)

lemma on_provider_safe [safe_rules]:
  "no_panic (createNewVolume L (Some p) path n sp)"
  "no_panic (createNewVolumeFromSnapshot L (Some p) snap path n)"
  "no_panic (CreateSnapshotOnNS L (Some p) path name)"
  "no_panic (expand_on L (Some p) path n)"
  "no_panic (delete_on L (Some p) path)"
  "no_panic (destroy_luns L (Some p) ls)"
  "no_panic (destroy_snapshot_on L (Some p) path)"
  unfolding createNewVolume_def createNewVolumeFromSnapshot_def CreateSnapshotOnNS_def expand_on_def
    delete_on_def destroy_luns_def destroy_snapshot_on_def
  by (intro safe_rules)+

lemma createClonedVolume_safe [safe_rules]: "no_panic (createClonedVolume L (Some p) src path name n)"
  unfolding createClonedVolume_def by (intro safe_rules)

lemma wait_luns_gone_safe: "no_panic (wait_luns_gone L (Some q) path n luns)"
proof (induction "nat (61 - n)" arbitrary: n luns rule: less_induct)
  case less
  show ?case
  proof (subst wait_luns_gone.simps, intro safe_rules)
    fix luns' assume "\<not> n > 60"
    then show "no_panic (wait_luns_gone L (Some q) path (n + 1) luns')" by (intro less) simp
  qed
qed

lemma unpublish_on_safe [safe_rules]: "no_panic (unpublish_on L (Some p) path)"
  unfolding unpublish_on_def by (intro safe_rules wait_luns_gone_safe)

text \<open>The requests that name their appliance, and those that need none.\<close>

definition id_names_appliance :: "string \<Rightarrow> bool" where
  "id_names_appliance i \<longleftrightarrow> (\<forall>cn path. strings_Split i '':'' = [cn, path] \<longrightarrow> cn \<noteq> [])"

fun safe_request :: "request \<Rightarrow> bool" where
  "safe_request (CreateVolumeReq q) \<longleftrightarrow> get_str (cv_Parameters q) ''configName'' \<noteq> [] \<and>
     id_names_appliance (snapshot_source q) \<and> id_names_appliance (volume_source q)"
| "safe_request (DeleteVolumeReq q) \<longleftrightarrow> id_names_appliance (dv_VolumeId q)"
| "safe_request (ControllerPublishVolumeReq q) \<longleftrightarrow> id_names_appliance (pb_VolumeId q)"
| "safe_request (ControllerUnpublishVolumeReq q) \<longleftrightarrow> id_names_appliance (up_VolumeId q)"
| "safe_request (ControllerExpandVolumeReq q) \<longleftrightarrow> id_names_appliance (ex_VolumeId q)"
| "safe_request (CreateSnapshotReq q) \<longleftrightarrow> id_names_appliance (cs_SourceVolumeId q)"
| "safe_request (DeleteSnapshotReq i) \<longleftrightarrow>
     (\<forall>vol n. strings_Split i ''@'' = [vol, n] \<longrightarrow> id_names_appliance vol)"
| "safe_request (ListVolumesReq q) \<longleftrightarrow> False"
| "safe_request (GetCapacityReq q) \<longleftrightarrow> False"
| "safe_request (ListSnapshotsReq q) \<longleftrightarrow> False"
| "safe_request (NodeStageVolumeReq q) \<longleftrightarrow> False"
| "safe_request (NodeExpandVolumeReq q) \<longleftrightarrow> False"
| "safe_request (NodeGetVolumeStatsReq q) \<longleftrightarrow> False"
| "safe_request _ \<longleftrightarrow> True"

lemma id_names_applianceD: "id_names_appliance i \<Longrightarrow> two (strings_Split i '':'') = Some (cn, path) \<Longrightarrow> cn \<noteq> []"
  by (simp add: id_names_appliance_def two_Some)

lemma create_provision_blames:
  assumes "rp_configName ps \<noteq> []" and "id_names_appliance snap" and "id_names_appliance vol"
  shows "blames L (create_provision L ps snap vol name n sp)"
  unfolding create_provision_def Let_def
  by (intro blames_rules with_provider_blames)
    (use assms in \<open>auto dest: id_names_applianceD intro!: safe_rules\<close>)

lemma volume_handlers_blame:
  assumes "texts_complete L"
  shows "id_names_appliance (dv_VolumeId q1) \<Longrightarrow> blames L (DeleteVolume L q1)"
    and "id_names_appliance (up_VolumeId q2) \<Longrightarrow> blames L (ControllerUnpublishVolume L q2)"
    and "id_names_appliance (ex_VolumeId q3) \<Longrightarrow> blames L (ControllerExpandVolume L q3)"
    and "id_names_appliance (pb_VolumeId q4) \<Longrightarrow> blames L (ControllerPublishVolume L q4)"
    and "blames L (ValidateVolumeCapabilities L q5)"
proof -
  note use = ctrl_use_config_blames [OF assms]
  show "id_names_appliance (dv_VolumeId q1) \<Longrightarrow> blames L (DeleteVolume L q1)"
    unfolding DeleteVolume_def
    by (intro with_provider_blames blames_rules use) (auto dest: id_names_applianceD intro!: safe_rules)
  show "id_names_appliance (up_VolumeId q2) \<Longrightarrow> blames L (ControllerUnpublishVolume L q2)"
    unfolding ControllerUnpublishVolume_def
    by (intro with_provider_blames blames_rules use) (auto dest: id_names_applianceD intro!: safe_rules)
  show "id_names_appliance (ex_VolumeId q3) \<Longrightarrow> blames L (ControllerExpandVolume L q3)"
    unfolding ControllerExpandVolume_def Let_def
    by (intro with_provider_blames blames_rules use) (auto dest: id_names_applianceD intro!: safe_rules)
  show "id_names_appliance (pb_VolumeId q4) \<Longrightarrow> blames L (ControllerPublishVolume L q4)"
    unfolding ControllerPublishVolume_def
    by (intro with_provider_blames blames_rules) (auto dest: id_names_applianceD intro!: safe_rules)
  show "blames L (ValidateVolumeCapabilities L q5)"
    unfolding ValidateVolumeCapabilities_def Let_def by (intro blames_rules use)
qed

lemma snapshot_handlers_blame:
  assumes "texts_complete L"
  shows "id_names_appliance (cs_SourceVolumeId q) \<Longrightarrow> blames L (CreateSnapshot L q)"
    and "(\<And>vol n. strings_Split i ''@'' = [vol, n] \<Longrightarrow> id_names_appliance vol) \<Longrightarrow> blames L (DeleteSnapshot L i)"
proof -
  note use = ctrl_refresh_blames [OF assms]
  show "id_names_appliance (cs_SourceVolumeId q) \<Longrightarrow> blames L (CreateSnapshot L q)"
    unfolding CreateSnapshot_def Let_def
    by (intro with_provider_blames blames_rules use) (auto dest: id_names_applianceD intro!: safe_rules)
  assume i: "\<And>vol n. strings_Split i ''@'' = [vol, n] \<Longrightarrow> id_names_appliance vol"
  show "blames L (DeleteSnapshot L i)"
    unfolding DeleteSnapshot_def Let_def
    by (intro with_provider_blames blames_rules use)
      (use i in \<open>auto simp: id_names_appliance_def intro!: safe_rules\<close>)
qed

lemma create_params_safe [safe_rules]: "no_panic (create_params L ps)"
  unfolding create_params_def Let_def by (intro safe_rules)

lemma create_source_safe [safe_rules]: "no_panic (create_source cs)"
  unfolding create_source_def by (auto intro!: safe_rules split: option.split content_source.split)

lemma CreateVolume_blames:
  assumes "texts_complete L" and "get_str (cv_Parameters q) ''configName'' \<noteq> []"
    and "id_names_appliance (snapshot_source q)" and "id_names_appliance (volume_source q)"
  shows "blames L (CreateVolume L q)"
  unfolding CreateVolume_def Let_def
  by (intro blames_bind_gives [OF create_params_safe create_params_gives]
      blames_bind_gives [OF create_source_safe create_source_gives] blames_rules ctrl_use_config_blames [OF assms(1)]
      create_provision_blames)
    (use assms(2-4) in auto)

lemma node_handlers_safe:
  "no_panic (NodeUnstageVolume L q1)" "no_panic (NodePublishVolume L q2)" "no_panic (NodeUnpublishVolume L q3)"
proof -
  have parts: "no_panic (unstage_block L path)" "no_panic (unstage_mount L path)" "no_panic (logged (RemoveDevice L dev) ())"
    for path dev
    unfolding unstage_block_def unstage_mount_def logged_def Let_def by (intro safe_rules device_ops_safe)+
  show "no_panic (NodeUnstageVolume L q1)" unfolding NodeUnstageVolume_def Let_def by (intro safe_rules parts)
  have mount: "no_panic (mountVolume L dev path fs opts perm)" for dev path fs opts perm
    unfolding mountVolume_def Let_def by (intro safe_rules)
  have publish: "no_panic (publish_block L src path)" "no_panic (publish_mount L m src path ro perm)" for src path m ro perm
    unfolding publish_block_def publish_mount_def Let_def by (intro safe_rules mount device_ops_safe)+
  have cap: "no_panic (case t of AccessUnset \<Rightarrow> ret () | AccessBlock \<Rightarrow> publish_block L src path
      | AccessMount m \<Rightarrow> publish_mount L m src path ro perm)" for t src path ro perm
    by (cases t) (auto intro!: safe_rules publish)
  show "no_panic (NodePublishVolume L q2)" unfolding NodePublishVolume_def Let_def by (intro safe_rules cap)
  show "no_panic (NodeUnpublishVolume L q3)" unfolding NodeUnpublishVolume_def Let_def by (intro safe_rules)
qed

lemma Probe_safe: "texts_complete L \<Longrightarrow> no_panic (Probe L)"
  unfolding Probe_def by (intro safe_rules Refresh_safe)

lemma reply_blames: "blames L m \<Longrightarrow> blames L (reply m)"
  unfolding reply_def grpcErrorHandler_def by (intro blames_rules)

lemma serve_blames:
  assumes "texts_complete L" and "safe_request r"
  shows "blames L (serve L fuel version d r)"
proof -
  note node = node_handlers_safe [THEN no_panic_blames] Probe_safe [OF assms(1), THEN no_panic_blames]
  show ?thesis using assms(2)
    by (cases r)
      (auto intro!: reply_blames volume_handlers_blame [OF assms(1)] snapshot_handlers_blame [OF assms(1)]
          CreateVolume_blames [OF assms(1)] node blames_basic
        simp: GetPluginInfo_def GetPluginCapabilities_def ControllerGetCapabilities_def ControllerGetVolume_def
          NodeGetCapabilities_def NodeGetInfo_def)
qed

text \<open>The two places where the result of \<open>NewResolver\<close> is used before its error is looked at: the controller
  dereferences it, which ends the process, and the node server stores it.\<close>

theorem ctrl_refresh_step_nil_resolver_panics:
  assumes "InsecureSkipVerify cfg = Some skip" and "NewResolver L (resolver_args cfg skip) (world s) = ((None, Some e), w)"
  shows "fst (ctrl_refresh_step L (name, cfg) s) = Panic"
  using assms by (simp add: ctrl_refresh_step_def ns_NewResolver_def run_simps)

theorem node_refresh_step_stores_nil:
  assumes "InsecureSkipVerify cfg = Some skip" and "NewResolver L (resolver_args cfg skip) (world s) = ((None, Some e), w)"
  shows "\<exists>t. node_refresh_step L (name, cfg) s = (Fail (resolver_error L e), t) \<and>
    map_of (nodeResolvers t) name = Some None"
  using assms by (simp add: node_refresh_step_def ns_NewResolver_def run_simps update_conv')

section \<open>Every request ends\<close>

lemma returns_source [returns_rules]: "returns (create_source cs)"
  unfolding create_source_def by (auto intro!: returns_rules split: option.split content_source.split)

lemma Refresh_returns [returns_rules]: "returns (Refresh L secret)"
  unfolding Refresh_def refresh_content_def refresh_load_def Validate_def validate_step_def validate_entry_def Let_def
  by (intro returns_rules)

lemma ctrl_refresh_returns [returns_rules]: "returns (ctrl_refreshConfig L secret)" "returns (ctrl_use_config L secrets)"
  unfolding ctrl_use_config_def pick_secret_def ctrl_refreshConfig_def ctrl_refresh_step_def by (intro returns_rules)+

lemma give_up_returns [returns_rules]: "returns (resolve_give_up L ps err)"
  unfolding resolve_give_up_def by (intro returns_rules)

lemma nozone_loop_returns [returns_rules]: "returns (nozone_loop L c ps err es)"
  by (induction L c ps err es rule: nozone_loop.induct) (auto simp: Let_def intro!: returns_rules)

lemma zone_loop_returns [returns_rules]: "returns (zone_loop L c ps vg err es)"
  by (induction L c ps vg err es rule: zone_loop.induct) (auto simp: Let_def intro!: returns_rules)

lemma resolveNS_returns [returns_rules]: "returns (resolveNS L ps)"
  unfolding resolveNS_def resolveNSNoZone_def resolveNSWithZone_def resolve_named_def Let_def
  by (intro returns_rules)

lemma not_found_ok_returns [returns_rules]: "returns (not_found_ok L x e)"
  unfolding not_found_ok_def by (intro returns_rules)

lemma CreateSnapshotOnNS_returns [returns_rules]: "returns (CreateSnapshotOnNS L p path name)"
  unfolding CreateSnapshotOnNS_def Let_def by (intro returns_rules)

lemma making_returns [returns_rules]:
  "returns (createNewVolume L p path n sp)" "returns (createNewVolumeFromSnapshot L p snap path n)"
  "returns (createClonedVolume L p src path name n)"
  unfolding createNewVolume_def createNewVolumeFromSnapshot_def createClonedVolume_def destroy_luns_def Let_def
  by (intro returns_rules)+

lemma list_volumes_loop_returns [returns_rules]: "returns (list_volumes_loop L tok n acc nxt es)"
  by (induction L tok n acc nxt es rule: list_volumes_loop.induct) (auto intro!: returns_rules)

lemma getVolumeSnapshotList_returns [returns_rules]: "returns (getVolumeSnapshotList L i req)"
  unfolding getVolumeSnapshotList_def by (intro returns_rules)

lemma list_all_snapshots_returns [returns_rules]: "returns (list_all_snapshots L req acc es)"
  by (induction L req acc es rule: list_all_snapshots.induct) (auto simp: Let_def intro!: returns_rules)

lemma single_snapshot_returns [returns_rules]: "returns (getSnapshotListWithSingleSnapshot L i)"
  unfolding getSnapshotListWithSingleSnapshot_def Let_def
  by (auto intro!: returns_rules split: list.split)

lemma controller_returns [returns_rules]:
  "returns (CreateVolume L q1)" "returns (DeleteVolume L q2)" "returns (ControllerPublishVolume L q3)"
  "returns (ControllerUnpublishVolume L q4)" "returns (ValidateVolumeCapabilities L q5)" "returns (ListVolumes L q6)"
  "returns (GetCapacity L q7)" "returns (CreateSnapshot L q8)" "returns (DeleteSnapshot L q9)"
  "returns (ListSnapshots L q10)" "returns (ControllerExpandVolume L q11)" "returns (Probe L)"
  unfolding CreateVolume_def create_params_def create_provision_def DeleteVolume_def delete_on_def
    ControllerPublishVolume_def ControllerUnpublishVolume_def unpublish_on_def ValidateVolumeCapabilities_def
    ListVolumes_def GetCapacity_def CreateSnapshot_def DeleteSnapshot_def destroy_snapshot_on_def ListSnapshots_def
    ControllerExpandVolume_def expand_on_def Probe_def Let_def
  by (intro returns_rules)+

lemma node_returns [returns_rules]:
  "returns (NodeUnstageVolume L q1)" "returns (NodePublishVolume L q2)" "returns (NodeUnpublishVolume L q3)"
  "returns (NodeGetVolumeStats L q4)" "returns (NodeExpandVolume L q5)"
  unfolding NodeUnstageVolume_def unstage_block_def unstage_mount_def logged_def NodePublishVolume_def
    publish_block_def publish_mount_def mountVolume_def NodeUnpublishVolume_def NodeGetVolumeStats_def
    node_refreshConfig_def node_refresh_step_def NodeExpandVolume_def expand_device_def RescanDevice_def Let_def
  by (intro returns_rules device_ops_safe)+


lemma reply_returns: "returns m \<Longrightarrow> returns (reply m)"
  unfolding reply_def grpcErrorHandler_def by (intro returns_rules)

text \<open>Only staging needs fuel.\<close>

lemma serve_returns:
  assumes "\<And>q. r \<noteq> NodeStageVolumeReq q"
  shows "returns (serve L fuel version d r)"
  using assms
  by (cases r)
    (auto intro!: reply_returns returns_rules
      simp: GetPluginInfo_def GetPluginCapabilities_def ControllerGetCapabilities_def ControllerGetVolume_def
        NodeGetCapabilities_def NodeGetInfo_def)

lemma reply_NoFuel: "fst (reply m s) = NoFuel \<longleftrightarrow> fst (m s) = NoFuel"
  by (simp add: reply_def grpcErrorHandler_def run_simps split: prod.splits outcome.splits)

lemma safe_not_stage: "safe_request r \<Longrightarrow> r \<noteq> NodeStageVolumeReq q"
  by auto

end
