(* ===== verification/Spec2Isabelle.thy ===== *)
theory Spec2Isabelle
  imports DriverStart ProcessSafety
begin

text \<open>
  A verification development for the NexentaStor CSI block driver (Go).

  \<^bold>\<open>The program.\<close> One process implements the three services of the Container Storage Interface.
  \<open>cmd/main.go\<close> reads the command line and the configuration, builds a driver (\<open>pkg/driver/driver.go\<close>), and the
  driver serves, by its role (\<open>role.go\<close>), the identity service always, the controller service
  (\<open>controllerServer.go\<close>: volumes and snapshots on the appliances) and the node service (\<open>nodeServer.go\<close>:
  attaching a volume over iSCSI, formatting, mounting). The servers share one configuration object
  (\<open>pkg/config/config.go\<close>), which every request refreshes from its file or from a secret; each server keeps a map
  of resolvers, one for each appliance of the configuration, and asks one of them for the provider that
  has the volume group of the request. The id of a volume is \<open>config:pool/group/name\<close>, that of a snapshot
  \<open>config:pool/group/name@snapshot\<close>; nothing else is remembered between requests.

  \<^bold>\<open>How the code is modelled\<close> (\<open>GoPrelude\<close>, \<open>GoStrings\<close>, \<open>DriverState\<close>).
  \<^item> A function with effects is a value of \<open>('s, 'a) M\<close>, from a state to an outcome and a state; the outcome is
    \<open>Ret\<close> a value, \<open>Fail\<close> an error, \<open>Panic\<close> (a nil dereference, an index out of range) or \<open>NoFuel\<close>. \<open>bind\<close> is
    \<open>if err != nil { return err }\<close>, \<open>attempt\<close> any other treatment of an error, \<open>deref\<close> the use of a pointer,
    \<open>forM\<close> and \<open>foldM\<close> are the loops. An early return, a dropped error and a shadowed \<open>err\<close> are written as
    the code has them.
  \<^item> The state \<open>st\<close> is the configuration object, the resolver maps of the two servers, the outside world, of an
    arbitrary type \<open>'w\<close>, and the history of the calls made to it, which no definition of the driver reads.
  \<^item> Everything outside the repository (the appliance's client \<open>go-nexentastor\<close>, the YAML parser, the
    operating system with its commands and mounts, UUIDs, time, backoff) is a field of the record \<open>lib\<close>: an
    arbitrary function on the world. What a property needs of it is a named hypothesis, such as
    \<open>create_contract\<close>, \<open>destroy_contract\<close>, \<open>group_contract\<close>, \<open>lookups_keep\<close> or \<open>resolver_answers\<close>; these allow
    the appliance to fail at any call. The contracts of the volume properties speak of one table of volumes for all
    providers. \<open>SimWorld\<close> is one concrete world with a small appliance and node. Only the
    witnesses use it, to run the definitions and to show that the hypotheses can hold together.
  \<^item> A Go map is an association list, and the unspecified order of \<open>range\<close> is an order that the world picks
    (\<open>goRange\<close>), so that a property holds for every order. Strings are lists of characters; \<open>strings\<close>,
    \<open>strconv\<close> and \<open>filepath\<close> are defined as far as they are used, with the errors of \<open>strconv\<close> in its order. An \<open>int64\<close> that is only compared or printed
    is an \<open>int\<close>; file modes are \<open>32 word\<close>, page limits \<open>32 word\<close>, durations \<open>64 word\<close>, where their arithmetic
    wraps.

  \<^bold>\<open>Theories and sources.\<close>
  \<^item> \<open>ConfigPkg\<close>: \<open>config.go\<close> (\<open>New\<close>, \<open>Refresh\<close>, \<open>Validate\<close>, \<open>findConfigFile\<close>). The address check is exactly
    \<open>http[s]://host:port\<close>; after a refresh that reports a change all entries are valid; a failed refresh is not
    repeated; a missing option is a nil dereference.
  \<^item> \<open>Utilities\<close>: \<open>arrays.go\<close>, \<open>role.go\<close>. \<open>Identity\<close>: \<open>identityServer.go\<close>.
  \<^item> \<open>ControllerResolve\<close>: \<open>refreshConfig\<close>, \<open>NewControllerServer\<close>, \<open>resolveNS\<close> with and without a zone. The
    appliance found is the right one (soundness), one is found in every order of the map (completeness without
    a zone), and the ways it goes wrong. The locale \<open>config_client\<close> is the contract of \<open>refreshConfig\<close>, with the
    controller and the node server (\<open>NodeIscsiProps\<close>) as its interpretations.
  \<^item> \<open>ControllerVolumes\<close>, \<open>ControllerVolumeProps\<close>, \<open>ControllerLifecycle\<close>: \<open>CreateVolume\<close> with its three ways to
    make a volume, \<open>DeleteVolume\<close>, \<open>ControllerExpandVolume\<close>, \<open>ValidateVolumeCapabilities\<close>, \<open>GetCapacity\<close>. The table
    of volumes before and after, the refinement of an abstract idempotent creation, the round trip of ids
    through the appliance that was resolved, which commands are sent (\<open>creates\<close>), repeating a creation, creating and
    deleting. \<open>EndingRuns\<close>: the rules for operations that end.
  \<^item> \<open>ControllerSnapshots\<close>, \<open>ControllerSnapshotProps\<close>: \<open>CreateSnapshot\<close>, \<open>DeleteSnapshot\<close>, \<open>ListSnapshots\<close>. The locale
    \<open>paged_listing\<close> is the contract of a listing by pages, interpreted on the page of the driver.
  \<^item> \<open>ControllerPublish\<close>, \<open>ControllerPublishProps\<close>: \<open>ListVolumes\<close>, \<open>ControllerPublishVolume\<close>,
    \<open>ControllerUnpublishVolume\<close> and its wait, \<open>ControllerGetCapabilities\<close>. What a success means, the bound
    on the time slept, and what is listed.
  \<^item> \<open>NodeIscsi\<close>, \<open>NodeIscsiProps\<close>: the node server up to the device: initiator, host group, CHAP, the choice of a
    target, the volume context, \<open>iscsiadm\<close>, \<open>findmnt\<close>, \<open>blkid\<close>. \<open>BlkidFormat\<close> describes the output of \<open>blkid\<close> on its
    own, and proves what the driver reads in it.
  \<^item> \<open>NodeStage\<close>, \<open>NodeStageProps\<close>: \<open>NodeStageVolume\<close> with the wait for the device, \<open>formatVolume\<close>, \<open>mountVolume\<close>,
    \<open>NodeUnstageVolume\<close>. Termination, what is formatted, what is removed.
  \<^item> \<open>NodePublish\<close>, \<open>NodePublishProps\<close>: \<open>NodePublishVolume\<close>, \<open>NodeUnpublishVolume\<close>, \<open>NodeExpandVolume\<close>,
    \<open>NodeGetVolumeStats\<close>, \<open>NodeGetInfo\<close>, \<open>NodeGetCapabilities\<close>.
  \<^item> \<open>DriverCore\<close>, \<open>DriverStart\<close>: \<open>NewDriver\<close>, \<open>Validate\<close>, \<open>Run\<close>, the error interceptor and \<open>main\<close>; what holds
    when the driver begins to serve.
  \<^item> \<open>DriverProcess\<close>, \<open>ProcessSafety\<close> and this theory: the running process as a step relation (\<open>process\<close>: a request of a service
    of the role is served by its handler, or the outside world changes), the commands each request may cause
    (\<open>authorised\<close>), and what holds of every history. \<open>ProcessSafety\<close>: what a panic is due to in the requests that
    name their appliance (\<open>safe_request\<close>, \<open>client_broke\<close>), and that every request ends.

  \<^bold>\<open>Kinds of lemmas.\<close> A frame says what every run of an operation leaves alone or adds to the history; the locale
  \<open>state_frame\<close> (in \<open>GoPrelude\<close>) makes frames compositional and is interpreted for a component of the state
  (\<open>same\<close>), for the history (\<open>emits\<close>), for serving (\<open>stays\<close>) and for starting (\<open>grows\<close>). The collection \<open>run_simps\<close>
  evaluates an operation on a state, \<open>ran\<close> takes a run that ended in a given way apart, \<open>gives\<close> says what a run
  that succeeds returns, and \<open>raises_rules\<close>, \<open>safe_rules\<close>, \<open>blames_rules\<close>, \<open>returns_rules\<close> and \<open>view_rules\<close> collect
  which errors an operation ends in, that it does not panic, what it panics after, that it ends, and that it
  leaves a view of the appliance alone.

  \<^bold>\<open>Bounds and fuel.\<close> Two loops wait. \<open>wait_luns_gone\<close> (unpublishing) has a counter that goes up to 61, so its
  recursion is on the distance to it. \<open>stage_wait\<close> (staging) doubles a 64-bit duration until it exceeds the
  timeout of the configuration; it takes fuel, and a theorem below shows that 34 rounds are enough for every
  timeout below \<open>2 ^ 33\<close> seconds, in which range the product with \<open>time.Second\<close> does not overflow. The
  retries of \<open>formatVolume\<close> are limited by the backoff policy, whose number is a parameter.

  \<^bold>\<open>Not modelled.\<close> Log messages, which nothing reads back. Requests that run at the same time: handlers are
  steps of the process, so data races on the configuration and the resolver maps are outside the
  model. The gRPC transport, the generated code of the protocol, the YAML syntax, the client of the appliance and
  the operating system, which are parameters. The time limit of \<open>findmnt\<close> and the closing of files. The tests,
  which drive a cluster through \<open>ssh\<close> and \<open>kubectl\<close>, and the files for building and deployment, which hold no logic
  of the driver.
\<close>

section \<open>Commands of a running process\<close>

text \<open>C3: every command a running process ever sends to an appliance belongs to the request it is serving at that
  time: the history of the process is divided among its requests in their order, and in the part of a request
  there are only commands it authorises, whatever the outcomes and whatever happens outside. These are for the
  volume, the snapshot and the size the request names; LUN mappings are destroyed only if the appliance lists them
  for that volume, and a snapshot is cloned only if it is the one the request names or was made for its source
  volume. On the node they make targets, groups and initiators, and LUN mappings of the volume the request names.\<close>

theorem process_authorised:
  assumes "process L version d s rs t"
  shows "\<exists>css. trace t = trace s @ concat css \<and>
    list_all2 (\<lambda>r cs. \<forall>p cmd. NsCmd p cmd \<in> set cs \<longrightarrow> authorised L r p cmd) rs css"
proof -
  obtain css where "trace t = trace s @ concat css" "list_all2 (\<lambda>r cs. \<forall>c \<in> set cs. within L r c) rs css"
    using process_calls [OF assms] by blast
  moreover from this(2) have "list_all2 (\<lambda>r cs. \<forall>p cmd. NsCmd p cmd \<in> set cs \<longrightarrow> authorised L r p cmd) rs css"
    by (rule list_all2_mono) (fastforce simp: within_def)
  ultimately show ?thesis by blast
qed

lemma authorised_destroy: "authorised L r p (DestroyVolumeCmd path b c) \<Longrightarrow>
    \<exists>q config. r = DeleteVolumeReq q \<and> dv_VolumeId q = config @ '':'' @ path"
  by (cases r) (auto simp: creates_def strings_Split_two)

text \<open>C12: no volume is ever destroyed unless its deletion was asked for: a destroy command in the history of a
  running process is for the path in the id of a \<open>DeleteVolume\<close> request the process has served.\<close>

theorem process_destroys_on_request:
  assumes "process L version d s rs t" and "NsCmd p (DestroyVolumeCmd path b c) \<in> set (trace t)"
    and "NsCmd p (DestroyVolumeCmd path b c) \<notin> set (trace s)"
  shows "\<exists>q config. DeleteVolumeReq q \<in> set rs \<and> dv_VolumeId q = config @ '':'' @ path"
proof -
  obtain r where "r \<in> set rs" "authorised L r p (DestroyVolumeCmd path b c)" by (rule process_command [OF assms])
  with authorised_destroy show ?thesis by blast
qed

lemma node_authorised: "service_of r \<in> {service_identity, service_node} \<Longrightarrow> authorised L r p cmd \<Longrightarrow>
    attach_cmd cmd \<or> (\<exists>path tg hg. cmd = CreateLunMappingCmd path tg hg)"
  by (cases r) (auto simp: attach_cmd_def service_identity_def service_node_def service_controller_def
      split: ns_cmd.splits)

text \<open>C13: a driver in the node role never creates, resizes, clones or destroys a volume or a snapshot and
  never removes a LUN mapping: its commands only make targets, groups, initiators and LUN mappings.\<close>

theorem node_process_only_attaches:
  assumes "process L version d s rs t" and "\<not> IsController (d_role d)"
    and "NsCmd p cmd \<in> set (trace t)" and "NsCmd p cmd \<notin> set (trace s)"
  shows "attach_cmd cmd \<or> (\<exists>path tg hg. cmd = CreateLunMappingCmd path tg hg)"
proof -
  obtain r where r: "r \<in> set rs" "authorised L r p cmd" by (rule process_command [OF assms(1,3,4)])
  have "service_of r \<in> {service_identity, service_node}"
    using process_services [OF assms(1) r(1)] assms(2) by (auto simp: services_def split: if_splits)
  with r(2) show ?thesis by (intro node_authorised)
qed

text \<open>C14: while the process runs, the configuration is always read from the file it was started with, and an
  appliance that once had an entry among the resolvers of the controller or of the node server keeps one: taking it
  out of the configuration file does not make the driver forget it. An entry of the controller always is a resolver;
  that of the node server is a pointer, and it becomes nil only if the client library made no resolver.\<close>

theorem process_state_invariant:
  assumes "process L version d s rs t"
  shows "filePath (conf t) = filePath (conf s) \<and>
    fst ` set (ctrlResolvers s) \<subseteq> fst ` set (ctrlResolvers t) \<and>
    fst ` set (nodeResolvers s) \<subseteq> fst ` set (nodeResolvers t) \<and>
    (\<forall>name. map_of (nodeResolvers t) name = Some None \<longrightarrow>
       map_of (nodeResolvers s) name = Some None \<or> (\<exists>a w. fst (fst (NewResolver L a w)) = None))"
proof -
  have "stays L s t" using assms
  proof (induction rule: process.induct)
    case start
    show ?case by (rule staying.frame_refl)
  next
    case (request rs t r fuel res u)
    have "stays L t u" by (rule keepsD [OF serve_stays request.hyps(3)])
    then show ?case by (rule staying.frame_trans [OF request.IH])
  next
    case (outside rs t w)
    then show ?case by (simp add: stays_def)
  qed
  then show ?thesis by (simp add: stays_def makes_none_def)
qed

section \<open>Every request ends, and what can crash the driver\<close>

text \<open>C4: Every request to the driver comes to an end, with an answer, an error or a panic, when the timeouts of the
  configuration that a staging request finds are below 2^33 seconds (about 272 years) in absolute value.\<close>

theorem request_ends:
  assumes "\<And>q u name. r = NodeStageVolumeReq q \<Longrightarrow> node_use_config L (ns_Secrets q) s = (Ret (), u) \<Longrightarrow>
    \<bar>parse_timeout (ns_data (conf u) name)\<bar> < 2 ^ 33"
  shows "fst (serve L 34 version d r s) \<noteq> NoFuel"
proof (cases "\<exists>q. r = NodeStageVolumeReq q")
  case True
  then obtain q where "r = NodeStageVolumeReq q" by blast
  with NodeStageVolume_ends [of L q s] assms show ?thesis by (simp add: reply_NoFuel)
next
  case False
  then show ?thesis using serve_returns unfolding returns_def by blast
qed


definition all_driver :: Driver where
  "all_driver = \<lparr>d_role = RoleAll, d_nodeID = ''n1'', d_endpoint = ''unix:///csi.sock''\<rparr>"

text \<open>A process that has deleted the volume \<open>p/g/v\<close>.\<close>

lemma deleting_process:
  "\<exists>t. process sim_lib ''v1'' all_driver ((sim_process [(''a'', sim_data)] ''good'' 7)\<lparr>world := mapped_world\<rparr>)
      [DeleteVolumeReq \<lparr>dv_VolumeId = ''a:p/g/v'', dv_Secrets = []\<rparr>] t \<and>
    NsCmd 0 (DestroyVolumeCmd ''p/g/v'' True True) \<in> set (trace t) \<and> NsCmd 0 (DestroyLunMappingCmd ''7'') \<in> set (trace t)"
proof -
  let ?s = "(sim_process [(''a'', sim_data)] ''good'' 7)\<lparr>world := mapped_world\<rparr>"
    and ?q = "DeleteVolumeReq \<lparr>dv_VolumeId = ''a:p/g/v'', dv_Secrets = []\<rparr>"
  obtain t where run: "serve sim_lib 0 ''v1'' all_driver ?q ?s = (Ret (), t)"
    and c: "NsCmd 0 (DestroyVolumeCmd ''p/g/v'' True True) \<in> set (trace t)"
      "NsCmd 0 (DestroyLunMappingCmd ''7'') \<in> set (trace t)"
    by (simp add: reply_def grpcErrorHandler_def DeleteVolume_def delete_on_def destroy_luns_def create_eval
        config_eval sim_defs resolve_named_def ctrl_resolver_def mapped_world_def ns_GetLunMappings_def
        luns_of_volume_def)
  have "service_of ?q \<in> set (services (d_role all_driver))"
    by (simp add: services_def all_driver_def IsController_def)
  from process.request [OF process.start this run] c show ?thesis by auto
qed

definition delete_req :: request where
  "delete_req = DeleteVolumeReq \<lparr>dv_VolumeId = ''a:p/g/v'', dv_Secrets = []\<rparr>"

theorem process_authorised_witness:
  "\<exists>t. process sim_lib ''v1'' all_driver ((sim_process [(''a'', sim_data)] ''good'' 7)\<lparr>world := mapped_world\<rparr>)
      [delete_req] t \<and>
    NsCmd 0 (DestroyLunMappingCmd ''7'') \<in> set (trace t) \<and> authorised sim_lib delete_req 0 (DestroyLunMappingCmd ''7'') \<and>
    NsCmd 0 (DestroyVolumeCmd ''p/g/v'' True True) \<in> set (trace t) \<and>
    authorised sim_lib delete_req 0 (DestroyVolumeCmd ''p/g/v'' True True)"
proof -
  let ?s = "(sim_process [(''a'', sim_data)] ''good'' 7)\<lparr>world := mapped_world\<rparr>"
  obtain t where t: "process sim_lib ''v1'' all_driver ?s [delete_req] t"
    "NsCmd 0 (DestroyVolumeCmd ''p/g/v'' True True) \<in> set (trace t)" "NsCmd 0 (DestroyLunMappingCmd ''7'') \<in> set (trace t)"
    using deleting_process by (auto simp: delete_req_def)
  have "trace ?s = []" by (simp add: sim_process_def)
  with process_authorised [OF t(1)] t(2,3)
  have "authorised sim_lib delete_req 0 (DestroyVolumeCmd ''p/g/v'' True True)"
    "authorised sim_lib delete_req 0 (DestroyLunMappingCmd ''7'')"
    by (auto simp: list_all2_Cons1 simp del: authorised.simps)
  with t show ?thesis by blast
qed

theorem process_destroys_on_request_witness:
  "\<exists>t q config. process sim_lib ''v1'' all_driver ((sim_process [(''a'', sim_data)] ''good'' 7)\<lparr>world := mapped_world\<rparr>)
      [delete_req] t \<and> NsCmd 0 (DestroyVolumeCmd ''p/g/v'' True True) \<in> set (trace t) \<and>
    DeleteVolumeReq q \<in> set [delete_req] \<and> dv_VolumeId q = config @ '':'' @ ''p/g/v''"
proof -
  let ?s = "(sim_process [(''a'', sim_data)] ''good'' 7)\<lparr>world := mapped_world\<rparr>"
  obtain t where t: "process sim_lib ''v1'' all_driver ?s [delete_req] t"
    "NsCmd 0 (DestroyVolumeCmd ''p/g/v'' True True) \<in> set (trace t)"
    using deleting_process by (auto simp: delete_req_def)
  moreover have "NsCmd 0 (DestroyVolumeCmd ''p/g/v'' True True) \<notin> set (trace ?s)" by (simp add: sim_process_def)
  ultimately show ?thesis using process_destroys_on_request [OF t] by blast
qed

lemma sim_resolvers: "fst (fst (NewResolver sim_lib a w)) \<noteq> None"
  by (simp add: sim_defs)

theorem process_state_invariant_witness:
  "\<exists>t. process sim_lib ''v1'' all_driver ((sim_process [(''a'', sim_data)] ''good'' 7)\<lparr>world := mapped_world\<rparr>)
      [delete_req] t \<and>
    filePath (conf t) = ''/c.yaml'' \<and> {''a''} \<subseteq> fst ` set (ctrlResolvers t) \<and> map_of (nodeResolvers t) ''a'' \<noteq> Some None"
proof -
  let ?s = "(sim_process [(''a'', sim_data)] ''good'' 7)\<lparr>world := mapped_world\<rparr>"
  obtain t where t: "process sim_lib ''v1'' all_driver ?s [delete_req] t"
    using deleting_process by (auto simp: delete_req_def)
  have "filePath (conf ?s) = ''/c.yaml''" "fst ` set (ctrlResolvers ?s) = {''a''}" "map_of (nodeResolvers ?s) ''a'' \<noteq> Some None"
    by (simp_all add: sim_process_def)
  with process_state_invariant [OF t] t sim_resolvers show ?thesis by metis
qed

text \<open>A node that stages a volume; there is no target group yet, so it makes a target.\<close>

definition node_driver :: Driver where
  "node_driver = all_driver\<lparr>d_role := RoleNode\<rparr>"

theorem node_process_only_attaches_witness:
  "\<exists>t cmd. process sim_lib ''v1'' node_driver (sim_process [(''a'', sim_data)] ''good'' 7) [NodeStageVolumeReq stage_req] t \<and>
    NsCmd 0 cmd \<in> set (trace t) \<and> (attach_cmd cmd \<or> (\<exists>path tg hg. cmd = CreateLunMappingCmd path tg hg))"
proof -
  let ?s = "sim_process [(''a'', sim_data)] ''good'' 7"
  obtain e t cmd where run: "serve sim_lib 0 ''v1'' node_driver (NodeStageVolumeReq stage_req) ?s = (Fail e, t)"
    and c: "NsCmd 0 cmd \<in> set (trace t)"
    by (force simp: reply_def grpcErrorHandler_def stage_req_def NodeStageVolume_def node_use_config_def
        pick_secret_def last_secret_def node_refreshConfig_def node_resolveNS_def node_resolver_def
        ns_ResolveFromVg_def config_eval sim_defs ns_data_def stage_on_def ParseVolumeContext_def get_str_def
        parse_host_group_def parse_chap_def parse_port_def DefaultISCSIPort_const_def DefaultUseChapAuth_def
        strconv_ParseBool_def stage_target_def ResolveTargetGroup_def ns_GetTargetGroups_def target_candidates_def
        CreateNewTargetTg_def new_target_name_def uuid_New_def strconv_Atoi_def parse_int_def digit_val_def parse_uint.simps
        stage_lun_def ns_GetLunMappings_def CreateISCSIMapping_def ISCSILogInRescan_def os_exec_def Let_def)
  have "service_of (NodeStageVolumeReq stage_req) \<in> set (services (d_role node_driver))"
    by (simp add: services_def node_driver_def all_driver_def IsNode_def)
  from process.request [OF process.start this run]
  have p: "process sim_lib ''v1'' node_driver ?s [NodeStageVolumeReq stage_req] t" by simp
  have "\<not> IsController (d_role node_driver)"
    by (simp add: node_driver_def all_driver_def IsController_def RoleNode_def RoleController_def RoleAll_def)
  moreover have "NsCmd 0 cmd \<notin> set (trace ?s)" by (simp add: sim_process_def)
  ultimately show ?thesis using node_process_only_attaches [OF p _ c] p c by blast
qed


theorem request_ends_witness:
  "fst (serve sim_lib 34 ''v1'' node_driver (NodeStageVolumeReq stage_req) (sim_process [(''a'', sim_data)] ''good'' 7)) \<noteq>
    NoFuel"
  by (rule request_ends) (auto dest: sim_stage_timeout)


end
